theory Spec2Isabelle
  imports Complex_Main "HOL-Library.Monad_Syntax" "HOL-Library.Multiset"
begin

section \<open>Go strings: bytes, runes and the library calls the codec uses\<close>

text \<open>
  A Go \<^verbatim>\<open>string\<close> is a sequence of bytes, modelled as \<^typ>\<open>string\<close> (a list of 8-bit
  characters). A \<^verbatim>\<open>rune\<close> is a Unicode code point, a signed integer in Go and an integer
  here; the value of a byte is an integer too.
  \<^verbatim>\<open>len(s)\<close> counts bytes.
\<close>

type_synonym rune = int

definition RuneError :: rune where
  "RuneError = 0xFFFD"

text \<open>
  \<^verbatim>\<open>utf8.DecodeRuneInString\<close> of the Go standard library: the first rune of a string and
  its width in bytes. An invalid or incomplete encoding yields \<^verbatim>\<open>RuneError\<close> with width 1,
  the empty string yields width 0. The table below is the library's \<^verbatim>\<open>first\<close> and
  \<^verbatim>\<open>acceptRanges\<close> tables: size of the encoding and the range of the second byte.
\<close>

definition leadInfo :: "int \<Rightarrow> (nat \<times> int \<times> int) option" where
  "leadInfo b0 =
     (if b0 < 0xC2 then None
      else if b0 \<le> 0xDF then Some (2, 0x80, 0xBF)
      else if b0 = 0xE0 then Some (3, 0xA0, 0xBF)
      else if b0 = 0xED then Some (3, 0x80, 0x9F)
      else if b0 \<le> 0xEF then Some (3, 0x80, 0xBF)
      else if b0 = 0xF0 then Some (4, 0x90, 0xBF)
      else if b0 \<le> 0xF3 then Some (4, 0x80, 0xBF)
      else if b0 = 0xF4 then Some (4, 0x80, 0x8F)
      else None)"

definition isCont :: "int \<Rightarrow> bool" where
  "isCont b = (0x80 \<le> b \<and> b \<le> 0xBF)"

definition DecodeRuneInString :: "string \<Rightarrow> rune \<times> nat" where
  "DecodeRuneInString s =
     (case map of_char s of
        [] \<Rightarrow> (RuneError, 0)
      | b0 # bs \<Rightarrow>
          if b0 < 0x80 then (b0, 1)
          else (case leadInfo b0 of
                  None \<Rightarrow> (RuneError, 1)
                | Some (sz, lo, hi) \<Rightarrow>
                    (case bs of
                       [] \<Rightarrow> (RuneError, 1)
                     | b1 # bs1 \<Rightarrow>
                         if b1 < lo \<or> hi < b1 then (RuneError, 1)
                         else if sz = 2 then ((b0 mod 32) * 64 + b1 mod 64, 2)
                         else (case bs1 of
                                 [] \<Rightarrow> (RuneError, 1)
                               | b2 # bs2 \<Rightarrow>
                                   if \<not> isCont b2 then (RuneError, 1)
                                   else if sz = 3
                                   then ((b0 mod 16) * 4096 + (b1 mod 64) * 64 + b2 mod 64, 3)
                                   else (case bs2 of
                                           [] \<Rightarrow> (RuneError, 1)
                                         | b3 # _ \<Rightarrow>
                                             if \<not> isCont b3 then (RuneError, 1)
                                             else ((b0 mod 8) * 262144 + (b1 mod 64) * 4096
                                                     + (b2 mod 64) * 64 + b3 mod 64, 4))))))"

text \<open>The runes of a string, as \<^verbatim>\<open>for _, r := range s\<close> yields them.\<close>

function runes :: "string \<Rightarrow> rune list" where
  "runes s =
     (if s = [] then []
      else fst (DecodeRuneInString s) # runes (drop (snd (DecodeRuneInString s)) s))"
  by pat_completeness auto
termination
proof (relation "measure length")
  show "wf (measure length)" by simp
next
  fix s :: string
  assume "s \<noteq> []"
  then have "1 \<le> snd (DecodeRuneInString s)"
    by (auto simp: DecodeRuneInString_def split: list.splits option.splits)
  with \<open>s \<noteq> []\<close> show "(drop (snd (DecodeRuneInString s)) s, s) \<in> measure length"
    by (cases s) auto
qed

text \<open>
  \<^verbatim>\<open>utf8.AppendRune\<close>: the UTF-8 encoding of a rune; surrogates and values beyond
  U+10FFFF are encoded as \<^verbatim>\<open>RuneError\<close>.
\<close>

definition EncodeRune :: "rune \<Rightarrow> string" where
  "EncodeRune r =
     (if 0 \<le> r \<and> r \<le> 0x7F then [char_of r]
      else if 0 \<le> r \<and> r \<le> 0x7FF then [char_of (0xC0 + r div 64), char_of (0x80 + r mod 64)]
      else if r < 0 \<or> 0x10FFFF < r \<or> (0xD800 \<le> r \<and> r \<le> 0xDFFF)
      then [char_of (0xEF::int), char_of (0xBF::int), char_of (0xBD::int)]
      else if r \<le> 0xFFFF
      then [char_of (0xE0 + r div 4096), char_of (0x80 + (r div 64) mod 64),
            char_of (0x80 + r mod 64)]
      else [char_of (0xF0 + r div 262144), char_of (0x80 + (r div 4096) mod 64),
            char_of (0x80 + (r div 64) mod 64), char_of (0x80 + r mod 64)])"

text \<open>
  \<^verbatim>\<open>strings.Map(mapping, s)\<close>: every rune of \<open>s\<close> is replaced by the encoding of its
  image, and dropped when the image is negative.
\<close>

definition stringsMap :: "(rune \<Rightarrow> rune) \<Rightarrow> string \<Rightarrow> string" where
  "stringsMap mapping s =
     concat (map (\<lambda>r. if mapping r < 0 then [] else EncodeRune (mapping r)) (runes s))"

section \<open>Reel name sanitizer (types.go)\<close>

definition DefaultReelNameLength :: int where
  "DefaultReelNameLength = 8"

text \<open>The function literal passed to \<^verbatim>\<open>strings.Map\<close> in \<^verbatim>\<open>SanitizeReelName\<close>.\<close>

definition reelRune :: "rune \<Rightarrow> rune" where
  "reelRune r =
     (if (of_char CHR ''A'' \<le> r \<and> r \<le> of_char CHR ''Z'')
         \<or> (of_char CHR ''a'' \<le> r \<and> r \<le> of_char CHR ''z'')
         \<or> (of_char CHR ''0'' \<le> r \<and> r \<le> of_char CHR ''9'')
         \<or> r = of_char CHR ''_''
      then r else of_char CHR ''_'')"

definition SanitizeReelName :: "string \<Rightarrow> int \<Rightarrow> string" where
  "SanitizeReelName name maxLength =
     (let name1 = stringsMap reelRune name;
          name2 = (if maxLength > 0 \<and> int (length name1) > maxLength
                   then take (nat maxLength) name1 else name1)
      in if name2 = [] then ''AX'' else name2)"

text \<open>
  The sanitizer as the specification words it: a character is kept when it is an ASCII
  letter, digit or underscore, and becomes an underscore otherwise.
\<close>

definition isReelChar :: "rune \<Rightarrow> bool" where
  "isReelChar r \<longleftrightarrow>
     r \<in> of_char ` set ''ABCDEFGHIJKLMNOPQRSTUVWXYZabcdefghijklmnopqrstuvwxyz0123456789_''"

definition sanitizedChars :: "string \<Rightarrow> string" where
  "sanitizedChars name = map (\<lambda>r. if isReelChar r then char_of r else CHR ''_'') (runes name)"

section \<open>Data types of the codec (types.go)\<close>

type_synonym EditType = string

definition EditTypeCut :: EditType where "EditTypeCut = ''C''"
definition EditTypeDissolve :: EditType where "EditTypeDissolve = ''D''"
definition EditTypeWipe :: EditType where "EditTypeWipe = ''W''"
definition EditTypeKeyBackground :: EditType where "EditTypeKeyBackground = ''KB''"
definition EditTypeKey :: EditType where "EditTypeKey = ''K''"

type_synonym TrackType = string

definition TrackTypeVideo :: TrackType where "TrackTypeVideo = ''V''"
definition TrackTypeAudio :: TrackType where "TrackTypeAudio = ''A''"
definition TrackTypeAudio1 :: TrackType where "TrackTypeAudio1 = ''A1''"
definition TrackTypeAudio2 :: TrackType where "TrackTypeAudio2 = ''A2''"
definition TrackTypeAudio3 :: TrackType where "TrackTypeAudio3 = ''A3''"
definition TrackTypeAudio4 :: TrackType where "TrackTypeAudio4 = ''A4''"

definition IsVideoTrack :: "TrackType \<Rightarrow> bool" where
  "IsVideoTrack t \<longleftrightarrow> t = TrackTypeVideo"

definition IsAudioTrack :: "TrackType \<Rightarrow> bool" where
  "IsAudioTrack t \<longleftrightarrow>
     t = TrackTypeAudio \<or> t = TrackTypeAudio1 \<or> t = TrackTypeAudio2
     \<or> t = TrackTypeAudio3 \<or> t = TrackTypeAudio4"

text \<open>
  \<^verbatim>\<open>float64\<close> values (speeds, colour coefficients, time values, rates) are modelled as
  exact rationals: the model has no rounding, infinities or NaN.
\<close>

datatype SpeedEffect = MkSpeedEffect (Name: string) (Speed: rat) (SpeedTimecode: string)

datatype Marker = MkMarker (Timecode: string) (Color: string) (MarkerComment: string)

type_synonym float3 = "rat \<times> rat \<times> rat"

datatype ASCCDL = MkASCCDL (Slope: float3) (Offset: float3) (Power: float3) (Saturation: rat)

record EDLEvent =
  EventNumber :: int
  ReelName :: string
  TrackType :: TrackType
  EditType :: EditType
  SourceIn :: string
  SourceOut :: string
  RecordIn :: string
  RecordOut :: string
  Comment :: string
  ClipName :: string
  TransitionDuration :: int
  WipeCode :: string
  SpeedEffect :: "SpeedEffect option"
  FreezeFrame :: bool
  FilePath :: string
  Markers :: "Marker list"
  ASCCDL :: "ASCCDL option"

text \<open>An \<^verbatim>\<open>EDLEvent{}\<close> literal leaves every field it does not name at its zero value.\<close>

definition zeroEvent :: EDLEvent where
  "zeroEvent = \<lparr>EventNumber = 0, ReelName = [], TrackType = [], EditType = [],
     SourceIn = [], SourceOut = [], RecordIn = [], RecordOut = [], Comment = [],
     ClipName = [], TransitionDuration = 0, WipeCode = [], SpeedEffect = None,
     FreezeFrame = False, FilePath = [], Markers = [], ASCCDL = None\<rparr>"

text \<open>
  The errors of the codec: \<^verbatim>\<open>ParseError{Line, Message}\<close> and \<^verbatim>\<open>EncodeError{Message}\<close>
  of types.go; the \<^verbatim>\<open>fmt.Errorf\<close> errors of \<^verbatim>\<open>createTrack\<close>, which carry the name of the
  timecode field and its text; and the errors that come from outside the codec (the
  scanner, the writer, the timeline library).
\<close>

datatype error =
    ParseError nat string
  | EncodeError string
  | TimecodeError string string
  | ErrTooLong
  | WriterError string
  | LibraryError string

section \<open>The external time and timeline model (packages opentime and opentimelineio)\<close>

text \<open>
  Modelled from the spec: the packages \<^verbatim>\<open>opentime\<close> and \<^verbatim>\<open>opentimelineio\<close> are external
  collaborators of the codec and are not part of its sources. What the codec calls is
  modelled after the interface the specification lists (section 6): a rational time
  exposes value, rate, add, subtract and rescale; a timeline has a name and an ordered
  container of tracks; a track has a kind and an ordered child sequence; children are
  clips, gaps, transitions or other nodes; a clip exposes name, source range, media
  reference, effects, markers and metadata; a media reference is external (target
  identifier) or a generator (kind); a transition exposes kind, offsets and name.
  The two timecode conversions of the package are not modelled here: the functions of the
  codec take them as parameters (\<open>ftc\<close> for \<^verbatim>\<open>FromTimecode\<close>, \<open>ttc\<close> for \<^verbatim>\<open>ToTimecode\<close>), so
  that what is proved about the codec holds for whatever the package computes.
\<close>

datatype RationalTime = NewRationalTime (Value: rat) (Rate: rat)

text \<open>The zero value of the struct, as \<^verbatim>\<open>var lastRecordOut opentime.RationalTime\<close> gives it.\<close>

definition zeroTime :: RationalTime where
  "zeroTime = NewRationalTime 0 0"

definition IsValidTime :: "RationalTime \<Rightarrow> bool" where
  "IsValidTime t \<longleftrightarrow> 0 < Rate t"

definition valueRescaledTo :: "RationalTime \<Rightarrow> rat \<Rightarrow> rat" where
  "valueRescaledTo t newRate = (if Rate t = newRate then Value t else Value t * newRate / Rate t)"

definition RescaledTo :: "RationalTime \<Rightarrow> rat \<Rightarrow> RationalTime" where
  "RescaledTo t newRate = NewRationalTime (valueRescaledTo t newRate) newRate"

text \<open>Sum and difference are taken at the larger of the two rates.\<close>

definition Add :: "RationalTime \<Rightarrow> RationalTime \<Rightarrow> RationalTime" where
  "Add a b =
     (if Rate a < Rate b then NewRationalTime (valueRescaledTo a (Rate b) + Value b) (Rate b)
      else NewRationalTime (Value a + valueRescaledTo b (Rate a)) (Rate a))"

definition Sub :: "RationalTime \<Rightarrow> RationalTime \<Rightarrow> RationalTime" where
  "Sub a b =
     (if Rate a < Rate b then NewRationalTime (valueRescaledTo a (Rate b) - Value b) (Rate b)
      else NewRationalTime (Value a - valueRescaledTo b (Rate a)) (Rate a))"

definition DurationFromStartEndTime :: "RationalTime \<Rightarrow> RationalTime \<Rightarrow> RationalTime" where
  "DurationFromStartEndTime start endExcl =
     NewRationalTime (valueRescaledTo endExcl (Rate start) - Value start) (Rate start)"

datatype TimeRange = NewTimeRange (StartTime: RationalTime) (Duration: RationalTime)

datatype MediaReference =
    ExternalReference string string "TimeRange option"
  | GeneratorReference string string "TimeRange option"
  | OtherReference string "TimeRange option"

text \<open>
  \<^verbatim>\<open>NewExternalReference(name, targetURL, availableRange, metadata)\<close> and
  \<^verbatim>\<open>NewGeneratorReference(name, generatorKind, parameters, availableRange, metadata)\<close>;
  the codec passes no parameters and no metadata.
\<close>

fun refName :: "MediaReference \<Rightarrow> string" where
  "refName (ExternalReference n _ _) = n"
| "refName (GeneratorReference n _ _) = n"
| "refName (OtherReference n _) = n"

fun refAvailableRange :: "MediaReference \<Rightarrow> TimeRange option" where
  "refAvailableRange (ExternalReference _ _ r) = r"
| "refAvailableRange (GeneratorReference _ _ r) = r"
| "refAvailableRange (OtherReference _ r) = r"

datatype MetaValue = MetaString string | MetaCDL ASCCDL

type_synonym metadata = "(string \<times> MetaValue) list"

datatype Effect =
    LinearTimeWarp string string rat
  | FreezeFrameEffect string
  | OtherEffect string

datatype OtioMarker =
  NewMarker (MarkerName: string) (MarkedRange: TimeRange) (MarkerColor: string)
    (MarkerText: string) (MarkerMeta: metadata)

record Clip =
  clipName :: string
  clipMediaReference :: "MediaReference option"
  clipSourceRange :: "TimeRange option"
  clipMetadata :: metadata
  clipEffects :: "Effect list"
  clipMarkers :: "OtioMarker list"

text \<open>
  \<^verbatim>\<open>NewClip(name, mediaRef, sourceRange, metadata, effects, markers, "", nil)\<close>.
\<close>

definition NewClip ::
  "string \<Rightarrow> MediaReference option \<Rightarrow> TimeRange option \<Rightarrow> metadata \<Rightarrow> Effect list
     \<Rightarrow> OtioMarker list \<Rightarrow> Clip" where
  "NewClip n m r md es ms =
     \<lparr>clipName = n, clipMediaReference = m, clipSourceRange = r, clipMetadata = md,
      clipEffects = es, clipMarkers = ms\<rparr>"

datatype Transition =
  NewTransition (TransitionName: string) (TransitionType: string)
    (InOffset: RationalTime) (OutOffset: RationalTime)

definition TransitionTypeSMPTEDissolve :: string where
  "TransitionTypeSMPTEDissolve = ''SMPTE_Dissolve''"

definition TransitionTypeCustom :: string where
  "TransitionTypeCustom = ''Custom_Transition''"

text \<open>
  A gap holds its source range (absent only for a gap built by other means than
  \<^verbatim>\<open>NewGapWithDuration\<close>). Any other child of a track (a nested stack or track) is
  \<open>OtherChild\<close>.
\<close>

datatype Composable =
    ClipChild Clip
  | GapChild "TimeRange option"
  | TransitionChild Transition
  | OtherChild string

definition NewGapWithDuration :: "RationalTime \<Rightarrow> Composable" where
  "NewGapWithDuration d = GapChild (Some (NewTimeRange (NewRationalTime 0 (Rate d)) d))"

definition gapDuration :: "TimeRange option \<Rightarrow> error + RationalTime" where
  "gapDuration r =
     (case r of None \<Rightarrow> Inl (LibraryError ''no source range'') | Some tr \<Rightarrow> Inr (Duration tr))"

definition clipAvailableRange :: "Clip \<Rightarrow> error + TimeRange" where
  "clipAvailableRange c =
     (case clipMediaReference c of
        None \<Rightarrow> Inl (LibraryError ''no media reference'')
      | Some m \<Rightarrow>
          (case refAvailableRange m of
             None \<Rightarrow> Inl (LibraryError ''no available range'')
           | Some r \<Rightarrow> Inr r))"

text \<open>The duration of a clip is that of its source range, else of its available range.\<close>

definition clipDuration :: "Clip \<Rightarrow> error + RationalTime" where
  "clipDuration c =
     (case clipSourceRange c of
        Some r \<Rightarrow> Inr (Duration r)
      | None \<Rightarrow> (case clipAvailableRange c of Inl e \<Rightarrow> Inl e | Inr r \<Rightarrow> Inr (Duration r)))"

definition TrackKindVideo :: string where "TrackKindVideo = ''Video''"
definition TrackKindAudio :: string where "TrackKindAudio = ''Audio''"

record Track =
  trackName :: string
  trackKind :: string
  trackChildren :: "Composable list"

definition NewTrack :: "string \<Rightarrow> string \<Rightarrow> Track" where
  "NewTrack n k = \<lparr>trackName = n, trackKind = k, trackChildren = []\<rparr>"

definition AppendChild :: "Track \<Rightarrow> Composable \<Rightarrow> Track" where
  "AppendChild t c = t\<lparr>trackChildren := trackChildren t @ [c]\<rparr>"

record Timeline =
  timelineName :: string
  timelineTracks :: "Track list"

definition NewTimeline :: "string \<Rightarrow> Timeline" where
  "NewTimeline n = \<lparr>timelineName = n, timelineTracks = []\<rparr>"

definition VideoTracks :: "Timeline \<Rightarrow> Track list" where
  "VideoTracks t = filter (\<lambda>tr. trackKind tr = TrackKindVideo) (timelineTracks t)"

definition AudioTracks :: "Timeline \<Rightarrow> Track list" where
  "AudioTracks t = filter (\<lambda>tr. trackKind tr = TrackKindAudio) (timelineTracks t)"

section \<open>Formatting verbs of package fmt\<close>

definition NL :: string where
  "NL = [CHR 0x0A]"

definition digitChar :: "nat \<Rightarrow> char" where
  "digitChar d = ''0123456789'' ! d"

text \<open>The decimal digits of a natural number, most significant first.\<close>

fun decimal :: "nat \<Rightarrow> string" where
  "decimal n = (if n < 10 then [digitChar n] else decimal (n div 10) @ [digitChar (n mod 10)])"

definition zeroPad :: "nat \<Rightarrow> string \<Rightarrow> string" where
  "zeroPad w s = replicate (w - length s) CHR ''0'' @ s"

text \<open>The verb \<^verbatim>\<open>%03d\<close>: zeros fill the field up to width 3, after the sign if there is one.\<close>

definition fmt03d :: "int \<Rightarrow> string" where
  "fmt03d n =
     (if n < 0 then CHR ''-'' # zeroPad 2 (decimal (nat (- n))) else zeroPad 3 (decimal (nat n)))"

text \<open>The verbs \<^verbatim>\<open>%-8s\<close> and \<^verbatim>\<open>%-2s\<close>: spaces on the right, the width counted in runes.\<close>

definition padRight :: "nat \<Rightarrow> string \<Rightarrow> string" where
  "padRight w s = s @ replicate (w - length (runes s)) CHR '' ''"

section \<open>Encoder (encoder.go)\<close>

text \<open>
  The \<^verbatim>\<open>io.Writer\<close> of the encoder is a state of any type \<open>'w\<close> with a write function: a
  write returns the new state and the error, if any. \<^verbatim>\<open>fmt.Fprintf\<close> formats its arguments and
  hands the text to the writer in one write. Every function of the encoder returns the
  state of the writer with its result, since what has been written stays written when a
  later step fails.
\<close>

type_synonym 'w writer = "'w \<Rightarrow> string \<Rightarrow> 'w \<times> error option"

text \<open>An in-memory buffer (\<^verbatim>\<open>bytes.Buffer\<close>): the state is the text written so far.\<close>

definition bufferWrite :: "string writer" where
  "bufferWrite w s = (w @ s, None)"

text \<open>
  A writer that never fails and keeps the writes apart: the state is the list of the texts
  handed to \<^verbatim>\<open>Write\<close>, one element for each call, in the order of the calls.
\<close>

definition logWrite :: "string list writer" where
  "logWrite w s = (w @ [s], None)"

text \<open>The parameter standing for \<^verbatim>\<open>RationalTime.ToTimecode(rate, InferFromRate)\<close>.\<close>

type_synonym toTimecode = "RationalTime \<Rightarrow> rat \<Rightarrow> string option"

definition OutputStyleAvid :: string where "OutputStyleAvid = ''avid''"
definition OutputStyleNucoda :: string where "OutputStyleNucoda = ''nucoda''"
definition OutputStylePremiere :: string where "OutputStylePremiere = ''premiere''"

record Encoder =
  style :: string
  reelNameLen :: int
  encRate :: rat

definition NewEncoder :: Encoder where
  "NewEncoder = \<lparr>style = OutputStyleAvid, reelNameLen = DefaultReelNameLength, encRate = 24\<rparr>"

definition isDropFrameRate :: "rat \<Rightarrow> bool" where
  "isDropFrameRate r \<longleftrightarrow> (r > 2996 / 100 \<and> r < 2998 / 100) \<or> (r > 5993 / 100 \<and> r < 5995 / 100)"

definition formatTimecode :: "toTimecode \<Rightarrow> Encoder \<Rightarrow> RationalTime \<Rightarrow> string" where
  "formatTimecode ttc e t =
     (let rescaled = RescaledTo t (encRate e) in
      case ttc rescaled (encRate e) of
        None \<Rightarrow> ''00:00:00:00''
      | Some tc \<Rightarrow>
          if \<not> isDropFrameRate (encRate e)
          then map (\<lambda>c. if c = CHR '';'' then CHR '':'' else c) tc
          else tc)"

text \<open>Sequencing of writes: the first error ends the function.\<close>

definition andThen ::
  "'w \<times> error option \<Rightarrow> ('w \<Rightarrow> 'w \<times> error option) \<Rightarrow> 'w \<times> error option" where
  "andThen r f = (case r of (w, None) \<Rightarrow> f w | (w, Some e) \<Rightarrow> (w, Some e))"

definition writeHeader :: "'w writer \<Rightarrow> Timeline \<Rightarrow> 'w \<Rightarrow> 'w \<times> error option" where
  "writeHeader wr t w =
     (let title = (if timelineName t = [] then ''Timeline'' else timelineName t) in
      andThen (wr w (''TITLE: '' @ title @ NL))
        (\<lambda>w1. wr w1 (''FCM: NON-DROP FRAME'' @ NL @ NL)))"

definition eventLine :: "EDLEvent \<Rightarrow> string" where
  "eventLine event =
     (let line = fmt03d (EventNumber event) @ ''  '' @ padRight 8 (ReelName event) @ '' ''
                   @ TrackType event @ ''    '' @ padRight 2 (EditType event)
      in if EditType event = EditTypeDissolve \<and> TransitionDuration event > 0
         then line @ ''   '' @ fmt03d (TransitionDuration event)
         else line)"

definition timecodeLine :: "EDLEvent \<Rightarrow> string" where
  "timecodeLine event =
     ''     '' @ SourceIn event @ '' '' @ SourceOut event @ '' '' @ RecordIn event @ '' ''
       @ RecordOut event"

definition writeEvent :: "'w writer \<Rightarrow> EDLEvent \<Rightarrow> 'w \<Rightarrow> 'w \<times> error option" where
  "writeEvent wr event w =
     andThen (wr w (eventLine event @ NL))
       (\<lambda>w1. andThen (wr w1 (timecodeLine event @ NL))
          (\<lambda>w2. andThen
             (if ClipName event \<noteq> []
              then wr w2 (''* FROM CLIP NAME: '' @ ClipName event @ NL)
              else (w2, None))
             (\<lambda>w3. wr w3 NL)))"

text \<open>The conversion \<^verbatim>\<open>int(x)\<close> of a float: the fraction is dropped.\<close>

definition goInt :: "rat \<Rightarrow> int" where
  "goInt x = (if 0 \<le> x then \<lfloor>x\<rfloor> else \<lceil>x\<rceil>)"

text \<open>
  The body of the loop of \<^verbatim>\<open>writeTrackEvents\<close> for a clip, up to the call of
  \<^verbatim>\<open>writeEvent\<close>: the event of the clip and the record-out time, or the error of the
  library. \<open>rest\<close> are the children after the clip.
\<close>

definition clipEvent ::
  "toTimecode \<Rightarrow> Encoder \<Rightarrow> TrackType \<Rightarrow> Clip \<Rightarrow> Composable list \<Rightarrow> int \<Rightarrow> RationalTime
     \<Rightarrow> error + (EDLEvent \<times> RationalTime)" where
  "clipEvent ttc e trackType clip rest eventNumber recordTime =
     (case clipDuration clip of
        Inl err \<Rightarrow> Inl err
      | Inr duration \<Rightarrow>
          (case (case clipSourceRange clip of
                   Some r \<Rightarrow> Inr r
                 | None \<Rightarrow> clipAvailableRange clip) of
             Inl err \<Rightarrow> Inl err
           | Inr sourceRange \<Rightarrow>
               (let sourceIn = StartTime sourceRange;
                    sourceOut = Add sourceIn duration;
                    recordIn = recordTime;
                    recordOut = Add recordTime duration;
                    reelName0 =
                      (case clipMediaReference clip of
                         None \<Rightarrow> ''AX''
                       | Some mediaRef \<Rightarrow>
                           if refName mediaRef = []
                           then (case mediaRef of
                                   ExternalReference _ url _ \<Rightarrow> url
                                 | _ \<Rightarrow> [])
                           else refName mediaRef);
                    reelName = SanitizeReelName reelName0 (reelNameLen e);
                    (editType, transitionDuration) =
                      (case rest of
                         TransitionChild transition # _ \<Rightarrow>
                           if TransitionType transition = ''SMPTE_Dissolve''
                           then (EditTypeDissolve, goInt (Value (OutOffset transition)))
                           else (EditTypeCut, 0)
                       | _ \<Rightarrow> (EditTypeCut, 0))
                in Inr (zeroEvent\<lparr>EventNumber := eventNumber, ReelName := reelName,
                          TrackType := trackType, EditType := editType,
                          SourceIn := formatTimecode ttc e sourceIn,
                          SourceOut := formatTimecode ttc e sourceOut,
                          RecordIn := formatTimecode ttc e recordIn,
                          RecordOut := formatTimecode ttc e recordOut,
                          ClipName := clipName clip,
                          TransitionDuration := transitionDuration\<rparr>, recordOut))))"

text \<open>A transition that directly follows a clip is skipped (\<^verbatim>\<open>i++\<close>).\<close>

definition skipTransition :: "Composable list \<Rightarrow> Composable list" where
  "skipTransition rest = (case rest of TransitionChild _ # rest' \<Rightarrow> rest' | _ \<Rightarrow> rest)"

text \<open>
  The loop of \<^verbatim>\<open>writeTrackEvents\<close> over the children from index \<open>i\<close> on, with the running
  event number and record time. It returns the writer, the event number and the error.
\<close>

function writeTrackLoop ::
  "toTimecode \<Rightarrow> 'w writer \<Rightarrow> Encoder \<Rightarrow> TrackType \<Rightarrow> Composable list \<Rightarrow> int \<Rightarrow> RationalTime
     \<Rightarrow> 'w \<Rightarrow> 'w \<times> int \<times> error option" where
  "writeTrackLoop ttc wr e trackType [] eventNumber recordTime w = (w, eventNumber, None)"
| "writeTrackLoop ttc wr e trackType (GapChild g # rest) eventNumber recordTime w =
     (case gapDuration g of
        Inl err \<Rightarrow> (w, eventNumber, Some err)
      | Inr duration \<Rightarrow>
          writeTrackLoop ttc wr e trackType rest eventNumber (Add recordTime duration) w)"
| "writeTrackLoop ttc wr e trackType (ClipChild clip # rest) eventNumber recordTime w =
     (case clipEvent ttc e trackType clip rest eventNumber recordTime of
        Inl err \<Rightarrow> (w, eventNumber, Some err)
      | Inr (event, recordOut) \<Rightarrow>
          (case writeEvent wr event w of
             (w1, Some err) \<Rightarrow> (w1, eventNumber, Some err)
           | (w1, None) \<Rightarrow>
               writeTrackLoop ttc wr e trackType (skipTransition rest) (eventNumber + 1)
                 recordOut w1))"
| "writeTrackLoop ttc wr e trackType (TransitionChild t # rest) eventNumber recordTime w =
     writeTrackLoop ttc wr e trackType rest eventNumber recordTime w"
| "writeTrackLoop ttc wr e trackType (OtherChild x # rest) eventNumber recordTime w =
     writeTrackLoop ttc wr e trackType rest eventNumber recordTime w"
  by pat_completeness auto
termination
  by (relation "measure (\<lambda>(ttc, wr, e, trackType, children, n, rt, w). length children)")
    (auto simp: skipTransition_def split: list.split Composable.split)

definition writeTrackEvents ::
  "toTimecode \<Rightarrow> 'w writer \<Rightarrow> Encoder \<Rightarrow> Track \<Rightarrow> TrackType \<Rightarrow> int \<Rightarrow> 'w
     \<Rightarrow> 'w \<times> int \<times> error option" where
  "writeTrackEvents ttc wr e track trackType startEventNum w =
     writeTrackLoop ttc wr e trackType (trackChildren track) startEventNum
       (NewRationalTime 0 (encRate e)) w"

text \<open>The loop of \<^verbatim>\<open>Encode\<close> over the audio tracks, \<open>i\<close> the index of the first one.\<close>

fun writeAudioTracks ::
  "toTimecode \<Rightarrow> 'w writer \<Rightarrow> Encoder \<Rightarrow> Track list \<Rightarrow> nat \<Rightarrow> int \<Rightarrow> 'w
     \<Rightarrow> 'w \<times> error option" where
  "writeAudioTracks ttc wr e [] i eventNumber w = (w, None)"
| "writeAudioTracks ttc wr e (track # rest) i eventNumber w =
     (let trackType =
            (if i = 0 then TrackTypeAudio1
             else if i = 1 then TrackTypeAudio2
             else if i = 2 then TrackTypeAudio3
             else if i = 3 then TrackTypeAudio4
             else TrackTypeAudio)
      in case writeTrackEvents ttc wr e track trackType eventNumber w of
           (w1, n1, Some err) \<Rightarrow> (w1, Some err)
         | (w1, n1, None) \<Rightarrow> writeAudioTracks ttc wr e rest (i + 1) n1 w1)"

text \<open>\<^verbatim>\<open>Encode\<close>; a nil timeline is \<open>None\<close>.\<close>

definition Encode ::
  "toTimecode \<Rightarrow> 'w writer \<Rightarrow> Encoder \<Rightarrow> Timeline option \<Rightarrow> 'w \<Rightarrow> 'w \<times> error option" where
  "Encode ttc wr e t w =
     (case t of
        None \<Rightarrow> (w, Some (EncodeError ''timeline is nil''))
      | Some timeline \<Rightarrow>
          andThen (writeHeader wr timeline w)
            (\<lambda>w1.
               let videoTracks = VideoTracks timeline in
               if length videoTracks > 1
               then (w1, Some (EncodeError ''EDL format supports only one video track''))
               else
                 let audioTracks = AudioTracks timeline;
                     (w2, eventNumber, err) =
                       (case videoTracks of
                          track # _ \<Rightarrow> writeTrackEvents ttc wr e track TrackTypeVideo 1 w1
                        | [] \<Rightarrow> (w1, 1, None))
                 in case err of
                      Some er \<Rightarrow> (w2, Some er)
                    | None \<Rightarrow> writeAudioTracks ttc wr e audioTracks 0 eventNumber w2))"

text \<open>The text that \<^verbatim>\<open>writeEvent\<close> hands to the writer for one event, write by write.\<close>

definition eventText :: "EDLEvent \<Rightarrow> string" where
  "eventText event = fst (writeEvent bufferWrite event [])"

text \<open>The writes of \<^verbatim>\<open>writeEvent\<close> for one event, one element for each call of \<^verbatim>\<open>fmt.Fprintf\<close>.\<close>

definition eventWrites :: "EDLEvent \<Rightarrow> string list" where
  "eventWrites event = fst (writeEvent logWrite event [])"

section \<open>A reference timecode conversion\<close>

text \<open>
  Modelled from the spec: the conversion between a timecode \<^verbatim>\<open>HH:MM:SS:FF\<close> and a
  rational time that the external package \<^verbatim>\<open>opentime\<close> provides (\<^verbatim>\<open>FromTimecode\<close>,
  \<^verbatim>\<open>ToTimecode\<close>), for a non-drop-frame timecode at a whole number of frames per second:
  the value is the frame count \<open>((HH * 60 + MM) * 60 + SS) * rate + FF\<close>. Outside that
  range (another separator, a fractional rate, a frame field beyond the rate, a negative
  or fractional frame count, a day or more) the reference conversion gives no result. It
  is used to run the codec on concrete texts; the general theorems hold for any
  conversion.
\<close>

definition isDigit :: "char \<Rightarrow> bool" where
  "isDigit c \<longleftrightarrow> c \<in> set ''0123456789''"

definition digitVal :: "char \<Rightarrow> int" where
  "digitVal c = of_char c - of_char CHR ''0''"

definition twoDigits :: "string \<Rightarrow> int option" where
  "twoDigits s =
     (case s of
        [a, b] \<Rightarrow> if isDigit a \<and> isDigit b then Some (digitVal a * 10 + digitVal b) else None
      | _ \<Rightarrow> None)"

definition FromTimecodeRef :: "string \<Rightarrow> rat \<Rightarrow> RationalTime option" where
  "FromTimecodeRef tc r =
     (if r \<le> 0 \<or> r \<noteq> of_int \<lfloor>r\<rfloor> \<or> length tc \<noteq> 11
         \<or> tc ! 2 \<noteq> CHR '':'' \<or> tc ! 5 \<noteq> CHR '':'' \<or> tc ! 8 \<noteq> CHR '':'' then None
      else
        (case (twoDigits (take 2 tc), twoDigits (take 2 (drop 3 tc)),
               twoDigits (take 2 (drop 6 tc)), twoDigits (take 2 (drop 9 tc))) of
           (Some h, Some m, Some s, Some f) \<Rightarrow>
             if of_int f < r
             then Some (NewRationalTime (of_int ((h * 60 + m) * 60 + s) * r + of_int f) r)
             else None
         | _ \<Rightarrow> None))"

definition twoDigitText :: "int \<Rightarrow> string" where
  "twoDigitText n = [digitChar (nat (n div 10)), digitChar (nat (n mod 10))]"

definition ToTimecodeRef :: "RationalTime \<Rightarrow> rat \<Rightarrow> string option" where
  "ToTimecodeRef t r =
     (let v = valueRescaledTo t r in
      if r \<le> 0 \<or> r \<noteq> of_int \<lfloor>r\<rfloor> \<or> v < 0 \<or> v \<noteq> of_int \<lfloor>v\<rfloor> \<or> 86400 * r \<le> v then None
      else
        (let fps = \<lfloor>r\<rfloor>; frames = \<lfloor>v\<rfloor>; secs = frames div fps in
         Some (twoDigitText (secs div 3600) @ '':'' @ twoDigitText ((secs div 60) mod 60) @ '':''
                 @ twoDigitText (secs mod 60) @ '':'' @ twoDigitText (frames mod fps))))"

section \<open>String functions of the Go library used by the decoder\<close>

text \<open>
  \<^verbatim>\<open>strings.TrimSpace\<close> removes the white space of Unicode (\<^verbatim>\<open>unicode.IsSpace\<close>) from both
  ends: first from the left, decoding runes forwards, then from the right, decoding runes
  backwards. A string begins (ends) with a white space rune exactly when it begins (ends)
  with the UTF-8 encoding of one, so the model strips encodings: the six ASCII characters
  tab, line feed, vertical tab, form feed, carriage return and space, and U+0085, U+00A0,
  U+1680, U+2000 to U+200A, U+2028, U+2029, U+202F, U+205F and U+3000.
\<close>

definition spaceSeqs :: "string list" where
  "spaceSeqs =
     [[CHR 0x09], [CHR 0x0A], [CHR 0x0B], [CHR 0x0C], [CHR 0x0D], [CHR 0x20],
      [CHR 0xC2, CHR 0x85], [CHR 0xC2, CHR 0xA0], [CHR 0xE1, CHR 0x9A, CHR 0x80],
      [CHR 0xE2, CHR 0x80, CHR 0x80], [CHR 0xE2, CHR 0x80, CHR 0x81],
      [CHR 0xE2, CHR 0x80, CHR 0x82], [CHR 0xE2, CHR 0x80, CHR 0x83],
      [CHR 0xE2, CHR 0x80, CHR 0x84], [CHR 0xE2, CHR 0x80, CHR 0x85],
      [CHR 0xE2, CHR 0x80, CHR 0x86], [CHR 0xE2, CHR 0x80, CHR 0x87],
      [CHR 0xE2, CHR 0x80, CHR 0x88], [CHR 0xE2, CHR 0x80, CHR 0x89],
      [CHR 0xE2, CHR 0x80, CHR 0x8A], [CHR 0xE2, CHR 0x80, CHR 0xA8],
      [CHR 0xE2, CHR 0x80, CHR 0xA9], [CHR 0xE2, CHR 0x80, CHR 0xAF],
      [CHR 0xE2, CHR 0x81, CHR 0x9F], [CHR 0xE3, CHR 0x80, CHR 0x80]]"

definition HasPrefix :: "string \<Rightarrow> string \<Rightarrow> bool" where
  "HasPrefix s p \<longleftrightarrow> take (length p) s = p"

definition HasSuffix :: "string \<Rightarrow> string \<Rightarrow> bool" where
  "HasSuffix s p \<longleftrightarrow> length p \<le> length s \<and> drop (length s - length p) s = p"

definition TrimPrefix :: "string \<Rightarrow> string \<Rightarrow> string" where
  "TrimPrefix s p = (if HasPrefix s p then drop (length p) s else s)"

text \<open>The first of the sequences \<open>ps\<close> that \<open>s\<close> begins with, removed from \<open>s\<close>.\<close>

fun stripOne :: "string list \<Rightarrow> string \<Rightarrow> string option" where
  "stripOne [] s = None"
| "stripOne (p # ps) s =
     (if p \<noteq> [] \<and> HasPrefix s p then Some (drop (length p) s) else stripOne ps s)"

function trimLeftBy :: "string list \<Rightarrow> string \<Rightarrow> string" where
  "trimLeftBy ps s = (case stripOne ps s of None \<Rightarrow> s | Some s' \<Rightarrow> trimLeftBy ps s')"
  by pat_completeness auto
termination
proof (relation "measure (\<lambda>(ps, s). length s)")
  show "wf (measure (\<lambda>(ps, s). length s))" by simp
next
  fix ps :: "string list" and s s' :: string
  assume "stripOne ps s = Some s'"
  then have "length s' < length s"
  proof (induction ps)
    case Nil
    then show ?case by simp
  next
    case (Cons p ps)
    show ?case
    proof (cases "p \<noteq> [] \<and> HasPrefix s p")
      case True
      then have "length p \<le> length s"
        by (metis HasPrefix_def length_take min.cobounded1)
      with True Cons.prems show ?thesis by (cases p) auto
    next
      case False
      with Cons show ?thesis by auto
    qed
  qed
  then show "((ps, s'), (ps, s)) \<in> measure (\<lambda>(ps, s). length s)" by simp
qed

definition TrimSpace :: "string \<Rightarrow> string" where
  "TrimSpace s = rev (trimLeftBy (map rev spaceSeqs) (rev (trimLeftBy spaceSeqs s)))"

text \<open>
  \<^verbatim>\<open>strings.ToUpper\<close> maps every rune to its upper case. The model has the part of
  \<^verbatim>\<open>unicode.ToUpper\<close> whose result is an ASCII letter: the letters a to z, the dotless i
  (U+0131) and the long s (U+017F). Every other rune is left as it is, where the library
  may map it to another rune outside ASCII; the decoder only compares the result with
  ASCII words, and for that comparison the model is exact.
\<close>

definition toUpperRune :: "rune \<Rightarrow> rune" where
  "toUpperRune r =
     (if of_char CHR ''a'' \<le> r \<and> r \<le> of_char CHR ''z'' then r - 32
      else if r = 0x131 then of_char CHR ''I''
      else if r = 0x17F then of_char CHR ''S''
      else r)"

definition ToUpper :: "string \<Rightarrow> string" where
  "ToUpper s = stringsMap toUpperRune s"

text \<open>The upper case of an ASCII character.\<close>

definition asciiUpper :: "char \<Rightarrow> char" where
  "asciiUpper c =
     (if 97 \<le> (of_char c :: int) \<and> (of_char c :: int) \<le> 122 then char_of (of_char c - 32 :: int) else c)"

text \<open>
  \<^verbatim>\<open>strconv.Atoi\<close> on a string of decimal digits, the error ignored as the decoder does: a
  value beyond the largest \<^verbatim>\<open>int\<close> (64 bits) comes back as that largest value.
\<close>

definition digitsValue :: "string \<Rightarrow> int" where
  "digitsValue s = foldl (\<lambda>a c. 10 * a + digitVal c) 0 s"

definition Atoi :: "string \<Rightarrow> int" where
  "Atoi s =
     (if s = [] \<or> \<not> list_all isDigit s then 0
      else if digitsValue s > 2 ^ 63 - 1 then 2 ^ 63 - 1
      else digitsValue s)"

text \<open>
  \<^verbatim>\<open>strconv.ParseFloat\<close> on the texts the decoder's patterns capture (a sign, digits and
  dots), the error ignored: a text that is not a decimal number (no digit, two dots) gives 0.
\<close>

definition ParseFloat :: "string \<Rightarrow> rat" where
  "ParseFloat s =
     (let neg = (s \<noteq> [] \<and> hd s = CHR ''-'');
          body = (if s \<noteq> [] \<and> (hd s = CHR ''-'' \<or> hd s = CHR ''+'') then tl s else s);
          ip = takeWhile isDigit body;
          rest = dropWhile isDigit body;
          fp = (if rest \<noteq> [] \<and> hd rest = CHR ''.'' then takeWhile isDigit (tl rest) else []);
          rest2 = (if rest \<noteq> [] \<and> hd rest = CHR ''.'' then dropWhile isDigit (tl rest) else rest);
          v = of_int (digitsValue ip) + of_int (digitsValue fp) / 10 ^ length fp
      in if rest2 \<noteq> [] \<or> (ip = [] \<and> fp = []) then 0 else if neg then - v else v)"

section \<open>The line scanner (bufio.Scanner with the default split function)\<close>

text \<open>
  The scanner yields the lines of the text: the pieces between line feeds, without a
  carriage return at their end; a last piece with no line feed after it is a line unless
  it is empty. A piece of 65536 bytes or more does not fit the buffer of the scanner: the
  scan stops there and \<^verbatim>\<open>scanner.Err()\<close> is \<^verbatim>\<open>ErrTooLong\<close>. The reader is a text in
  memory, which has no read errors.
\<close>

fun splitNL :: "string \<Rightarrow> string list" where
  "splitNL [] = [[]]"
| "splitNL (c # cs) =
     (if c = CHR 0x0A then [] # splitNL cs
      else (case splitNL cs of l # ls \<Rightarrow> (c # l) # ls | [] \<Rightarrow> [[c]]))"

definition rawLines :: "string \<Rightarrow> string list" where
  "rawLines text = (let ps = splitNL text in if last ps = [] then butlast ps else ps)"

definition dropCR :: "string \<Rightarrow> string" where
  "dropCR l = (if l \<noteq> [] \<and> last l = CHR 0x0D then butlast l else l)"

definition MaxScanTokenSize :: int where
  "MaxScanTokenSize = 65536"

definition fitsBuffer :: "string \<Rightarrow> bool" where
  "fitsBuffer l \<longleftrightarrow> int (length l) < MaxScanTokenSize"

text \<open>The lines the scanner yields, and whether it ended with \<^verbatim>\<open>ErrTooLong\<close>.\<close>

definition scanLines :: "string \<Rightarrow> string list \<times> bool" where
  "scanLines text =
     (map dropCR (takeWhile fitsBuffer (rawLines text)), \<not> list_all fitsBuffer (rawLines text))"

section \<open>The line patterns of the decoder (decoder.go)\<close>

text \<open>
  The regular expressions of the decoder, each written out as the function that
  \<^verbatim>\<open>FindStringSubmatch\<close> computes for it: the captured groups, or nothing when the line does
  not match. In every pattern but the marker's each repetition is followed by something
  that none of its characters can begin, so the leftmost-first match takes each run of
  characters whole. The class \<^verbatim>\<open>\s\<close> is tab, line feed, form feed, carriage return and
  space; \<^verbatim>\<open>\d\<close> is an ASCII digit; \<^verbatim>\<open>\w\<close> is an ASCII letter, digit or underscore. A byte
  outside ASCII belongs to none of them and to \<^verbatim>\<open>\S\<close>.
\<close>

definition isSpaceRe :: "char \<Rightarrow> bool" where
  "isSpaceRe c \<longleftrightarrow> c \<in> {CHR 0x09, CHR 0x0A, CHR 0x0C, CHR 0x0D, CHR 0x20}"

definition isWordRe :: "char \<Rightarrow> bool" where
  "isWordRe c \<longleftrightarrow>
     c \<in> set ''0123456789ABCDEFGHIJKLMNOPQRSTUVWXYZ_abcdefghijklmnopqrstuvwxyz''"

definition guard :: "bool \<Rightarrow> unit option" where
  "guard b = (if b then Some () else None)"

text \<open>\<^verbatim>\<open>\s+\<close> before something that is not white space: the rest after the white space.\<close>

definition ws1 :: "string \<Rightarrow> string option" where
  "ws1 s = (if s \<noteq> [] \<and> isSpaceRe (hd s) then Some (dropWhile isSpaceRe s) else None)"

text \<open>
  A timecode \<^verbatim>\<open>\d{2}:\d{2}:\d{2}[;:]\d{2}\<close> at the start of \<open>s\<close>, and the rest; with
  \<open>semi\<close> false the last separator must be a colon.
\<close>

definition tcAt :: "bool \<Rightarrow> string \<Rightarrow> (string \<times> string) option" where
  "tcAt semi s =
     (let t = take 11 s in
      if length t = 11 \<and> isDigit (t ! 0) \<and> isDigit (t ! 1) \<and> t ! 2 = CHR '':''
         \<and> isDigit (t ! 3) \<and> isDigit (t ! 4) \<and> t ! 5 = CHR '':''
         \<and> isDigit (t ! 6) \<and> isDigit (t ! 7)
         \<and> (t ! 8 = CHR '':'' \<or> (semi \<and> t ! 8 = CHR '';''))
         \<and> isDigit (t ! 9) \<and> isDigit (t ! 10)
      then Some (t, drop 11 s) else None)"

text \<open>The track alternatives \<^verbatim>\<open>V|A\d?|AA\<close>, before \<^verbatim>\<open>\s+\<close>.\<close>

definition isTrackToken :: "string \<Rightarrow> bool" where
  "isTrackToken t \<longleftrightarrow>
     t = ''V'' \<or> t = ''A'' \<or> t = ''AA'' \<or> (length t = 2 \<and> t ! 0 = CHR ''A'' \<and> isDigit (t ! 1))"

text \<open>The edit alternatives \<^verbatim>\<open>C|D|W\d{3}|KB|K\<close>, tried in this order.\<close>

fun editToken :: "string \<Rightarrow> (string \<times> string) option" where
  "editToken [] = None"
| "editToken (c # r) =
     (if c = CHR ''C'' then Some (''C'', r)
      else if c = CHR ''D'' then Some (''D'', r)
      else if c = CHR ''W''
      then (if 3 \<le> length r \<and> list_all isDigit (take 3 r)
            then Some (c # take 3 r, drop 3 r) else None)
      else if c = CHR ''K''
      then (if r \<noteq> [] \<and> hd r = CHR ''B'' then Some (''KB'', tl r) else Some (''K'', r))
      else None)"

text \<open>
  \<^verbatim>\<open>eventLineRegex\<close>: the groups are the event number, the reel, the track, the edit type
  and the transition duration (empty when absent).
\<close>

definition eventLineRegex :: "string \<Rightarrow> (string \<times> string \<times> string \<times> string \<times> string) option" where
  "eventLineRegex line =
     do {
       let s0 = dropWhile isSpaceRe line;
       let num = takeWhile isDigit s0;
       _ \<leftarrow> guard (num \<noteq> []);
       s1 \<leftarrow> ws1 (dropWhile isDigit s0);
       let reel = takeWhile (\<lambda>c. \<not> isSpaceRe c) s1;
       _ \<leftarrow> guard (reel \<noteq> []);
       s2 \<leftarrow> ws1 (dropWhile (\<lambda>c. \<not> isSpaceRe c) s1);
       let trk = takeWhile (\<lambda>c. \<not> isSpaceRe c) s2;
       _ \<leftarrow> guard (isTrackToken trk);
       s3 \<leftarrow> ws1 (dropWhile (\<lambda>c. \<not> isSpaceRe c) s2);
       (edit, s4) \<leftarrow> editToken s3;
       let dur = takeWhile isDigit (dropWhile isSpaceRe s4);
       Some (num, reel, trk, edit, dur)
     }"

definition timecodeLineRegex :: "string \<Rightarrow> (string \<times> string \<times> string \<times> string) option" where
  "timecodeLineRegex line =
     do {
       (t1, s1) \<leftarrow> tcAt True (dropWhile isSpaceRe line);
       s2 \<leftarrow> ws1 s1;
       (t2, s3) \<leftarrow> tcAt True s2;
       s4 \<leftarrow> ws1 s3;
       (t3, s5) \<leftarrow> tcAt True s4;
       s6 \<leftarrow> ws1 s5;
       (t4, s7) \<leftarrow> tcAt True s6;
       Some (t1, t2, t3, t4)
     }"

text \<open>The speed \<^verbatim>\<open>-?[0-9.]+\<close> before \<^verbatim>\<open>\s+\<close>.\<close>

definition isSpeedToken :: "string \<Rightarrow> bool" where
  "isSpeedToken t \<longleftrightarrow>
     (let b = (if t \<noteq> [] \<and> hd t = CHR ''-'' then tl t else t)
      in b \<noteq> [] \<and> list_all (\<lambda>c. isDigit c \<or> c = CHR ''.'') b)"

definition speedEffectRegex :: "string \<Rightarrow> (string \<times> string \<times> string) option" where
  "speedEffectRegex line =
     do {
       _ \<leftarrow> guard (HasPrefix line ''M2'');
       s1 \<leftarrow> ws1 (drop 2 line);
       let name = takeWhile (\<lambda>c. \<not> isSpaceRe c) s1;
       _ \<leftarrow> guard (name \<noteq> []);
       s2 \<leftarrow> ws1 (dropWhile (\<lambda>c. \<not> isSpaceRe c) s1);
       let speed = takeWhile (\<lambda>c. \<not> isSpaceRe c) s2;
       _ \<leftarrow> guard (isSpeedToken speed);
       s3 \<leftarrow> ws1 (dropWhile (\<lambda>c. \<not> isSpaceRe c) s2);
       (tc, s4) \<leftarrow> tcAt False s3;
       Some (name, speed, tc)
     }"

text \<open>\<^verbatim>\<open>.*\<close>: everything up to a line feed.\<close>

definition dotStar :: "string \<Rightarrow> string" where
  "dotStar s = takeWhile (\<lambda>c. c \<noteq> CHR 0x0A) s"

text \<open>
  \<^verbatim>\<open>markerRegex\<close>: the groups used are the timecode, the colour and the comment. After the
  timecode and its white space the colour \<^verbatim>\<open>\w*\<close> must be followed by white space or the
  end of the text; when it is not, the match gives one character of the white space back,
  takes an empty colour and leaves the rest to the comment, which needs two characters of
  white space after the timecode.
\<close>

definition markerRegex :: "string \<Rightarrow> (string \<times> string \<times> string) option" where
  "markerRegex s =
     do {
       _ \<leftarrow> guard (s \<noteq> [] \<and> hd s = CHR ''*'');
       let s1 = dropWhile isSpaceRe (tl s);
       _ \<leftarrow> guard (HasPrefix s1 ''LOC:'');
       s2 \<leftarrow> ws1 (drop 4 s1);
       (tc, s3) \<leftarrow> tcAt False s2;
       r \<leftarrow> ws1 s3;
       let word = takeWhile isWordRe r;
       let r2 = dropWhile isWordRe r;
       if r2 = [] \<or> isSpaceRe (hd r2) then Some (tc, word, dotStar (dropWhile isSpaceRe r2))
       else if 2 \<le> length (takeWhile isSpaceRe s3) then Some (tc, [], dotStar r)
       else None
     }"

text \<open>A number \<^verbatim>\<open>[-+]?[\d.]+\<close> at the start of \<open>s\<close>, and the rest.\<close>

definition numTok :: "string \<Rightarrow> (string \<times> string) option" where
  "numTok s =
     (let sg = (if s \<noteq> [] \<and> (hd s = CHR ''-'' \<or> hd s = CHR ''+'') then [hd s] else []);
          r = drop (length sg) s;
          body = takeWhile (\<lambda>c. isDigit c \<or> c = CHR ''.'') r
      in if body = [] then None
         else Some (sg @ body, dropWhile (\<lambda>c. isDigit c \<or> c = CHR ''.'') r))"

text \<open>The separator \<^verbatim>\<open>[,\s]+\<close> between two numbers.\<close>

definition sepTok :: "string \<Rightarrow> string option" where
  "sepTok s =
     (if s \<noteq> [] \<and> (hd s = CHR '','' \<or> isSpaceRe (hd s))
      then Some (dropWhile (\<lambda>c. c = CHR '','' \<or> isSpaceRe c) s) else None)"

text \<open>A parenthesised triple of numbers, and the rest.\<close>

definition tripleTok :: "string \<Rightarrow> ((string \<times> string \<times> string) \<times> string) option" where
  "tripleTok s =
     do {
       _ \<leftarrow> guard (s \<noteq> [] \<and> hd s = CHR ''('');
       (a, s1) \<leftarrow> numTok (dropWhile isSpaceRe (tl s));
       s2 \<leftarrow> sepTok s1;
       (b, s3) \<leftarrow> numTok s2;
       s4 \<leftarrow> sepTok s3;
       (c, s5) \<leftarrow> numTok s4;
       let s6 = dropWhile isSpaceRe s5;
       _ \<leftarrow> guard (s6 \<noteq> [] \<and> hd s6 = CHR '')'');
       Some ((a, b, c), tl s6)
     }"

text \<open>A pattern that is not anchored matches at the leftmost position where it can.\<close>

fun searchRe :: "(string \<Rightarrow> 'a option) \<Rightarrow> string \<Rightarrow> 'a option" where
  "searchRe f [] = f []"
| "searchRe f (c # cs) = (case f (c # cs) of Some r \<Rightarrow> Some r | None \<Rightarrow> searchRe f cs)"

definition sopAt ::
  "string \<Rightarrow> ((string \<times> string \<times> string) \<times> (string \<times> string \<times> string)
                \<times> (string \<times> string \<times> string)) option" where
  "sopAt s =
     do {
       _ \<leftarrow> guard (HasPrefix s ''ASC_SOP'');
       (slopeT, s1) \<leftarrow> tripleTok (dropWhile isSpaceRe (drop 7 s));
       (offsetT, s2) \<leftarrow> tripleTok (dropWhile isSpaceRe s1);
       (powerT, s3) \<leftarrow> tripleTok (dropWhile isSpaceRe s2);
       Some (slopeT, offsetT, powerT)
     }"

definition ascSOPRegex ::
  "string \<Rightarrow> ((string \<times> string \<times> string) \<times> (string \<times> string \<times> string)
                \<times> (string \<times> string \<times> string)) option" where
  "ascSOPRegex s = searchRe sopAt s"

definition satAt :: "string \<Rightarrow> string option" where
  "satAt s =
     do {
       _ \<leftarrow> guard (HasPrefix s ''ASC_SAT'');
       s1 \<leftarrow> ws1 (drop 7 s);
       (n, s2) \<leftarrow> numTok s1;
       Some n
     }"

definition ascSATRegex :: "string \<Rightarrow> string option" where
  "ascSATRegex s = searchRe satAt s"

section \<open>Decoder: the event accumulator (decoder.go, parseEvents)\<close>

record Decoder =
  decRate :: rat
  ignoreTimecodeMismatch :: bool
  fcmMode :: string

definition NewDecoder :: Decoder where
  "NewDecoder = \<lparr>decRate = 24, ignoreTimecodeMismatch = False, fcmMode = []\<rparr>"

text \<open>
  The variables of the loop of \<^verbatim>\<open>parseEvents\<close>: the events flushed so far, the event
  being accumulated (\<^verbatim>\<open>nil\<close> is \<open>None\<close>), the number of the last line read, and the frame
  count mode the loop stores in the decoder.
\<close>

record pstate =
  events :: "EDLEvent list"
  currentEvent :: "EDLEvent option"
  lineNum :: nat
  fcm :: string

text \<open>The event that a matched event line opens, from the groups of the match.\<close>

definition headerEvent :: "string \<times> string \<times> string \<times> string \<times> string \<Rightarrow> EDLEvent" where
  "headerEvent m =
     (case m of (num, reel, trk, editTypeStr, dur) \<Rightarrow>
        let eventNum = Atoi num;
            transitionDuration = (if dur \<noteq> [] then Atoi dur else 0);
            isWipe = (length editTypeStr = 4 \<and> editTypeStr ! 0 = CHR ''W'');
            editType = (if isWipe then EditTypeWipe else editTypeStr);
            wipeCode = (if isWipe then editTypeStr else [])
        in zeroEvent\<lparr>EventNumber := eventNum, ReelName := reel, TrackType := trk,
             EditType := editType, TransitionDuration := transitionDuration,
             WipeCode := wipeCode\<rparr>)"

text \<open>A line with the prefix \<^verbatim>\<open>M2\<close>, while an event is open.\<close>

definition speedLine :: "EDLEvent \<Rightarrow> string \<Rightarrow> EDLEvent" where
  "speedLine ev line =
     (case speedEffectRegex line of
        Some (name, speed, tc) \<Rightarrow>
          ev\<lparr>SpeedEffect := Some (MkSpeedEffect name (ParseFloat speed) tc)\<rparr>
      | None \<Rightarrow> ev)"

definition parseTriple :: "string \<times> string \<times> string \<Rightarrow> float3" where
  "parseTriple t = (case t of (a, b, c) \<Rightarrow> (ParseFloat a, ParseFloat b, ParseFloat c))"

text \<open>The zero value \<^verbatim>\<open>&ASCCDL{}\<close>.\<close>

definition zeroCDL :: ASCCDL where
  "zeroCDL = MkASCCDL (0, 0, 0) (0, 0, 0) (0, 0, 0) 0"

text \<open>
  The chain of tests on any other line while an event is open (the comment lines), in the
  order of the source.
\<close>

definition commentLine :: "EDLEvent \<Rightarrow> string \<Rightarrow> EDLEvent" where
  "commentLine ev line =
     (let trimmed = TrimSpace line in
      if HasPrefix trimmed ''*FROM CLIP NAME:''
      then ev\<lparr>ClipName := TrimSpace (TrimPrefix trimmed ''*FROM CLIP NAME:'')\<rparr>
      else if HasPrefix trimmed ''* FROM CLIP NAME:''
      then ev\<lparr>ClipName := TrimSpace (TrimPrefix trimmed ''* FROM CLIP NAME:'')\<rparr>
      else if HasPrefix trimmed ''*FROM CLIP:''
      then ev\<lparr>FilePath := TrimSpace (TrimPrefix trimmed ''*FROM CLIP:'')\<rparr>
      else if HasPrefix trimmed ''* FROM CLIP:''
      then ev\<lparr>FilePath := TrimSpace (TrimPrefix trimmed ''* FROM CLIP:'')\<rparr>
      else if HasPrefix trimmed ''*FROM FILE:''
      then ev\<lparr>FilePath := TrimSpace (TrimPrefix trimmed ''*FROM FILE:'')\<rparr>
      else if HasPrefix trimmed ''* FROM FILE:''
      then ev\<lparr>FilePath := TrimSpace (TrimPrefix trimmed ''* FROM FILE:'')\<rparr>
      else if HasPrefix trimmed ''* FREEZE FRAME'' \<or> HasSuffix trimmed '' FF''
      then ev\<lparr>FreezeFrame := True\<rparr>
      else
        (case markerRegex trimmed of
           Some (tc, color, comment) \<Rightarrow>
             ev\<lparr>Markers := Markers ev @ [MkMarker tc color (TrimSpace comment)]\<rparr>
         | None \<Rightarrow>
             (case ascSOPRegex trimmed of
                Some (slopeT, offsetT, powerT) \<Rightarrow>
                  (let cdl = (case ASCCDL ev of None \<Rightarrow> zeroCDL | Some c \<Rightarrow> c) in
                   ev\<lparr>ASCCDL := Some (MkASCCDL (parseTriple slopeT) (parseTriple offsetT)
                                        (parseTriple powerT) (Saturation cdl))\<rparr>)
              | None \<Rightarrow>
                  (case ascSATRegex trimmed of
                     Some n \<Rightarrow>
                       (let cdl = (case ASCCDL ev of None \<Rightarrow> zeroCDL | Some c \<Rightarrow> c) in
                        ev\<lparr>ASCCDL := Some (MkASCCDL (Slope cdl) (Offset cdl) (Power cdl)
                                             (ParseFloat n))\<rparr>)
                   | None \<Rightarrow>
                       if HasPrefix trimmed ''*''
                       then ev\<lparr>Comment := (if Comment ev \<noteq> [] then Comment ev @ NL
                                              else Comment ev) @ trimmed\<rparr>
                       else ev))))"

text \<open>The frame count mode of an \<^verbatim>\<open>FCM:\<close> line: what follows the first colon, trimmed.\<close>

definition fcmOf :: "string \<Rightarrow> string" where
  "fcmOf trimmed = TrimSpace (drop 1 (dropWhile (\<lambda>c. c \<noteq> CHR '':'') trimmed))"

definition flushed :: "pstate \<Rightarrow> EDLEvent list" where
  "flushed st = (case currentEvent st of None \<Rightarrow> events st | Some ev \<Rightarrow> events st @ [ev])"

text \<open>
  The loop of \<^verbatim>\<open>parseEvents\<close> over the lines the scanner yields. An event line takes the
  line after it with it, when there is one. The result is the state after the last line,
  or the error the loop returns with.
\<close>

function parseLoop :: "pstate \<Rightarrow> string list \<Rightarrow> error + pstate" where
  "parseLoop st [] = Inr st"
| "parseLoop st (line # rest) =
     (let st1 = st\<lparr>lineNum := lineNum st + 1\<rparr> in
      if TrimSpace line = [] then parseLoop st1 rest
      else if HasPrefix (TrimSpace line) ''TITLE:'' then parseLoop st1 rest
      else if HasPrefix (TrimSpace line) ''FCM:''
      then parseLoop (st1\<lparr>fcm := fcmOf (TrimSpace line)\<rparr>) rest
      else
        (case eventLineRegex line of
           Some matches \<Rightarrow>
             (let st2 = st1\<lparr>events := flushed st1, currentEvent := Some (headerEvent matches)\<rparr>
              in case rest of
                   [] \<Rightarrow> parseLoop st2 []
                 | tcLine # rest' \<Rightarrow>
                     (case timecodeLineRegex tcLine of
                        Some (t1, t2, t3, t4) \<Rightarrow>
                          parseLoop
                            (st2\<lparr>lineNum := lineNum st2 + 1,
                                 currentEvent :=
                                   Some ((headerEvent matches)\<lparr>SourceIn := t1, SourceOut := t2,
                                      RecordIn := t3, RecordOut := t4\<rparr>)\<rparr>)
                            rest'
                      | None \<Rightarrow>
                          Inl (ParseError (lineNum st2 + 1)
                                 ''expected timecode line after event'')))
         | None \<Rightarrow>
             if HasPrefix (TrimSpace line) ''M2''
             then parseLoop
                    (st1\<lparr>currentEvent := map_option (\<lambda>ev. speedLine ev line) (currentEvent st1)\<rparr>)
                    rest
             else parseLoop
                    (st1\<lparr>currentEvent := map_option (\<lambda>ev. commentLine ev line) (currentEvent st1)\<rparr>)
                    rest))"
  by pat_completeness auto
termination
  by (relation "measure (\<lambda>(st, ls). length ls)") auto

definition initState :: "Decoder \<Rightarrow> pstate" where
  "initState d = \<lparr>events = [], currentEvent = None, lineNum = 0, fcm = fcmMode d\<rparr>"

text \<open>
  \<^verbatim>\<open>parseEvents\<close>: the events, with the frame count mode left in the decoder. When the
  function returns an error the model does not return the mode; nothing reads it.
\<close>

definition parseEvents :: "Decoder \<Rightarrow> string \<Rightarrow> error + (EDLEvent list \<times> string)" where
  "parseEvents d text =
     (case scanLines text of (lines, tooLong) \<Rightarrow>
        (case parseLoop (initState d) lines of
           Inl err \<Rightarrow> Inl err
         | Inr st \<Rightarrow> if tooLong then Inl ErrTooLong else Inr (flushed st, fcm st)))"

section \<open>Decoder: the timeline builder (decoder.go, eventsToTimeline and createTrack)\<close>

text \<open>The parameter standing for \<^verbatim>\<open>opentime.FromTimecode(text, rate)\<close>; an error is \<open>None\<close>.\<close>

type_synonym fromTimecode = "string \<Rightarrow> rat \<Rightarrow> RationalTime option"

text \<open>The gap check of \<^verbatim>\<open>createTrack\<close>, on the track built so far.\<close>

definition appendGap :: "Track \<Rightarrow> RationalTime \<Rightarrow> RationalTime \<Rightarrow> Track" where
  "appendGap track lastRecordOut recordIn =
     (if IsValidTime lastRecordOut
      then (let gap = Sub recordIn lastRecordOut in
            if Value gap > 1 / 2 then AppendChild track (NewGapWithDuration gap) else track)
      else track)"

definition eventMediaRef :: "EDLEvent \<Rightarrow> TimeRange \<Rightarrow> MediaReference" where
  "eventMediaRef event sourceRange =
     (let reelUpper = ToUpper (ReelName event) in
      if reelUpper = ''BLACK'' \<or> reelUpper = ''BL''
      then GeneratorReference ''black'' ''black'' (Some sourceRange)
      else if reelUpper = ''BARS''
      then GeneratorReference ''SMPTEBars'' ''SMPTEBars'' (Some sourceRange)
      else (let targetURL = (if FilePath event \<noteq> [] then FilePath event else ReelName event)
            in ExternalReference targetURL targetURL (Some sourceRange)))"

definition eventClipName :: "EDLEvent \<Rightarrow> string" where
  "eventClipName event =
     (let clipName = (if ClipName event = [] then ReelName event else ClipName event) in
      if FreezeFrame event \<and> HasSuffix clipName '' FF''
      then take (length clipName - 3) clipName else clipName)"

definition eventMetadata :: "EDLEvent \<Rightarrow> metadata" where
  "eventMetadata event =
     (case ASCCDL event of None \<Rightarrow> [] | Some cdl \<Rightarrow> [(''cdl'', MetaCDL cdl)])
     @ (if WipeCode event \<noteq> [] then [(''wipe_code'', MetaString (WipeCode event))] else [])"

definition eventEffects :: "Decoder \<Rightarrow> EDLEvent \<Rightarrow> Effect list" where
  "eventEffects d event =
     (case SpeedEffect event of
        None \<Rightarrow> []
      | Some se \<Rightarrow> [LinearTimeWarp [] ''LinearTimeWarp'' (Speed se / decRate d)])
     @ (if FreezeFrame event then [FreezeFrameEffect []] else [])"

fun eventMarkers :: "fromTimecode \<Rightarrow> Decoder \<Rightarrow> Marker list \<Rightarrow> OtioMarker list" where
  "eventMarkers ftc d [] = []"
| "eventMarkers ftc d (marker # rest) =
     (case ftc (Timecode marker) (decRate d) of
        None \<Rightarrow> eventMarkers ftc d rest
      | Some markerTC \<Rightarrow>
          NewMarker (MarkerComment marker)
            (NewTimeRange markerTC (NewRationalTime 0 (decRate d)))
            (Color marker) (MarkerComment marker)
            (if Color marker \<noteq> [] then [(''color'', MetaString (Color marker))] else [])
          # eventMarkers ftc d rest)"

text \<open>The clip of an event, from the source range to the call of \<^verbatim>\<open>NewClip\<close>.\<close>

definition eventClip ::
  "fromTimecode \<Rightarrow> Decoder \<Rightarrow> EDLEvent \<Rightarrow> RationalTime \<Rightarrow> RationalTime \<Rightarrow> Clip" where
  "eventClip ftc d event sourceIn sourceOut =
     (let sourceDuration = DurationFromStartEndTime sourceIn sourceOut;
          sourceRange = NewTimeRange sourceIn sourceDuration
      in NewClip (eventClipName event) (Some (eventMediaRef event sourceRange))
           (Some sourceRange) (eventMetadata event) (eventEffects d event)
           (eventMarkers ftc d (Markers event)))"

text \<open>The transition of an event, appended before its clip.\<close>

definition appendTransition :: "Decoder \<Rightarrow> Track \<Rightarrow> EDLEvent \<Rightarrow> Track" where
  "appendTransition d track event =
     (if (EditType event = EditTypeDissolve \<or> EditType event = EditTypeWipe)
         \<and> TransitionDuration event > 0
      then (let transitionDuration =
                  NewRationalTime (of_int (TransitionDuration event)) (decRate d);
                transitionType = (if EditType event = EditTypeWipe then TransitionTypeCustom
                                  else TransitionTypeSMPTEDissolve);
                transitionName =
                  (if EditType event = EditTypeWipe
                   then (if WipeCode event \<noteq> [] then WipeCode event else ''SMPTE_Wipe'')
                   else [])
            in AppendChild track
                 (TransitionChild
                    (NewTransition transitionName transitionType
                       (NewRationalTime 0 (decRate d)) transitionDuration)))
      else track)"

text \<open>
  The loop of \<^verbatim>\<open>createTrack\<close> over the events of one track, with the track built so far
  and the record-out time of the last event. Appending a new child to the track does not
  fail.
\<close>

fun createTrackLoop ::
  "fromTimecode \<Rightarrow> Decoder \<Rightarrow> Track \<Rightarrow> RationalTime \<Rightarrow> EDLEvent list \<Rightarrow> error + Track" where
  "createTrackLoop ftc d track lastRecordOut [] = Inr track"
| "createTrackLoop ftc d track lastRecordOut (event # rest) =
     (case ftc (SourceIn event) (decRate d) of
        None \<Rightarrow> Inl (TimecodeError ''source in'' (SourceIn event))
      | Some sourceIn \<Rightarrow>
     (case ftc (SourceOut event) (decRate d) of
        None \<Rightarrow> Inl (TimecodeError ''source out'' (SourceOut event))
      | Some sourceOut \<Rightarrow>
     (case ftc (RecordIn event) (decRate d) of
        None \<Rightarrow> Inl (TimecodeError ''record in'' (RecordIn event))
      | Some recordIn \<Rightarrow>
     (case ftc (RecordOut event) (decRate d) of
        None \<Rightarrow> Inl (TimecodeError ''record out'' (RecordOut event))
      | Some recordOut \<Rightarrow>
          (let track1 = appendGap track lastRecordOut recordIn;
               clip = eventClip ftc d event sourceIn sourceOut;
               track2 = appendTransition d track1 event;
               track3 = AppendChild track2 (ClipChild clip)
           in createTrackLoop ftc d track3 recordOut rest)))))"

definition createTrack ::
  "fromTimecode \<Rightarrow> Decoder \<Rightarrow> TrackType \<Rightarrow> EDLEvent list \<Rightarrow> error + Track" where
  "createTrack ftc d trackType evs =
     (let kind = (if IsAudioTrack trackType then TrackKindAudio else TrackKindVideo);
          track = NewTrack trackType kind
      in createTrackLoop ftc d track zeroTime evs)"

text \<open>The map \<^verbatim>\<open>trackMap\<close> of \<^verbatim>\<open>eventsToTimeline\<close>: the events of each track type, in order.\<close>

definition trackMap :: "EDLEvent list \<Rightarrow> (TrackType \<rightharpoonup> EDLEvent list)" where
  "trackMap evs =
     foldl (\<lambda>m event.
              m(TrackType event \<mapsto>
                  (case m (TrackType event) of None \<Rightarrow> [] | Some es \<Rightarrow> es) @ [event]))
       Map.empty evs"

text \<open>
  The loop \<^verbatim>\<open>for trackType, trackEvents := range trackMap\<close>. The language leaves the order
  in which a map is ranged over unspecified, and it may differ from one run to the next:
  the order of a run is the parameter \<open>order\<close>, a list that holds every key of the map once.
\<close>

definition rangeOrder :: "TrackType list \<Rightarrow> EDLEvent list \<Rightarrow> bool" where
  "rangeOrder order evs \<longleftrightarrow>
     distinct order
     \<and> list_all (\<lambda>k. k \<in> set (map TrackType evs)) order
     \<and> list_all (\<lambda>event. TrackType event \<in> set order) evs"

fun tracksLoop ::
  "fromTimecode \<Rightarrow> Decoder \<Rightarrow> (TrackType \<rightharpoonup> EDLEvent list) \<Rightarrow> Timeline \<Rightarrow> TrackType list
     \<Rightarrow> error + Timeline" where
  "tracksLoop ftc d m timeline [] = Inr timeline"
| "tracksLoop ftc d m timeline (trackType # keys) =
     (case createTrack ftc d trackType (case m trackType of None \<Rightarrow> [] | Some es \<Rightarrow> es) of
        Inl err \<Rightarrow> Inl err
      | Inr track \<Rightarrow>
          tracksLoop ftc d m
            (timeline\<lparr>timelineTracks := timelineTracks timeline @ [track]\<rparr>) keys)"

definition eventsToTimeline ::
  "fromTimecode \<Rightarrow> Decoder \<Rightarrow> TrackType list \<Rightarrow> EDLEvent list \<Rightarrow> error + Timeline" where
  "eventsToTimeline ftc d order evs = tracksLoop ftc d (trackMap evs) (NewTimeline []) order"

text \<open>\<^verbatim>\<open>Decode\<close>, for the text behind the reader of the decoder.\<close>

definition Decode ::
  "fromTimecode \<Rightarrow> Decoder \<Rightarrow> TrackType list \<Rightarrow> string \<Rightarrow> error + Timeline" where
  "Decode ftc d order text =
     (case parseEvents d text of
        Inl err \<Rightarrow> Inl err
      | Inr (evs, mode) \<Rightarrow> eventsToTimeline ftc (d\<lparr>fcmMode := mode\<rparr>) order evs)"

section \<open>Concrete inputs\<close>

text \<open>The timeline of the test \<^verbatim>\<open>TestEncoder_MultipleVideoTracks\<close>: two empty video tracks.\<close>

definition twoVideoTracks :: Timeline where
  "twoVideoTracks =
     \<lparr>timelineName = ''Multi Video'',
      timelineTracks = [NewTrack ''V1'' TrackKindVideo, NewTrack ''V2'' TrackKindVideo]\<rparr>"

text \<open>A clip of five seconds at 24 frames per second, as the tests of the encoder build it.\<close>

definition demoClip :: "string \<Rightarrow> Clip" where
  "demoClip n =
     NewClip n (Some (ExternalReference n n None))
       (Some (NewTimeRange (NewRationalTime 0 24) (NewRationalTime 120 24))) [] [] []"

definition demoTimeline :: Timeline where
  "demoTimeline =
     \<lparr>timelineName = ''Demo'',
      timelineTracks =
        [\<lparr>trackName = ''V'', trackKind = TrackKindVideo,
          trackChildren = [ClipChild (demoClip ''Shot1'')]\<rparr>,
         \<lparr>trackName = ''A1'', trackKind = TrackKindAudio,
          trackChildren = [ClipChild (demoClip ''Sound1'')]\<rparr>]\<rparr>"

text \<open>The writes of the encoder for \<open>demoTimeline\<close>, call by call.\<close>

definition demoWrites :: "string list" where
  "demoWrites =
     [''TITLE: Demo'' @ NL, ''FCM: NON-DROP FRAME'' @ NL @ NL,
      ''001  Shot1    V    C '' @ NL,
      ''     00:00:00:00 00:00:05:00 00:00:00:00 00:00:05:00'' @ NL,
      ''* FROM CLIP NAME: Shot1'' @ NL, NL,
      ''002  Sound1   A1    C '' @ NL,
      ''     00:00:00:00 00:00:05:00 00:00:00:00 00:00:05:00'' @ NL,
      ''* FROM CLIP NAME: Sound1'' @ NL, NL]"

text \<open>The text of the test \<^verbatim>\<open>TestDecoder_AudioTrack\<close>: one event on each of two audio tracks.\<close>

definition audioEDL :: string where
  "audioEDL = ''TITLE: Audio Test'' @ NL @ ''FCM: NON-DROP FRAME'' @ NL @ NL
     @ ''001  AUDIO1   A1    C'' @ NL
     @ ''     00:00:00:00 00:00:05:00 00:00:00:00 00:00:05:00'' @ NL
     @ ''* FROM CLIP NAME: AudioClip1'' @ NL @ NL
     @ ''002  AUDIO2   A2    C'' @ NL
     @ ''     00:00:00:00 00:00:05:00 00:00:00:00 00:00:05:00'' @ NL
     @ ''* FROM CLIP NAME: AudioClip2'' @ NL"

text \<open>
  The two events of the test \<^verbatim>\<open>TestDecoder_WithGaps\<close>, five seconds apart on the record
  side, as \<^verbatim>\<open>parseEvents\<close> returns them.
\<close>

definition gapPrev:: EDLEvent where
  "gapPrev = zeroEvent\<lparr>EventNumber := 1, ReelName := ''AX'', TrackType := ''V'', EditType := ''C'',
     SourceIn := ''00:00:00:00'', SourceOut := ''00:00:05:00'',
     RecordIn := ''00:00:00:00'', RecordOut := ''00:00:05:00'', ClipName := ''Shot1''\<rparr>"

definition gapCur :: EDLEvent where
  "gapCur = zeroEvent\<lparr>EventNumber := 2, ReelName := ''AX'', TrackType := ''V'', EditType := ''C'',
     SourceIn := ''00:00:10:00'', SourceOut := ''00:00:15:00'',
     RecordIn := ''00:00:10:00'', RecordOut := ''00:00:15:00'', ClipName := ''Shot2''\<rparr>"

text \<open>
  The second event of the test \<^verbatim>\<open>TestDecoder_WipeTransitions\<close>, from its event line, its
  timecode line and its clip name comment.
\<close>

definition wipeEvent:: EDLEvent where
  "wipeEvent = (headerEvent (''002'', ''CLIP2'', ''V'', ''W001'', ''030''))\<lparr>
     SourceIn := ''01:00:06:00'', SourceOut := ''01:00:07:00'',
     RecordIn := ''00:00:01:07'', RecordOut := ''00:00:02:07'', ClipName := ''Clip2''\<rparr>"


section \<open>Observations for the round trip\<close>

text \<open>
  A text that is exactly one timecode of the pattern of the timecode line
  (\<^verbatim>\<open>\d{2}:\d{2}:\d{2}[:;]\d{2}\<close>), with nothing after it.
\<close>

definition isTimecodeText :: "string \<Rightarrow> bool" where
  "isTimecodeText t \<longleftrightarrow> tcAt True t = Some (t, [])"

text \<open>The characters that \<^verbatim>\<open>SanitizeReelName\<close> lets through or produces.\<close>

definition reelChars :: "char set" where
  "reelChars = set ''ABCDEFGHIJKLMNOPQRSTUVWXYZabcdefghijklmnopqrstuvwxyz0123456789_''"

text \<open>The clips of a timeline: track by track, the children that are clips, in order.\<close>

definition clipsOf :: "Timeline \<Rightarrow> Clip list" where
  "clipsOf t =
     concat (map (\<lambda>tr. concat (map (\<lambda>c. case c of ClipChild cl \<Rightarrow> [cl] | _ \<Rightarrow> [])
                                  (trackChildren tr)))
               (timelineTracks t))"

text \<open>
  A single-clip text in the layout of the decoder tests, the event \<^verbatim>\<open>parseEvents\<close> reads from
  it, and the text the encoder writes for the timeline decoded from it.
\<close>

definition singleEDL :: string where
  "singleEDL = ''TITLE: Test EDL'' @ NL @ ''FCM: NON-DROP FRAME'' @ NL @ NL
     @ ''001  AX       V     C'' @ NL
     @ ''     01:00:00:00 01:00:05:00 00:00:00:00 00:00:05:00'' @ NL
     @ ''* FROM CLIP NAME: Shot1'' @ NL"

definition singleEvent :: EDLEvent where
  "singleEvent = zeroEvent\<lparr>EventNumber := 1, ReelName := ''AX'', TrackType := ''V'',
     EditType := ''C'', SourceIn := ''01:00:00:00'', SourceOut := ''01:00:05:00'',
     RecordIn := ''00:00:00:00'', RecordOut := ''00:00:05:00'', ClipName := ''Shot1''\<rparr>"

definition singleEncoded :: string where
  "singleEncoded = ''TITLE: Timeline'' @ NL @ ''FCM: NON-DROP FRAME'' @ NL @ NL
     @ ''001  AX       V    C '' @ NL
     @ ''     01:00:00:00 01:00:05:00 00:00:00:00 00:00:05:00'' @ NL
     @ ''* FROM CLIP NAME: Shot1'' @ NL @ NL"

text \<open>
  The text of the test \<^verbatim>\<open>TestDecoder_FreezeFrame\<close> with two spaces before the \<^verbatim>\<open>FF\<close> of the
  clip name, and the text the encoder writes for the timeline decoded from it.
\<close>

definition ffEDL :: string where
  "ffEDL = ''TITLE: Freeze Frame Test'' @ NL @ ''FCM: NON-DROP FRAME'' @ NL @ NL
     @ ''001  CLIP1    V     C'' @ NL
     @ ''     01:00:04:05 01:00:05:12 00:00:00:00 00:00:01:07'' @ NL
     @ ''* FROM CLIP NAME: FrozenClip  FF'' @ NL
     @ ''* FREEZE FRAME'' @ NL"

definition ffEncoded :: string where
  "ffEncoded = ''TITLE: Timeline'' @ NL @ ''FCM: NON-DROP FRAME'' @ NL @ NL
     @ ''001  CLIP1    V    C '' @ NL
     @ ''     01:00:04:05 01:00:05:12 00:00:00:00 00:00:01:07'' @ NL
     @ ''* FROM CLIP NAME: FrozenClip '' @ NL @ NL"

text \<open>The timelines the first decode of the two texts returns.\<close>

abbreviation singleFirst :: Timeline where
  "singleFirst \<equiv> projr (Decode FromTimecodeRef NewDecoder [''V''] singleEDL)"

abbreviation ffFirst :: Timeline where
  "ffFirst \<equiv> projr (Decode FromTimecodeRef NewDecoder [''V''] ffEDL)"


section \<open>Properties of the string functions and the sanitizer\<close>

declare runes.simps [simp del]

lemma runes_Nil [simp]: "runes [] = []"
  by (simp add: runes.simps)

lemma runes_Cons:
  "runes (c # cs) =
     fst (DecodeRuneInString (c # cs)) # runes (drop (snd (DecodeRuneInString (c # cs))) (c # cs))"
  by (subst runes.simps) simp

lemma runes_eq_Nil [simp]: "runes s = [] \<longleftrightarrow> s = []"
  by (cases s) (simp_all add: runes_Cons)

lemma isReelChar_iff:
  "isReelChar r \<longleftrightarrow> (65 \<le> r \<and> r \<le> 90) \<or> (97 \<le> r \<and> r \<le> 122) \<or> (48 \<le> r \<and> r \<le> 57) \<or> r = 95"
  unfolding isReelChar_def by (simp add: image_iff) arith

lemma reelRune_eq: "reelRune r = (if isReelChar r then r else 95)"
  by (simp add: reelRune_def isReelChar_iff)

lemma EncodeRune_reelRune:
  "EncodeRune (reelRune r) = [if isReelChar r then char_of r else CHR ''_'']"
proof -
  have "char_of (95::int) = CHR ''_''" by code_simp
  moreover have "isReelChar r \<Longrightarrow> 0 \<le> r \<and> r \<le> 0x7F" by (auto simp: isReelChar_iff)
  ultimately show ?thesis
    by (auto simp: reelRune_eq EncodeRune_def)
qed

lemma reelRune_nonneg: "\<not> reelRune r < 0"
  by (auto simp: reelRune_eq isReelChar_iff)

lemma stringsMap_reelRune: "stringsMap reelRune name = sanitizedChars name"
  by (simp add: stringsMap_def sanitizedChars_def EncodeRune_reelRune reelRune_nonneg)

lemma sanitizedChars_eq_Nil [simp]: "sanitizedChars name = [] \<longleftrightarrow> name = []"
  by (simp add: sanitizedChars_def)

text \<open>
  Claim C5. \<^verbatim>\<open>SanitizeReelName\<close> replaces every character (rune) of the name that is not
  an ASCII letter, digit or underscore by an underscore and keeps the others; the mapped
  string is cut to its first \<open>maxLength\<close> characters when \<open>maxLength\<close> is positive and the
  mapped string is longer, and is not cut when \<open>maxLength\<close> is zero or negative; the empty
  name yields \<^verbatim>\<open>AX\<close>.
\<close>

theorem SanitizeReelName_spec:
  "SanitizeReelName name maxLength =
     (if name = [] then ''AX''
      else if 0 < maxLength \<and> maxLength < int (length (sanitizedChars name))
      then take (nat maxLength) (sanitizedChars name)
      else sanitizedChars name)"
  by (auto simp: SanitizeReelName_def Let_def stringsMap_reelRune)

section \<open>The encoder: structural errors and the number format\<close>

lemma andThen_simps [simp]:
  "andThen (w, None) f = f w"
  "andThen (w, Some err) f = (w, Some err)"
  by (simp_all add: andThen_def)

lemma writeEvent_buffer: "writeEvent bufferWrite ev w = (w @ eventText ev, None)"
  by (simp add: writeEvent_def eventText_def bufferWrite_def)

lemma writeHeader_buffer:
  "writeHeader bufferWrite t w =
     (w @ ''TITLE: '' @ (if timelineName t = [] then ''Timeline'' else timelineName t) @ NL
        @ ''FCM: NON-DROP FRAME'' @ NL @ NL, None)"
  by (simp add: writeHeader_def bufferWrite_def)

text \<open>
  Claim C2, as amended. For every timeline with more than one video track, \<^verbatim>\<open>Encode\<close> writes
  the header first (the \<^verbatim>\<open>TITLE:\<close> line, then the \<^verbatim>\<open>FCM:\<close> line and a blank line); when
  both writes succeed it returns the \<^verbatim>\<open>EncodeError\<close> "EDL format supports only one video
  track" and the writer is in the state the second header write left it in: no event has
  been written. Into a buffer, the text written is exactly the header.
\<close>

theorem Encode_many_video_tracks:
  assumes "1 < length (VideoTracks t)"
  shows "(wr w (''TITLE: '' @ (if timelineName t = [] then ''Timeline'' else timelineName t) @ NL)
            = (w1, None) \<longrightarrow>
          wr w1 (''FCM: NON-DROP FRAME'' @ NL @ NL) = (w2, None) \<longrightarrow>
          Encode ttc wr e (Some t) w
            = (w2, Some (EncodeError ''EDL format supports only one video track'')))
       \<and> Encode ttc bufferWrite e (Some t) out
           = (out @ ''TITLE: '' @ (if timelineName t = [] then ''Timeline'' else timelineName t)
                @ NL @ ''FCM: NON-DROP FRAME'' @ NL @ NL,
              Some (EncodeError ''EDL format supports only one video track''))"
  using assms by (simp add: Encode_def writeHeader_def bufferWrite_def)

lemma clipEvent_fields:
  "clipEvent ttc e tt clip rest n rt = Inr (ev, ro) \<Longrightarrow> EventNumber ev = n \<and> TrackType ev = tt"
  by (auto simp: clipEvent_def Let_def split: sum.splits option.splits prod.splits)

lemma decimal_length_le3: "n < 1000 \<Longrightarrow> length (decimal n) \<le> 3"
  by (subst decimal.simps, subst decimal.simps, subst decimal.simps) auto

lemma decimal_length_ge: "10 ^ k \<le> n \<Longrightarrow> k < length (decimal n)"
proof (induction k arbitrary: n)
  case 0
  then show ?case by (subst decimal.simps) auto
next
  case (Suc k)
  then have "10 ^ k \<le> n div 10" by simp
  from Suc.IH[OF this] Suc.prems show ?case by (subst decimal.simps) auto
qed

lemma decimal_nonempty: "0 < length (decimal n)"
  by (subst decimal.simps) auto

lemma fmt03d_pos:
  "0 \<le> n \<Longrightarrow> fmt03d n = replicate (3 - length (decimal (nat n))) CHR ''0'' @ decimal (nat n)"
  by (simp add: fmt03d_def zeroPad_def)

lemma fmt03d_width:
  assumes "0 \<le> n"
  shows "3 \<le> length (fmt03d n)"
    and "n < 1000 \<Longrightarrow> length (fmt03d n) = 3"
    and "1000 \<le> n \<Longrightarrow> fmt03d n = decimal (nat n)"
proof -
  show "3 \<le> length (fmt03d n)" using assms by (simp add: fmt03d_pos)
  show "length (fmt03d n) = 3" if "n < 1000"
    using assms that decimal_length_le3[of "nat n"] by (simp add: fmt03d_pos)
  show "fmt03d n = decimal (nat n)" if "1000 \<le> n"
  proof -
    have "10 ^ 3 \<le> nat n" using that by simp
    from decimal_length_ge[OF this] show ?thesis using assms by (simp add: fmt03d_pos)
  qed
qed

text \<open>
  Claim C2 as the specification states it fails: for the two video tracks of
  \<^verbatim>\<open>TestEncoder_MultipleVideoTracks\<close> the encoder returns the error, and the buffer
  holds the header.
\<close>

theorem Encode_two_video_tracks_counterexample:
  "1 < length (VideoTracks twoVideoTracks)
   \<and> snd (Encode ToTimecodeRef bufferWrite NewEncoder (Some twoVideoTracks) [])
       = Some (EncodeError ''EDL format supports only one video track'')
   \<and> fst (Encode ToTimecodeRef bufferWrite NewEncoder (Some twoVideoTracks) [])
       = ''TITLE: Multi Video'' @ NL @ ''FCM: NON-DROP FRAME'' @ NL @ NL
   \<and> fst (Encode ToTimecodeRef bufferWrite NewEncoder (Some twoVideoTracks) []) \<noteq> []"
  by (simp add: Encode_def twoVideoTracks_def writeHeader_def bufferWrite_def VideoTracks_def
      NewTrack_def)

theorem Encode_many_video_tracks_witness:
  "1 < length (VideoTracks twoVideoTracks)
   \<and> Encode ToTimecodeRef bufferWrite NewEncoder (Some twoVideoTracks) []
       = (''TITLE: Multi Video'' @ NL @ ''FCM: NON-DROP FRAME'' @ NL @ NL,
          Some (EncodeError ''EDL format supports only one video track''))"
proof -
  have h: "1 < length (VideoTracks twoVideoTracks)"
    by (simp add: twoVideoTracks_def VideoTracks_def NewTrack_def)
  have n: "timelineName twoVideoTracks = ''Multi Video''"
    by (simp add: twoVideoTracks_def)
  from Encode_many_video_tracks[OF h, of bufferWrite "[]" "[]" "[]" ToTimecodeRef NewEncoder "[]"]
  show ?thesis using h by (simp add: n)
qed

section \<open>The decoder: the event accumulator\<close>

declare parseLoop.simps(2) [simp del]

lemma HasSuffix_nonempty: "HasSuffix s p \<Longrightarrow> p \<noteq> [] \<Longrightarrow> s \<noteq> []"
  by (auto simp: HasSuffix_def)

text \<open>
  Claim C10, as amended. While an event is open, a line that reaches the chain of comment
  tests (it is not blank, has none of the prefixes \<^verbatim>\<open>TITLE:\<close>, \<^verbatim>\<open>FCM:\<close> and \<^verbatim>\<open>M2\<close>
  after trimming, and is not an event line), whose trimmed text begins with none of the
  six clip-name and file-path prefixes and ends with \<^verbatim>\<open> FF\<close>, sets the freeze-frame flag
  of the event, whether or not it begins with an asterisk: the loop goes on with the event
  changed in that flag only, so the line adds no marker, no colour decision and no comment.
\<close>

theorem freeze_frame_suffix:
  assumes "currentEvent st = Some ev"
    and "HasSuffix (TrimSpace line) '' FF''"
    and "\<not> HasPrefix (TrimSpace line) ''TITLE:''"
    and "\<not> HasPrefix (TrimSpace line) ''FCM:''"
    and "eventLineRegex line = None"
    and "\<not> HasPrefix (TrimSpace line) ''M2''"
    and "\<not> HasPrefix (TrimSpace line) ''*FROM CLIP NAME:''"
    and "\<not> HasPrefix (TrimSpace line) ''* FROM CLIP NAME:''"
    and "\<not> HasPrefix (TrimSpace line) ''*FROM CLIP:''"
    and "\<not> HasPrefix (TrimSpace line) ''* FROM CLIP:''"
    and "\<not> HasPrefix (TrimSpace line) ''*FROM FILE:''"
    and "\<not> HasPrefix (TrimSpace line) ''* FROM FILE:''"
  shows "parseLoop st (line # rest)
           = parseLoop (st\<lparr>lineNum := lineNum st + 1,
                           currentEvent := Some (ev\<lparr>FreezeFrame := True\<rparr>)\<rparr>) rest
         \<and> Markers (ev\<lparr>FreezeFrame := True\<rparr>) = Markers ev
         \<and> ASCCDL (ev\<lparr>FreezeFrame := True\<rparr>) = ASCCDL ev
         \<and> Comment (ev\<lparr>FreezeFrame := True\<rparr>) = Comment ev"
proof -
  have ne: "TrimSpace line \<noteq> []"
    using assms(2) by (rule HasSuffix_nonempty) simp
  have cl: "commentLine ev line = ev\<lparr>FreezeFrame := True\<rparr>"
    using assms(2,7-12) by (simp add: commentLine_def Let_def)
  show ?thesis
    using assms(1,3-6) ne cl by (simp add: parseLoop.simps(2) Let_def)
qed

text \<open>
  Claim C10 as stated fails: the clip-name test comes before the freeze-frame test, so a
  clip-name comment that ends with \<^verbatim>\<open> FF\<close> names the clip and leaves the flag unset.
\<close>

theorem from_clip_name_ff_counterexample:
  "HasSuffix (TrimSpace ''* FROM CLIP NAME: FrozenClip FF'') '' FF''
   \<and> parseEvents NewDecoder
        (''001  AX       V     C'' @ NL
         @ ''     00:00:00:00 00:00:05:00 00:00:00:00 00:00:05:00'' @ NL
         @ ''* FROM CLIP NAME: FrozenClip FF'' @ NL)
       = Inr ([zeroEvent\<lparr>EventNumber := 1, ReelName := ''AX'', TrackType := ''V'',
                  EditType := ''C'', SourceIn := ''00:00:00:00'', SourceOut := ''00:00:05:00'',
                  RecordIn := ''00:00:00:00'', RecordOut := ''00:00:05:00'',
                  ClipName := ''FrozenClip FF'', FreezeFrame := False\<rparr>], [])"
  by code_simp

lemma createTrackLoop_not_ParseError:
  "createTrackLoop ftc d track lro evs \<noteq> Inl (ParseError n msg)"
  by (induction evs arbitrary: track lro) (auto simp: Let_def split: option.splits)

lemma tracksLoop_not_ParseError:
  "tracksLoop ftc d m timeline keys \<noteq> Inl (ParseError n msg)"
  by (induction keys arbitrary: timeline)
     (auto simp: createTrack_def Let_def createTrackLoop_not_ParseError split: sum.splits)

text \<open>
  Claim C3 at an event line that is the last line of the text: \<^verbatim>\<open>parseEvents\<close> returns
  no error but the event, with empty timecodes; \<^verbatim>\<open>Decode\<close> then fails in
  \<^verbatim>\<open>createTrack\<close> on the empty source-in timecode (with the reference conversion), and
  whatever the timecode conversion and the order of the tracks, what it returns is not a
  \<^verbatim>\<open>ParseError\<close>: no line number is reported.
\<close>

theorem header_last_line:
  "parseEvents NewDecoder ''001  AX       V     C''
     = Inr ([zeroEvent\<lparr>EventNumber := 1, ReelName := ''AX'', TrackType := ''V'',
               EditType := ''C''\<rparr>], [])
   \<and> Decode FromTimecodeRef NewDecoder [''V''] ''001  AX       V     C''
     = Inl (TimecodeError ''source in'' [])
   \<and> (\<forall>ftc order n msg.
         Decode ftc NewDecoder order ''001  AX       V     C'' \<noteq> Inl (ParseError n msg))"
proof -
  have p: "parseEvents NewDecoder ''001  AX       V     C''
     = Inr ([zeroEvent\<lparr>EventNumber := 1, ReelName := ''AX'', TrackType := ''V'',
               EditType := ''C''\<rparr>], [])"
    by code_simp
  have q: "Decode FromTimecodeRef NewDecoder [''V''] ''001  AX       V     C''
     = Inl (TimecodeError ''source in'' [])"
    by code_simp
  have r: "Decode ftc NewDecoder order ''001  AX       V     C'' \<noteq> Inl (ParseError n msg)"
    for ftc order n msg
    unfolding Decode_def p by (simp add: eventsToTimeline_def tracksLoop_not_ParseError)
  show ?thesis using p q r by blast
qed

text \<open>
  The part of claim C3 that holds: when a line after the event line exists and is not a
  timecode line, the loop returns a \<^verbatim>\<open>ParseError\<close> with the number of that line; an event
  line with no line after it ends the loop with the event open.
\<close>

lemma parseLoop_event_line:
  assumes "TrimSpace line \<noteq> []" 
    and "\<not> HasPrefix (TrimSpace line) ''TITLE:''"
    and "\<not> HasPrefix (TrimSpace line) ''FCM:''"
    and "eventLineRegex line = Some m"
  shows "timecodeLineRegex tcLine = None \<Longrightarrow>
           parseLoop st (line # tcLine # rest)
             = Inl (ParseError (lineNum st + 2) ''expected timecode line after event'')"
    and "parseLoop st [line]
           = Inr (st\<lparr>lineNum := lineNum st + 1, events := flushed st,
                     currentEvent := Some (headerEvent m)\<rparr>)"
  using assms by (simp_all add: parseLoop.simps(2) Let_def flushed_def split: option.split)

theorem freeze_frame_suffix_witness:
  "HasSuffix (TrimSpace ''HOLD LAST FRAME FF'') '' FF''
   \<and> hd ''HOLD LAST FRAME FF'' \<noteq> CHR ''*''
   \<and> eventLineRegex ''HOLD LAST FRAME FF'' = None
   \<and> parseLoop \<lparr>events = [], currentEvent = Some zeroEvent, lineNum = 2, fcm = []\<rparr> [''HOLD LAST FRAME FF'']
       = Inr \<lparr>events = [], currentEvent = Some (zeroEvent\<lparr>FreezeFrame := True\<rparr>), lineNum = 3, fcm = []\<rparr>"
proof -
  have h1: "currentEvent \<lparr>events = [], currentEvent = Some zeroEvent, lineNum = 2, fcm = []\<rparr> = Some zeroEvent" by simp
  have h2: "HasSuffix (TrimSpace ''HOLD LAST FRAME FF'') '' FF''" by code_simp
  have h3: "\<not> HasPrefix (TrimSpace ''HOLD LAST FRAME FF'') ''TITLE:''" by code_simp
  have h4: "\<not> HasPrefix (TrimSpace ''HOLD LAST FRAME FF'') ''FCM:''" by code_simp
  have h5: "eventLineRegex ''HOLD LAST FRAME FF'' = None" by code_simp
  have h6: "\<not> HasPrefix (TrimSpace ''HOLD LAST FRAME FF'') ''M2''" by code_simp
  have h7: "\<not> HasPrefix (TrimSpace ''HOLD LAST FRAME FF'') ''*FROM CLIP NAME:''" by code_simp
  have h8: "\<not> HasPrefix (TrimSpace ''HOLD LAST FRAME FF'') ''* FROM CLIP NAME:''" by code_simp
  have h9: "\<not> HasPrefix (TrimSpace ''HOLD LAST FRAME FF'') ''*FROM CLIP:''" by code_simp
  have h10: "\<not> HasPrefix (TrimSpace ''HOLD LAST FRAME FF'') ''* FROM CLIP:''" by code_simp
  have h11: "\<not> HasPrefix (TrimSpace ''HOLD LAST FRAME FF'') ''*FROM FILE:''" by code_simp
  have h12: "\<not> HasPrefix (TrimSpace ''HOLD LAST FRAME FF'') ''* FROM FILE:''" by code_simp
  have s: "hd ''HOLD LAST FRAME FF'' \<noteq> CHR ''*''" by simp
  from freeze_frame_suffix[OF h1 h2 h3 h4 h5 h6 h7 h8 h9 h10 h11 h12, of "[]"]
  have "parseLoop \<lparr>events = [], currentEvent = Some zeroEvent, lineNum = 2, fcm = []\<rparr> [''HOLD LAST FRAME FF'']
       = Inr \<lparr>events = [], currentEvent = Some (zeroEvent\<lparr>FreezeFrame := True\<rparr>), lineNum = 3, fcm = []\<rparr>"
    by simp
  then show ?thesis using h2 h5 s by simp
qed

section \<open>The decoder: the timeline builder\<close>

lemma DecodeRune_ascii:
  "(of_char c :: int) < 128 \<Longrightarrow> DecodeRuneInString (c # cs) = (of_char c, 1)"
  by (simp add: DecodeRuneInString_def)

lemma runes_ascii: "list_all (\<lambda>c. (of_char c :: int) < 128) s \<Longrightarrow> runes s = map of_char s"
  by (induction s) (simp_all add: runes_Cons DecodeRune_ascii)

lemma toUpperRune_ascii:
  assumes "(of_char c :: int) < 128"
  shows "(if toUpperRune (of_char c) < 0 then [] else EncodeRune (toUpperRune (of_char c)))
           = [asciiUpper c]"
proof -
  have eq: "(of_char c :: int) = int (of_char c)" by (rule of_nat_of_char[symmetric])
  have nn: "0 \<le> (of_char c :: int)" by (subst eq) (rule of_nat_0_le_iff)
  show ?thesis
    using assms nn by (auto simp: toUpperRune_def EncodeRune_def asciiUpper_def)
qed

lemma ToUpper_ascii:
  "list_all (\<lambda>c. (of_char c :: int) < 128) s \<Longrightarrow> ToUpper s = map asciiUpper s"
  by (induction s) (simp_all add: ToUpper_def stringsMap_def runes_ascii toUpperRune_ascii)

lemma createTrackLoop_step:
  assumes "ftc (SourceIn ev) (decRate d) = Some sIn"
    and "ftc (SourceOut ev) (decRate d) = Some sOut"
    and "ftc (RecordIn ev) (decRate d) = Some rIn"
    and "ftc (RecordOut ev) (decRate d) = Some rOut"
  shows "createTrackLoop ftc d track lro (ev # rest)
           = createTrackLoop ftc d
               (AppendChild (appendTransition d (appendGap track lro rIn) ev)
                  (ClipChild (eventClip ftc d ev sIn sOut)))
               rOut rest"
  using assms by (simp add: Let_def)

lemma appendGap_children:
  "appendGap track lro rIn
     = track\<lparr>trackChildren := trackChildren track
          @ (if IsValidTime lro \<and> Value (Sub rIn lro) > 1 / 2
             then [NewGapWithDuration (Sub rIn lro)] else [])\<rparr>"
  by (simp add: appendGap_def Let_def AppendChild_def)

lemma appendTransition_children:
  "\<exists>tr. appendTransition d track ev = track\<lparr>trackChildren := trackChildren track @ tr\<rparr>
        \<and> length tr \<le> 1 \<and> (\<forall>c\<in>set tr. \<exists>t. c = TransitionChild t)"
  by (cases "(EditType ev = EditTypeDissolve \<or> EditType ev = EditTypeWipe)
         \<and> TransitionDuration ev > 0")
     (auto simp: appendTransition_def Let_def AppendChild_def intro: exI[of _ "[]"])

text \<open>
  Claim C4. Two consecutive events of a track, anywhere in the loop of \<^verbatim>\<open>createTrack\<close> (the
  track built so far and the last record-out are arbitrary), whose timecodes convert:
  after the first event the last record-out is its record-out. When that is a valid time,
  the children appended for the second event are, in this order, a gap when the value of
  record-in minus record-out is more than one half, then at most one transition, then
  the clip: so exactly one gap in the first case and none in the other. The gap is
  \<^verbatim>\<open>NewGapWithDuration\<close> of that difference, so its duration is the difference, which at
  equal rates is the difference of the two values at that rate.
\<close>

theorem gap_between_events:
  assumes "ftc (SourceIn prev) (decRate d) = Some sIn1"
    and "ftc (SourceOut prev) (decRate d) = Some sOut1"
    and "ftc (RecordIn prev) (decRate d) = Some rIn1"
    and "ftc (RecordOut prev) (decRate d) = Some rOut1"
    and "ftc (SourceIn cur) (decRate d) = Some sIn2"
    and "ftc (SourceOut cur) (decRate d) = Some sOut2"
    and "ftc (RecordIn cur) (decRate d) = Some rIn2"
    and "ftc (RecordOut cur) (decRate d) = Some rOut2"
    and "IsValidTime rOut1"
  shows "\<exists>track1 tr.
           createTrackLoop ftc d track lro (prev # cur # rest)
             = createTrackLoop ftc d track1 rOut1 (cur # rest)
         \<and> createTrackLoop ftc d track1 rOut1 (cur # rest)
             = createTrackLoop ftc d
                 (track1\<lparr>trackChildren := trackChildren track1
                     @ (if Value (Sub rIn2 rOut1) > 1 / 2
                        then [NewGapWithDuration (Sub rIn2 rOut1)] else [])
                     @ tr @ [ClipChild (eventClip ftc d cur sIn2 sOut2)]\<rparr>)
                 rOut2 rest
         \<and> length tr \<le> 1 \<and> (\<forall>c\<in>set tr. \<exists>t. c = TransitionChild t)
         \<and> gapDuration (Some (NewTimeRange (NewRationalTime 0 (Rate (Sub rIn2 rOut1)))
                                  (Sub rIn2 rOut1))) = Inr (Sub rIn2 rOut1)
         \<and> NewGapWithDuration (Sub rIn2 rOut1)
             = GapChild (Some (NewTimeRange (NewRationalTime 0 (Rate (Sub rIn2 rOut1)))
                                  (Sub rIn2 rOut1)))
         \<and> (Rate rIn2 = Rate rOut1 \<longrightarrow>
              Sub rIn2 rOut1 = NewRationalTime (Value rIn2 - Value rOut1) (Rate rOut1))"
proof -
  define track1 where
    "track1 = AppendChild (appendTransition d (appendGap track lro rIn1) prev)
                (ClipChild (eventClip ftc d prev sIn1 sOut1))"
  have s1: "createTrackLoop ftc d track lro (prev # cur # rest)
              = createTrackLoop ftc d track1 rOut1 (cur # rest)"
    unfolding track1_def using assms(1-4) by (rule createTrackLoop_step[where ftc=ftc])
  obtain tr where tr:
    "appendTransition d (appendGap track1 rOut1 rIn2) cur
       = (appendGap track1 rOut1 rIn2)\<lparr>trackChildren :=
            trackChildren (appendGap track1 rOut1 rIn2) @ tr\<rparr>"
    "length tr \<le> 1" "\<forall>c\<in>set tr. \<exists>t. c = TransitionChild t"
    using appendTransition_children by blast
  have s2: "createTrackLoop ftc d track1 rOut1 (cur # rest)
             = createTrackLoop ftc d
                 (track1\<lparr>trackChildren := trackChildren track1
                     @ (if Value (Sub rIn2 rOut1) > 1 / 2
                        then [NewGapWithDuration (Sub rIn2 rOut1)] else [])
                     @ tr @ [ClipChild (eventClip ftc d cur sIn2 sOut2)]\<rparr>)
                 rOut2 rest"
    unfolding createTrackLoop_step[where ftc=ftc and ev=cur and d=d, OF assms(5-8)] tr(1)
    using assms(9) by (simp add: appendGap_children AppendChild_def)
  have s3: "Rate rIn2 = Rate rOut1 \<longrightarrow>
              Sub rIn2 rOut1 = NewRationalTime (Value rIn2 - Value rOut1) (Rate rOut1)"
    by (simp add: Sub_def valueRescaledTo_def)
  show ?thesis
    using s1 s2 s3 tr(2,3)
    by (intro exI[of _ track1] exI[of _ tr]) (simp add: gapDuration_def NewGapWithDuration_def)
qed


text \<open>
  Claim C7. For an event with the edit type wipe, the wipe code \<^verbatim>\<open>W001\<close> (an edit token
  \<^verbatim>\<open>W001\<close> on the event line gives both, \<open>headerEvent_wipe\<close>) and the transition duration 30,
  whose timecodes convert, the loop appends after the gap check exactly two children: a
  transition named \<^verbatim>\<open>W001\<close> of the custom type, with in-offset 0 and out-offset 30 at the
  rate of the decoder, and directly after it the clip of the event.
\<close>

theorem wipe_transition:
  assumes "EditType ev = EditTypeWipe" and "WipeCode ev = ''W001''"
    and "TransitionDuration ev = 30"
    and "ftc (SourceIn ev) (decRate d) = Some sIn"
    and "ftc (SourceOut ev) (decRate d) = Some sOut"
    and "ftc (RecordIn ev) (decRate d) = Some rIn"
    and "ftc (RecordOut ev) (decRate d) = Some rOut"
  shows "createTrackLoop ftc d track lro (ev # rest)
           = createTrackLoop ftc d
               ((appendGap track lro rIn)\<lparr>trackChildren :=
                   trackChildren (appendGap track lro rIn)
                   @ [TransitionChild
                        (NewTransition ''W001'' TransitionTypeCustom
                           (NewRationalTime 0 (decRate d)) (NewRationalTime 30 (decRate d))),
                      ClipChild (eventClip ftc d ev sIn sOut)]\<rparr>)
               rOut rest"
  unfolding createTrackLoop_step[where ftc=ftc and ev=ev and d=d, OF assms(4-7)]
  using assms(1-3) by (simp add: appendTransition_def AppendChild_def Let_def EditTypeWipe_def)

lemma headerEvent_wipe:
  "list_all isDigit [a, b, c] \<Longrightarrow>
   EditType (headerEvent (num, reel, trk, [CHR ''W'', a, b, c], dur)) = EditTypeWipe
   \<and> WipeCode (headerEvent (num, reel, trk, [CHR ''W'', a, b, c], dur)) = [CHR ''W'', a, b, c]
   \<and> TransitionDuration (headerEvent (num, reel, trk, [CHR ''W'', a, b, c], dur))
       = (if dur \<noteq> [] then Atoi dur else 0)"
  by (simp add: headerEvent_def Let_def)

theorem gap_between_events_witness:
  "IsValidTime (NewRationalTime 120 24)
   \<and> Value (Sub (NewRationalTime 240 24) (NewRationalTime 120 24)) > 1 / 2
   \<and> createTrackLoop FromTimecodeRef NewDecoder (NewTrack ''V'' TrackKindVideo) zeroTime [gapPrev, gapCur]
       = Inr \<lparr>trackName = ''V'', trackKind = TrackKindVideo,
               trackChildren =
                 [ClipChild (eventClip FromTimecodeRef NewDecoder gapPrev (NewRationalTime 0 24) (NewRationalTime 120 24)),
                  GapChild (Some (NewTimeRange (NewRationalTime 0 24) (NewRationalTime 120 24))),
                  ClipChild (eventClip FromTimecodeRef NewDecoder gapCur (NewRationalTime 240 24) (NewRationalTime 360 24))]\<rparr>
   \<and> (\<exists>track1 tr.
           createTrackLoop FromTimecodeRef NewDecoder (NewTrack ''V'' TrackKindVideo) zeroTime (gapPrev # gapCur # [])
             = createTrackLoop FromTimecodeRef NewDecoder track1 (NewRationalTime 120 24) (gapCur # [])
         \<and> createTrackLoop FromTimecodeRef NewDecoder track1 (NewRationalTime 120 24) (gapCur # [])
             = createTrackLoop FromTimecodeRef NewDecoder
                 (track1\<lparr>trackChildren := trackChildren track1
                     @ (if Value (Sub (NewRationalTime 240 24) (NewRationalTime 120 24)) > 1 / 2
                        then [NewGapWithDuration (Sub (NewRationalTime 240 24) (NewRationalTime 120 24))] else [])
                     @ tr @ [ClipChild (eventClip FromTimecodeRef NewDecoder gapCur (NewRationalTime 240 24) (NewRationalTime 360 24))]\<rparr>)
                 (NewRationalTime 360 24) []
         \<and> length tr \<le> 1 \<and> (\<forall>c\<in>set tr. \<exists>t. c = TransitionChild t)
         \<and> gapDuration (Some (NewTimeRange (NewRationalTime 0 (Rate (Sub (NewRationalTime 240 24) (NewRationalTime 120 24))))
                                  (Sub (NewRationalTime 240 24) (NewRationalTime 120 24)))) = Inr (Sub (NewRationalTime 240 24) (NewRationalTime 120 24))
         \<and> NewGapWithDuration (Sub (NewRationalTime 240 24) (NewRationalTime 120 24))
             = GapChild (Some (NewTimeRange (NewRationalTime 0 (Rate (Sub (NewRationalTime 240 24) (NewRationalTime 120 24))))
                                  (Sub (NewRationalTime 240 24) (NewRationalTime 120 24))))
         \<and> (Rate (NewRationalTime 240 24) = Rate (NewRationalTime 120 24) \<longrightarrow>
              Sub (NewRationalTime 240 24) (NewRationalTime 120 24) = NewRationalTime (Value (NewRationalTime 240 24) - Value (NewRationalTime 120 24)) (Rate (NewRationalTime 120 24))))"
proof -
  have h1: "FromTimecodeRef (SourceIn gapPrev) (decRate NewDecoder) = Some (NewRationalTime 0 24)" by code_simp
  have h2: "FromTimecodeRef (SourceOut gapPrev) (decRate NewDecoder) = Some (NewRationalTime 120 24)" by code_simp
  have h3: "FromTimecodeRef (RecordIn gapPrev) (decRate NewDecoder) = Some (NewRationalTime 0 24)" by code_simp
  have h4: "FromTimecodeRef (RecordOut gapPrev) (decRate NewDecoder) = Some (NewRationalTime 120 24)" by code_simp
  have h5: "FromTimecodeRef (SourceIn gapCur) (decRate NewDecoder) = Some (NewRationalTime 240 24)" by code_simp
  have h6: "FromTimecodeRef (SourceOut gapCur) (decRate NewDecoder) = Some (NewRationalTime 360 24)" by code_simp
  have h7: "FromTimecodeRef (RecordIn gapCur) (decRate NewDecoder) = Some (NewRationalTime 240 24)" by code_simp
  have h8: "FromTimecodeRef (RecordOut gapCur) (decRate NewDecoder) = Some (NewRationalTime 360 24)" by code_simp
  have v: "IsValidTime (NewRationalTime 120 24)" by (simp add: IsValidTime_def)
  have g: "Value (Sub (NewRationalTime 240 24) (NewRationalTime 120 24)) > 1 / 2"
    by (simp add: Sub_def valueRescaledTo_def)
  have e: "createTrackLoop FromTimecodeRef NewDecoder (NewTrack ''V'' TrackKindVideo) zeroTime [gapPrev, gapCur]
       = Inr \<lparr>trackName = ''V'', trackKind = TrackKindVideo,
               trackChildren =
                 [ClipChild (eventClip FromTimecodeRef NewDecoder gapPrev (NewRationalTime 0 24) (NewRationalTime 120 24)),
                  GapChild (Some (NewTimeRange (NewRationalTime 0 24) (NewRationalTime 120 24))),
                  ClipChild (eventClip FromTimecodeRef NewDecoder gapCur (NewRationalTime 240 24) (NewRationalTime 360 24))]\<rparr>"
    by code_simp
  note w = gap_between_events[where ftc=FromTimecodeRef and d=NewDecoder and prev=gapPrev and cur=gapCur
      and track="NewTrack ''V'' TrackKindVideo" and lro=zeroTime and rest="[]", OF h1 h2 h3 h4 h5 h6 h7 h8 v]
  show ?thesis by (intro conjI v g e w)
qed


theorem wipe_transition_witness:
  "EditType wipeEvent = EditTypeWipe \<and> WipeCode wipeEvent = ''W001''
   \<and> TransitionDuration wipeEvent = 30
   \<and> createTrackLoop FromTimecodeRef NewDecoder (NewTrack ''V'' TrackKindVideo) zeroTime [wipeEvent]
       = Inr \<lparr>trackName = ''V'', trackKind = TrackKindVideo,
               trackChildren =
                 [TransitionChild
                    (NewTransition ''W001'' TransitionTypeCustom (NewRationalTime 0 24)
                       (NewRationalTime 30 24)),
                  ClipChild (eventClip FromTimecodeRef NewDecoder wipeEvent
                               (NewRationalTime 86544 24) (NewRationalTime 86568 24))]\<rparr>"
proof -
  have k1: "EditType wipeEvent = EditTypeWipe" by code_simp
  have k2: "WipeCode wipeEvent = ''W001''" by code_simp
  have k3: "TransitionDuration wipeEvent = 30" by code_simp
  have h1: "FromTimecodeRef (SourceIn wipeEvent) (decRate NewDecoder) = Some (NewRationalTime 86544 24)" by code_simp
  have h2: "FromTimecodeRef (SourceOut wipeEvent) (decRate NewDecoder) = Some (NewRationalTime 86568 24)" by code_simp
  have h3: "FromTimecodeRef (RecordIn wipeEvent) (decRate NewDecoder) = Some (NewRationalTime 31 24)" by code_simp
  have h4: "FromTimecodeRef (RecordOut wipeEvent) (decRate NewDecoder) = Some (NewRationalTime 55 24)" by code_simp
  have r: "decRate NewDecoder = 24" by (simp add: NewDecoder_def)
  from wipe_transition[where ftc=FromTimecodeRef and d=NewDecoder and ev=wipeEvent
      and track="NewTrack ''V'' TrackKindVideo" and lro=zeroTime and rest="[]", OF k1 k2 k3 h1 h2 h3 h4]
  have e: "createTrackLoop FromTimecodeRef NewDecoder (NewTrack ''V'' TrackKindVideo) zeroTime [wipeEvent]
       = Inr \<lparr>trackName = ''V'', trackKind = TrackKindVideo,
               trackChildren =
                 [TransitionChild
                    (NewTransition ''W001'' TransitionTypeCustom (NewRationalTime 0 24)
                       (NewRationalTime 30 24)),
                  ClipChild (eventClip FromTimecodeRef NewDecoder wipeEvent
                               (NewRationalTime 86544 24) (NewRationalTime 86568 24))]\<rparr>"
    by (simp add: r appendGap_def IsValidTime_def zeroTime_def NewTrack_def)
  show ?thesis by (intro conjI k1 k2 k3 e)
qed

section \<open>The decoder: the order of the tracks\<close>

lemma rangeOrder_iff:
  "rangeOrder order evs \<longleftrightarrow> distinct order \<and> set order = TrackType ` set evs"
  by (auto simp: rangeOrder_def list_all_iff)

lemma tracksLoop_ok:
  "\<forall>k\<in>set keys. \<exists>t. createTrack ftc d k (case m k of None \<Rightarrow> [] | Some es \<Rightarrow> es) = Inr t \<Longrightarrow>
   tracksLoop ftc d m tln keys
     = Inr (tln\<lparr>timelineTracks := timelineTracks tln
              @ map (\<lambda>k. projr (createTrack ftc d k (case m k of None \<Rightarrow> [] | Some es \<Rightarrow> es))) keys\<rparr>)"
  by (induction keys arbitrary: tln) auto

lemma tracksLoop_Inr:
  "tracksLoop ftc d m tln keys = Inr t \<Longrightarrow>
   \<forall>k\<in>set keys. \<exists>tr. createTrack ftc d k (case m k of None \<Rightarrow> [] | Some es \<Rightarrow> es) = Inr tr"
  by (induction keys arbitrary: tln) (auto split: sum.splits)

lemma tracksLoop_perm:
  assumes "distinct o1" "distinct o2" "set o1 = set o2"
    and "tracksLoop ftc d m tln o1 = Inr t1"
  shows "\<exists>t2. tracksLoop ftc d m tln o2 = Inr t2 \<and> timelineName t2 = timelineName t1
           \<and> mset (timelineTracks t2) = mset (timelineTracks t1)"
proof -
  let ?f = "\<lambda>k. projr (createTrack ftc d k (case m k of None \<Rightarrow> [] | Some es \<Rightarrow> es))"
  have ok1: "\<forall>k\<in>set o1. \<exists>tr. createTrack ftc d k (case m k of None \<Rightarrow> [] | Some es \<Rightarrow> es) = Inr tr"
    using assms(4) by (rule tracksLoop_Inr)
  then have ok2: "\<forall>k\<in>set o2. \<exists>tr. createTrack ftc d k (case m k of None \<Rightarrow> [] | Some es \<Rightarrow> es) = Inr tr"
    using assms(3) by simp
  have r1: "t1 = tln\<lparr>timelineTracks := timelineTracks tln @ map ?f o1\<rparr>"
    using tracksLoop_ok[OF ok1, of tln] assms(4) by simp
  have r2: "tracksLoop ftc d m tln o2 = Inr (tln\<lparr>timelineTracks := timelineTracks tln @ map ?f o2\<rparr>)"
    using tracksLoop_ok[OF ok2] .
  have "mset o1 = mset o2"
    using assms(1-3) by (simp add: set_eq_iff_mset_eq_distinct)
  then have ms: "mset (map ?f o2) = mset (map ?f o1)"
    by simp
  show ?thesis
  proof (intro exI conjI)
    show "tracksLoop ftc d m tln o2 = Inr (tln\<lparr>timelineTracks := timelineTracks tln @ map ?f o2\<rparr>)"
      by (rule r2)
    show "timelineName (tln\<lparr>timelineTracks := timelineTracks tln @ map ?f o2\<rparr>) = timelineName t1"
      unfolding r1 by simp
    show "mset (timelineTracks (tln\<lparr>timelineTracks := timelineTracks tln @ map ?f o2\<rparr>))
            = mset (timelineTracks t1)"
      unfolding r1 using ms by simp
  qed
qed

lemma distinct_short_eq:
  "distinct o1 \<Longrightarrow> distinct o2 \<Longrightarrow> set o1 = set o2 \<Longrightarrow> length o1 \<le> 1 \<Longrightarrow> o2 = o1"
proof -
  assume a: "distinct o1" "distinct o2" "set o1 = set o2" "length o1 \<le> 1"
  then have "length o2 = length o1" by (metis distinct_card)
  with a show ?thesis
    by (cases o1; cases o2) (auto simp: length_Suc_conv)
qed

text \<open>
  Claim C8, as amended. Two runs of \<^verbatim>\<open>Decode\<close> on the same text with the same decoder and
  timecode conversion differ at most in the order in which they range over the map of
  track groups. Either both fail, or both return a timeline, and then the two timelines
  have the same name and the same tracks, each the same number of times, in an order that
  may differ. When the events carry at most one track identifier the two results are the
  same.
\<close>

theorem Decode_track_order:
  assumes "\<forall>evs mode. parseEvents d text = Inr (evs, mode) \<longrightarrow> rangeOrder o1 evs \<and> rangeOrder o2 evs"
  shows "(case Decode ftc d o1 text of
            Inl e \<Rightarrow> isl (Decode ftc d o2 text)
          | Inr t1 \<Rightarrow>
              (case Decode ftc d o2 text of
                 Inl e \<Rightarrow> False
               | Inr t2 \<Rightarrow> timelineName t2 = timelineName t1
                           \<and> mset (timelineTracks t2) = mset (timelineTracks t1)))
         \<and> (length o1 \<le> 1 \<and> \<not> isl (parseEvents d text) \<longrightarrow> Decode ftc d o2 text = Decode ftc d o1 text)"
proof (cases "parseEvents d text")
  case (Inl e)
  then show ?thesis by (simp add: Decode_def)
next
  case (Inr r)
  obtain evs mode where r: "r = (evs, mode)" by (cases r)
  with Inr assms have ro: "distinct o1" "distinct o2" "set o1 = set o2"
    by (auto simp: rangeOrder_iff)
  let ?d = "d\<lparr>fcmMode := mode\<rparr>"
  have D: "Decode ftc d ord text = tracksLoop ftc ?d (trackMap evs) (NewTimeline []) ord" for ord
    using Inr r by (simp add: Decode_def eventsToTimeline_def)
  have short: "length o1 \<le> 1 \<longrightarrow> Decode ftc d o2 text = Decode ftc d o1 text"
    using distinct_short_eq[OF ro] by auto
  show ?thesis
  proof (cases "Decode ftc d o1 text")
    case (Inl e)
    have "isl (Decode ftc d o2 text)"
    proof (rule ccontr)
      assume "\<not> isl (Decode ftc d o2 text)"
      then obtain t2 where "tracksLoop ftc ?d (trackMap evs) (NewTimeline []) o2 = Inr t2"
        unfolding D by (metis isl_def sum.exhaust)
      from tracksLoop_perm[OF ro(2) ro(1) ro(3)[symmetric] this] Inl show False
        unfolding D by auto
    qed
    with Inl short show ?thesis by simp
  next
    case (Inr t1)
    from tracksLoop_perm[OF ro Inr[unfolded D]] obtain t2 where
      "Decode ftc d o2 text = Inr t2" "timelineName t2 = timelineName t1"
      "mset (timelineTracks t2) = mset (timelineTracks t1)"
      unfolding D by blast
    with Inr short show ?thesis by simp
  qed
qed

lemma audio_parse:
  "parseEvents NewDecoder audioEDL
     = Inr ([zeroEvent\<lparr>EventNumber := 1, ReelName := ''AUDIO1'', TrackType := ''A1'',
                EditType := ''C'', SourceIn := ''00:00:00:00'', SourceOut := ''00:00:05:00'',
                RecordIn := ''00:00:00:00'', RecordOut := ''00:00:05:00'',
                ClipName := ''AudioClip1''\<rparr>,
             zeroEvent\<lparr>EventNumber := 2, ReelName := ''AUDIO2'', TrackType := ''A2'',
                EditType := ''C'', SourceIn := ''00:00:00:00'', SourceOut := ''00:00:05:00'',
                RecordIn := ''00:00:00:00'', RecordOut := ''00:00:05:00'',
                ClipName := ''AudioClip2''\<rparr>], ''NON-DROP FRAME'')"
  by code_simp

text \<open>
  Claim C8 as stated fails: on the text of \<^verbatim>\<open>TestDecoder_AudioTrack\<close> both orders of the two
  audio tracks are orders of a run, and the two timelines list the tracks differently.
\<close>

theorem Decode_track_order_counterexample:
  "rangeOrder [''A1'', ''A2''] (fst (projr (parseEvents NewDecoder audioEDL)))
   \<and> rangeOrder [''A2'', ''A1''] (fst (projr (parseEvents NewDecoder audioEDL)))
   \<and> map trackName (timelineTracks (projr (Decode FromTimecodeRef NewDecoder [''A1'', ''A2''] audioEDL)))
       = [''A1'', ''A2'']
   \<and> map trackName (timelineTracks (projr (Decode FromTimecodeRef NewDecoder [''A2'', ''A1''] audioEDL)))
       = [''A2'', ''A1'']
   \<and> \<not> isl (Decode FromTimecodeRef NewDecoder [''A1'', ''A2''] audioEDL)
   \<and> \<not> isl (Decode FromTimecodeRef NewDecoder [''A2'', ''A1''] audioEDL)
   \<and> Decode FromTimecodeRef NewDecoder [''A1'', ''A2''] audioEDL
       \<noteq> Decode FromTimecodeRef NewDecoder [''A2'', ''A1''] audioEDL"
proof -
  have a: "map trackName (timelineTracks (projr (Decode FromTimecodeRef NewDecoder [''A1'', ''A2''] audioEDL)))
       = [''A1'', ''A2'']" by code_simp
  have b: "map trackName (timelineTracks (projr (Decode FromTimecodeRef NewDecoder [''A2'', ''A1''] audioEDL)))
       = [''A2'', ''A1'']" by code_simp
  have c: "\<not> isl (Decode FromTimecodeRef NewDecoder [''A1'', ''A2''] audioEDL)" by code_simp
  have d: "\<not> isl (Decode FromTimecodeRef NewDecoder [''A2'', ''A1''] audioEDL)" by code_simp
  have e: "Decode FromTimecodeRef NewDecoder [''A1'', ''A2''] audioEDL
       \<noteq> Decode FromTimecodeRef NewDecoder [''A2'', ''A1''] audioEDL"
  proof
    assume eq: "Decode FromTimecodeRef NewDecoder [''A1'', ''A2''] audioEDL
       = Decode FromTimecodeRef NewDecoder [''A2'', ''A1''] audioEDL"
    have "[''A2'', ''A1''] = [''A1'', ''A2'']"
      using a unfolding eq b .
    then show False by simp
  qed
  have r1: "rangeOrder [''A1'', ''A2''] (fst (projr (parseEvents NewDecoder audioEDL)))"
    by code_simp
  have r2: "rangeOrder [''A2'', ''A1''] (fst (projr (parseEvents NewDecoder audioEDL)))"
    by code_simp
  show ?thesis by (intro conjI a b c d e r1 r2)
qed

theorem Decode_track_order_witness:
  "rangeOrder [''A1'', ''A2''] (fst (projr (parseEvents NewDecoder audioEDL)))
   \<and> rangeOrder [''A2'', ''A1''] (fst (projr (parseEvents NewDecoder audioEDL)))
   \<and> \<not> isl (Decode FromTimecodeRef NewDecoder [''A1'', ''A2''] audioEDL)
   \<and> \<not> isl (Decode FromTimecodeRef NewDecoder [''A2'', ''A1''] audioEDL)
   \<and> mset (timelineTracks (projr (Decode FromTimecodeRef NewDecoder [''A2'', ''A1''] audioEDL)))
       = mset (timelineTracks (projr (Decode FromTimecodeRef NewDecoder [''A1'', ''A2''] audioEDL)))"
proof -
  have r1: "rangeOrder [''A1'', ''A2''] (fst (projr (parseEvents NewDecoder audioEDL)))"
    by code_simp
  have r2: "rangeOrder [''A2'', ''A1''] (fst (projr (parseEvents NewDecoder audioEDL)))"
    by code_simp
  have h: "\<forall>evs mode. parseEvents NewDecoder audioEDL = Inr (evs, mode)
             \<longrightarrow> rangeOrder [''A1'', ''A2''] evs \<and> rangeOrder [''A2'', ''A1''] evs"
  proof (intro allI impI)
    fix evs mode
    assume "parseEvents NewDecoder audioEDL = Inr (evs, mode)"
    then have "fst (projr (parseEvents NewDecoder audioEDL)) = evs" by simp
    with r1 r2 show "rangeOrder [''A1'', ''A2''] evs \<and> rangeOrder [''A2'', ''A1''] evs" by simp
  qed
  have c: "\<not> isl (Decode FromTimecodeRef NewDecoder [''A1'', ''A2''] audioEDL)" by code_simp
  have d: "\<not> isl (Decode FromTimecodeRef NewDecoder [''A2'', ''A1''] audioEDL)" by code_simp
  obtain t1 where t1: "Decode FromTimecodeRef NewDecoder [''A1'', ''A2''] audioEDL = Inr t1"
    using c by (cases "Decode FromTimecodeRef NewDecoder [''A1'', ''A2''] audioEDL") simp_all
  obtain t2 where t2: "Decode FromTimecodeRef NewDecoder [''A2'', ''A1''] audioEDL = Inr t2"
    using d by (cases "Decode FromTimecodeRef NewDecoder [''A2'', ''A1''] audioEDL") simp_all
  from Decode_track_order[OF h, of FromTimecodeRef]
  have "mset (timelineTracks t2) = mset (timelineTracks t1)"
    unfolding t1 t2 by simp
  then have m: "mset (timelineTracks (projr (Decode FromTimecodeRef NewDecoder [''A2'', ''A1''] audioEDL)))
       = mset (timelineTracks (projr (Decode FromTimecodeRef NewDecoder [''A1'', ''A2''] audioEDL)))"
    unfolding t1 t2 by simp
  show ?thesis by (intro conjI r1 r2 c d m)
qed

section \<open>The round trip: decode, encode, decode\<close>

subsection \<open>White space, lines and patterns\<close>

declare trimLeftBy.simps [simp del]

lemma splitNL_noNL: "CHR 0x0A \<notin> set l \<Longrightarrow> splitNL l = [l]"
  by (induction l) auto

lemma splitNL_append:
  "CHR 0x0A \<notin> set l \<Longrightarrow> splitNL (l @ CHR 0x0A # rest) = l # splitNL rest"
  by (induction l) auto

lemma stripOne_Some_length: "stripOne ps s = Some s' \<Longrightarrow> length s' < length s"
proof (induction ps)
  case Nil
  then show ?case by simp
next
  case (Cons p ps)
  show ?case
  proof (cases "p \<noteq> [] \<and> HasPrefix s p")
    case True
    then have "length p \<le> length s"
      unfolding HasPrefix_def by (metis length_take min.cobounded1)
    with True Cons.prems show ?thesis by (cases p) auto
  next
    case False
    with Cons show ?thesis by auto
  qed
qed

lemma stripOne_Some_drop: "stripOne ps s = Some s' \<Longrightarrow> \<exists>k. s' = drop k s"
  by (induction ps) (auto split: if_splits)

lemma trimLeftBy_None: "stripOne ps s = None \<Longrightarrow> trimLeftBy ps s = s"
  by (subst trimLeftBy.simps) simp

lemma trimLeftBy_Some: "stripOne ps s = Some s' \<Longrightarrow> trimLeftBy ps s = trimLeftBy ps s'"
  by (subst trimLeftBy.simps) simp

lemma trimLeftBy_drop: "\<exists>k. trimLeftBy ps s = drop k s"
proof (induction ps s rule: trimLeftBy.induct)
  case (1 ps s)
  show ?case
  proof (cases "stripOne ps s")
    case None
    then show ?thesis by (intro exI[of _ 0]) (simp add: trimLeftBy_None)
  next
    case (Some s')
    from stripOne_Some_drop[OF Some] obtain k where k: "s' = drop k s" by blast
    from "1.IH"[OF Some] obtain j where "trimLeftBy ps s' = drop j s'" by blast
    with k Some show ?thesis by (intro exI[of _ "j + k"]) (simp add: trimLeftBy_Some)
  qed
qed

lemma trimLeftBy_length: "length (trimLeftBy ps s) \<le> length s"
  using trimLeftBy_drop[of ps s] by auto

lemma trimLeftBy_fix: 
  assumes "length (trimLeftBy ps s) = length s"
  shows "stripOne ps s = None" and "trimLeftBy ps s = s"
proof -
  show n: "stripOne ps s = None"
  proof (cases "stripOne ps s")
    case (Some s')
    then have "length (trimLeftBy ps s) \<le> length s'"
      by (simp add: trimLeftBy_Some trimLeftBy_length)
    with stripOne_Some_length[OF Some] assms show ?thesis by simp
  qed simp
  then show "trimLeftBy ps s = s" by (rule trimLeftBy_None)
qed

lemma TrimSpace_fix:
  assumes "TrimSpace n = n"
  shows "stripOne spaceSeqs n = None" and "stripOne (map rev spaceSeqs) (rev n) = None"
proof -
  let ?a = "trimLeftBy spaceSeqs n"
  let ?b = "trimLeftBy (map rev spaceSeqs) (rev ?a)"
  have "length n = length ?b" using assms unfolding TrimSpace_def by (metis length_rev)
  moreover have "length ?b \<le> length ?a" using trimLeftBy_length[of _ "rev ?a"] by simp
  moreover have "length ?a \<le> length n" by (rule trimLeftBy_length)
  ultimately have la: "length ?a = length n" and lb: "length ?b = length (rev ?a)" by simp_all
  from trimLeftBy_fix[OF la] show "stripOne spaceSeqs n = None" by simp
  from trimLeftBy_fix(2)[OF la] have an: "?a = n" .
  from trimLeftBy_fix(1)[OF lb] show "stripOne (map rev spaceSeqs) (rev n) = None"
    unfolding an .
qed

lemma TrimSpace_None:
  "stripOne spaceSeqs s = None \<Longrightarrow> stripOne (map rev spaceSeqs) (rev s) = None \<Longrightarrow> TrimSpace s = s"
  by (simp add: TrimSpace_def trimLeftBy_None)

lemma stripOne_append_None:
  assumes "stripOne ps m = None" and "m \<noteq> []" and "\<forall>p\<in>set ps. c \<notin> set (tl p)"
  shows "stripOne ps (m @ c # q) = None"
  using assms
proof (induction ps)
  case Nil
  then show ?case by simp
next
  case (Cons p ps)
  from Cons.prems(1) have np: "\<not> (p \<noteq> [] \<and> HasPrefix m p)" and r: "stripOne ps m = None"
    by (auto split: if_splits)
  have "\<not> (p \<noteq> [] \<and> HasPrefix (m @ c # q) p)"
  proof
    assume a: "p \<noteq> [] \<and> HasPrefix (m @ c # q) p"
    then have tk: "take (length p) (m @ c # q) = p" by (simp add: HasPrefix_def)
    show False
    proof (cases "length p \<le> length m")
      case True
      with tk have "take (length p) m = p" by simp
      with a np show False by (simp add: HasPrefix_def)
    next
      case False
      then have "p = m @ take (length p - length m) (c # q)" using tk by simp
      moreover from False have "take (length p - length m) (c # q) = c # take (length p - length m - 1) q"
        by (cases "length p - length m") simp_all
      ultimately have eq: "p = m @ c # take (length p - length m - 1) q" by simp
      have "tl p = tl (m @ c # take (length p - length m - 1) q)"
        using arg_cong[OF eq, of tl] .
      also have "\<dots> = tl m @ c # take (length p - length m - 1) q"
        using Cons.prems(2) by simp
      finally have "c \<in> set (tl p)" by simp
      with Cons.prems(3) show False by simp
    qed
  qed
  with Cons.IH[OF r Cons.prems(2)] Cons.prems(3) show ?case by simp
qed

lemma stripOne_hd_None:
  "\<forall>p\<in>set ps. p \<noteq> [] \<longrightarrow> hd p \<noteq> c \<Longrightarrow> stripOne ps (c # s) = None"
proof (induction ps)
  case Nil
  then show ?case by simp
next
  case (Cons p ps)
  then have "\<not> (p \<noteq> [] \<and> HasPrefix (c # s) p)"
    by (cases p) (auto simp: HasPrefix_def)
  with Cons show ?case by simp
qed

lemma stripOne_last:
  assumes "\<forall>p\<in>set ps. p \<noteq> [] \<longrightarrow> last p \<noteq> c" and "stripOne ps (y @ [c]) = Some s'"
  shows "\<exists>y'. s' = y' @ [c]"
  using assms
proof (induction ps)
  case Nil
  then show ?case by simp
next
  case (Cons p ps)
  show ?case
  proof (cases "p \<noteq> [] \<and> HasPrefix (y @ [c]) p")
    case True
    then have tk: "take (length p) (y @ [c]) = p" by (simp add: HasPrefix_def)
    have "length p \<le> length y"
    proof (rule ccontr)
      assume "\<not> length p \<le> length y"
      with tk have "p = y @ [c]" by simp
      with True Cons.prems(1) show False by simp
    qed
    moreover from True Cons.prems(2) have "s' = drop (length p) (y @ [c])" by simp
    ultimately show ?thesis by simp
  next
    case False
    with Cons show ?thesis by simp
  qed
qed

lemma trimLeftBy_last:
  assumes "\<forall>p\<in>set ps. p \<noteq> [] \<longrightarrow> last p \<noteq> c"
  shows "\<exists>x. trimLeftBy ps (y @ [c]) = x @ [c]"
proof (induction "length y" arbitrary: y rule: less_induct)
  case less
  show ?case
  proof (cases "stripOne ps (y @ [c])")
    case None
    then show ?thesis by (simp add: trimLeftBy_None)
  next
    case (Some s')
    from stripOne_last[OF assms Some] obtain y' where y': "s' = y' @ [c]" by blast
    from stripOne_Some_length[OF Some] y' have "length y' < length y" by simp
    from less[OF this] Some y' show ?thesis by (simp add: trimLeftBy_Some)
  qed
qed

lemma spaceSeqs_nonempty: "\<forall>p\<in>set spaceSeqs. p \<noteq> []"
  by (simp add: spaceSeqs_def)

lemma TrimSpace_hd:
  assumes "\<forall>p\<in>set spaceSeqs. hd p \<noteq> c"
  shows "\<exists>r. TrimSpace (c # s) = c # r"
proof -
  have l: "trimLeftBy spaceSeqs (c # s) = c # s"
    using assms by (intro trimLeftBy_None stripOne_hd_None) simp
  have "\<forall>p\<in>set (map rev spaceSeqs). p \<noteq> [] \<longrightarrow> last p \<noteq> c"
    using assms spaceSeqs_nonempty by (auto simp: last_rev)
  from trimLeftBy_last[OF this, of "rev s"] obtain x where
    "trimLeftBy (map rev spaceSeqs) (rev s @ [c]) = x @ [c]" by blast
  then show ?thesis by (simp add: TrimSpace_def l)
qed

lemma TrimSpace_Nil [simp]: "TrimSpace [] = []"
  by code_simp

lemma stripOne_None_mem:
  "stripOne ps s = None \<Longrightarrow> p \<in> set ps \<Longrightarrow> p \<noteq> [] \<Longrightarrow> \<not> HasPrefix s p"
  by (induction ps) (auto split: if_splits)

lemma tw_reel:
  "\<forall>c\<in>set reel. \<not> isSpaceRe c \<Longrightarrow>
   takeWhile (\<lambda>c. \<not> isSpaceRe c) (reel @ CHR '' '' # xs) = reel"
  by (simp add: takeWhile_append2 isSpaceRe_def)

lemma dw_reel:
  "\<forall>c\<in>set reel. \<not> isSpaceRe c \<Longrightarrow>
   dropWhile (\<lambda>c. \<not> isSpaceRe c) (reel @ CHR '' '' # xs) = CHR '' '' # xs"
  by (simp add: dropWhile_append2 isSpaceRe_def)

lemma dw_spaces:
  "dropWhile isSpaceRe (replicate k CHR '' '' @ xs) = dropWhile isSpaceRe xs"
  by (induction k) (simp_all add: isSpaceRe_def)

lemma dw_ns: "s \<noteq> [] \<Longrightarrow> \<not> isSpaceRe (hd s) \<Longrightarrow> dropWhile isSpaceRe (s @ Y) = s @ Y"
  by (cases s) simp_all

lemma charFacts:
  "isSpaceRe CHR '' ''" "\<not> isSpaceRe CHR ''0''" "\<not> isSpaceRe CHR ''1''"
  "\<not> isSpaceRe CHR ''V''" "\<not> isSpaceRe CHR ''A''" "\<not> isSpaceRe CHR ''C''"
  "\<not> isSpaceRe CHR ''*''" 
  "isDigit CHR ''0''" "isDigit CHR ''1''" "\<not> isDigit CHR '' ''" "\<not> isDigit CHR ''*''"
  by (simp_all add: isSpaceRe_def isDigit_def)

lemma eventLineRegex_encoded:
  assumes "reel \<noteq> []" and "\<forall>c\<in>set reel. \<not> isSpaceRe c" and "tt = ''V'' \<or> tt = ''A1''"
  shows "eventLineRegex (''001  '' @ reel @ replicate k CHR '' '' @ '' '' @ tt @ ''    C '')
           = Some (''001'', reel, tt, ''C'', [])"
proof -
  have r0: "\<not> isSpaceRe (hd reel)" using assms(1,2) by (cases reel) simp_all
  note dr = dw_ns[OF assms(1) r0]
  let ?tail = "tt @ ''    C ''"
  have line: "''001  '' @ reel @ replicate k CHR '' '' @ '' '' @ tt @ ''    C ''
                = ''001  '' @ (reel @ CHR '' '' # (replicate k CHR '' '' @ ?tail))"
    by (simp only: append.simps replicate_app_Cons_same)
  have tailV: "tt = ''V'' \<Longrightarrow> ?thesis"
    unfolding line eventLineRegex_def
    by (simp add: Let_def guard_def ws1_def charFacts tw_reel[OF assms(2)] dw_reel[OF assms(2)]
        dw_spaces dr assms(1) isTrackToken_def)
  have tailA: "tt = ''A1'' \<Longrightarrow> ?thesis"
    unfolding line eventLineRegex_def
    by (simp add: Let_def guard_def ws1_def charFacts tw_reel[OF assms(2)] dw_reel[OF assms(2)]
        dw_spaces dr assms(1) isTrackToken_def)
  from assms(3) tailV tailA show ?thesis by blast
qed

lemma isTimecodeText_length: "isTimecodeText t \<Longrightarrow> length t = 11"
proof -
  assume "isTimecodeText t"
  then have "tcAt True t \<noteq> None" and e: "tcAt True t = Some (t, [])"
    by (simp_all add: isTimecodeText_def)
  then have "length (take 11 t) = 11" unfolding tcAt_def Let_def by (meson option.distinct(1))
  moreover from e have "drop 11 t = []" unfolding tcAt_def Let_def
    by (metis option.distinct(1) option.inject prod.inject)
  ultimately show ?thesis by simp
qed

lemma isTimecodeText_cond:
  assumes "isTimecodeText t"
  shows "isDigit (t ! 0) \<and> isDigit (t ! 1) \<and> t ! 2 = CHR '':''
         \<and> isDigit (t ! 3) \<and> isDigit (t ! 4) \<and> t ! 5 = CHR '':''
         \<and> isDigit (t ! 6) \<and> isDigit (t ! 7)
         \<and> (t ! 8 = CHR '':'' \<or> (True \<and> t ! 8 = CHR '';''))
         \<and> isDigit (t ! 9) \<and> isDigit (t ! 10)"
proof -
  have l: "length t = 11" using assms by (rule isTimecodeText_length)
  then have tk: "take 11 t = t" by simp
  from assms have "tcAt True t \<noteq> None" by (simp add: isTimecodeText_def)
  then show ?thesis unfolding tcAt_def Let_def tk by (meson)
qed

lemma tcAt_append: 
  assumes "isTimecodeText t"
  shows "tcAt True (t @ rest) = Some (t, rest)"
proof -
  have l: "length t = 11" using assms by (rule isTimecodeText_length)
  then have tk: "take 11 (t @ rest) = t" "drop 11 (t @ rest) = rest" by simp_all
  show ?thesis unfolding tcAt_def Let_def tk 
    using isTimecodeText_cond[OF assms] l by (simp only: if_True simp_thms)
qed

lemma len11:
  assumes "length (t :: 'a list) = 11"
  obtains a0 a1 a2 a3 a4 a5 a6 a7 a8 a9 a10 where "t = [a0, a1, a2, a3, a4, a5, a6, a7, a8, a9, a10]"
proof -
  from assms have "length t = Suc (Suc (Suc (Suc (Suc (Suc (Suc (Suc (Suc (Suc (Suc 0))))))))))"
    by simp
  then have "\<exists>a0 a1 a2 a3 a4 a5 a6 a7 a8 a9 a10. t = [a0, a1, a2, a3, a4, a5, a6, a7, a8, a9, a10]"
    by (simp add: length_Suc_conv) (elim exE conjE, simp)
  then show thesis using that by blast
qed

lemma isTimecodeText_chars:
  assumes "isTimecodeText t" and "c \<in> set t"
  shows "isDigit c \<or> c = CHR '':'' \<or> c = CHR '';''"
proof -
  from assms have l: "length t = 11" by (simp add: isTimecodeText_length)
  then obtain a0 a1 a2 a3 a4 a5 a6 a7 a8 a9 a10
    where t: "t = [a0, a1, a2, a3, a4, a5, a6, a7, a8, a9, a10]" by (rule len11)
  have n: "t ! 0 = a0" "t ! 1 = a1" "t ! 2 = a2" "t ! 3 = a3" "t ! 4 = a4" "t ! 5 = a5"
    "t ! 6 = a6" "t ! 7 = a7" "t ! 8 = a8" "t ! 9 = a9" "t ! 10 = a10"
    by (simp_all add: t)
  from assms(2) have "c = a0 \<or> c = a1 \<or> c = a2 \<or> c = a3 \<or> c = a4 \<or> c = a5 \<or> c = a6
       \<or> c = a7 \<or> c = a8 \<or> c = a9 \<or> c = a10" by (simp add: t)
  with isTimecodeText_cond[OF assms(1)] show ?thesis unfolding n by blast
qed

lemma isTimecodeText_hd:
  assumes "isTimecodeText t"
  shows "t \<noteq> []" and "isDigit (hd t)" and "isDigit (last t)"
proof -
  from assms have l: "length t = 11" by (rule isTimecodeText_length)
  then show ne: "t \<noteq> []" by auto
  from isTimecodeText_cond[OF assms] have "isDigit (t ! 0)" "isDigit (t ! 10)" by simp_all
  with l ne show "isDigit (hd t)" "isDigit (last t)"
    by (simp_all add: hd_conv_nth last_conv_nth)
qed

lemma isDigit_not_space: "isDigit c \<Longrightarrow> \<not> isSpaceRe c"
  by (auto simp: isDigit_def isSpaceRe_def)

lemma timecodeLineRegex_encoded:
  assumes "isTimecodeText t1" "isTimecodeText t2" "isTimecodeText t3" "isTimecodeText t4"
  shows "timecodeLineRegex (''     '' @ t1 @ '' '' @ t2 @ '' '' @ t3 @ '' '' @ t4)
           = Some (t1, t2, t3, t4)"
proof -
  have sp: "isSpaceRe CHR '' ''" by (simp add: isSpaceRe_def)
  have d: "dropWhile isSpaceRe (t @ rest) = t @ rest" if "isTimecodeText t" for t rest
    using isTimecodeText_hd(1,2)[OF that] isDigit_not_space by (cases t) auto
  have t4: "tcAt True t4 = Some (t4, [])" using assms(4) by (simp add: isTimecodeText_def)
  show ?thesis
    unfolding timecodeLineRegex_def
    using d[OF assms(1)] d[OF assms(2)] d[OF assms(3)] d[OF assms(4), of "[]"]
    by (simp add: sp ws1_def tcAt_append[OF assms(1)] tcAt_append[OF assms(2)]
        tcAt_append[OF assms(3)] t4)
qed

lemma reelChars_not_space: "c \<in> reelChars \<Longrightarrow> \<not> isSpaceRe c"
proof
  assume a: "c \<in> reelChars" and "isSpaceRe c"
  then have "c = CHR 0x09 \<or> c = CHR 0x0A \<or> c = CHR 0x0C \<or> c = CHR 0x0D \<or> c = CHR 0x20"
    by (simp add: isSpaceRe_def)
  moreover have "CHR 0x09 \<notin> reelChars" "CHR 0x0A \<notin> reelChars" "CHR 0x0C \<notin> reelChars"
    "CHR 0x0D \<notin> reelChars" "CHR 0x20 \<notin> reelChars"
    by (simp_all add: reelChars_def)
  ultimately show False using a by blast
qed

lemma sanitizedChars_reelChars: "set (sanitizedChars name) \<subseteq> reelChars"
proof -
  have u: "CHR ''_'' \<in> reelChars" by (simp add: reelChars_def)
  have "isReelChar r \<Longrightarrow> char_of r \<in> reelChars" for r
    unfolding isReelChar_def reelChars_def by (elim imageE) simp
  with u show ?thesis by (auto simp: sanitizedChars_def)
qed

lemma SanitizeReelName_chars:
  "SanitizeReelName name n \<noteq> []" "set (SanitizeReelName name n) \<subseteq> reelChars"
proof -
  have ax: "set ''AX'' \<subseteq> reelChars" by (simp add: reelChars_def)
  show "SanitizeReelName name n \<noteq> []"
    by (simp add: SanitizeReelName_def Let_def)
  have "set (take k (sanitizedChars name)) \<subseteq> reelChars" for k
    using sanitizedChars_reelChars set_take_subset by (rule order_trans[rotated])
  with ax sanitizedChars_reelChars show "set (SanitizeReelName name n) \<subseteq> reelChars"
    unfolding SanitizeReelName_def Let_def stringsMap_reelRune by (simp only: split: if_split) simp
qed

lemma headerLines:
  "TrimSpace ''TITLE: Timeline'' = ''TITLE: Timeline''"
  "TrimSpace ''FCM: NON-DROP FRAME'' = ''FCM: NON-DROP FRAME''"
  "fcmOf ''FCM: NON-DROP FRAME'' = ''NON-DROP FRAME''"
  by code_simp+

lemma seqFacts:
  "\<forall>p\<in>set spaceSeqs. p \<noteq> [] \<longrightarrow> hd p \<noteq> CHR ''*''"
  "\<forall>p\<in>set spaceSeqs. hd p \<noteq> CHR ''0''"
  "\<forall>p\<in>set (map rev spaceSeqs). CHR '' '' \<notin> set (tl p)"
  "[CHR 0x0D] \<in> set (map rev spaceSeqs)"
  by (simp_all add: spaceSeqs_def)

lemma stripOne_space: "stripOne spaceSeqs (CHR '' '' # s) = Some s"
  by (simp add: spaceSeqs_def HasPrefix_def)

lemma nameLine_trim:
  assumes "name \<noteq> []" and "TrimSpace name = name"
  shows "TrimSpace (''* FROM CLIP NAME: '' @ name) = ''* FROM CLIP NAME: '' @ name"
proof (rule TrimSpace_None)
  show "stripOne spaceSeqs (''* FROM CLIP NAME: '' @ name) = None"
    using stripOne_hd_None[OF seqFacts(1)] by simp
  have "stripOne (map rev spaceSeqs) (rev name @ CHR '' '' # rev ''* FROM CLIP NAME:'') = None"
    using TrimSpace_fix(2)[OF assms(2)] assms(1) seqFacts(3)
    by (intro stripOne_append_None) simp_all
  then show "stripOne (map rev spaceSeqs) (rev (''* FROM CLIP NAME: '' @ name)) = None"
    by simp
qed

lemma name_trim:
  assumes "TrimSpace name = name"
  shows "TrimSpace (CHR '' '' # name) = name"
proof -
  have "trimLeftBy spaceSeqs (CHR '' '' # name) = trimLeftBy spaceSeqs name"
    by (rule trimLeftBy_Some) (rule stripOne_space)
  then show ?thesis using assms by (simp add: TrimSpace_def)
qed

lemma name_last:
  assumes "name \<noteq> []" and "TrimSpace name = name"
  shows "last name \<noteq> CHR 0x0D"
proof
  assume l: "last name = CHR 0x0D"
  have "\<not> HasPrefix (rev name) [CHR 0x0D]"
    using TrimSpace_fix(2)[OF assms(2)] seqFacts(4) by (rule stripOne_None_mem) simp
  moreover have "hd (rev name) = CHR 0x0D" using l assms(1) by (simp add: hd_rev)
  ultimately show False using assms(1) by (cases "rev name") (simp_all add: HasPrefix_def)
qed

lemma nameLine_comment:
  assumes "name \<noteq> []" and "TrimSpace name = name"
  shows "commentLine ev (''* FROM CLIP NAME: '' @ name) = ev\<lparr>ClipName := name\<rparr>"
proof -
  have a: "\<not> HasPrefix (''* FROM CLIP NAME: '' @ name) ''*FROM CLIP NAME:''"
    by (simp add: HasPrefix_def)
  have b: "HasPrefix (''* FROM CLIP NAME: '' @ name) ''* FROM CLIP NAME:''"
    by (simp add: HasPrefix_def)
  have c: "TrimPrefix (''* FROM CLIP NAME: '' @ name) ''* FROM CLIP NAME:'' = CHR '' '' # name"
    unfolding TrimPrefix_def using b by simp
  show ?thesis
    unfolding commentLine_def nameLine_trim[OF assms] Let_def
    by (simp only: a b c if_True if_False name_trim[OF assms(2)])
qed

lemma nameLine_facts:
  "\<not> HasPrefix (''* FROM CLIP NAME: '' @ name) ''TITLE:''"
  "\<not> HasPrefix (''* FROM CLIP NAME: '' @ name) ''FCM:''"
  "\<not> HasPrefix (''* FROM CLIP NAME: '' @ name) ''M2''"
  "eventLineRegex (''* FROM CLIP NAME: '' @ name) = None"
  by (simp_all add: HasPrefix_def eventLineRegex_def Let_def guard_def charFacts)

lemma eventLine_facts:
  "TrimSpace (''001  '' @ x) \<noteq> []"
  "\<not> HasPrefix (TrimSpace (''001  '' @ x)) ''TITLE:''"
  "\<not> HasPrefix (TrimSpace (''001  '' @ x)) ''FCM:''"
proof -
  obtain r where r: "TrimSpace (''001  '' @ x) = CHR ''0'' # r"
    using TrimSpace_hd[OF seqFacts(2), of "''01  '' @ x"] by auto
  show "TrimSpace (''001  '' @ x) \<noteq> []"
    "\<not> HasPrefix (TrimSpace (''001  '' @ x)) ''TITLE:''"
    "\<not> HasPrefix (TrimSpace (''001  '' @ x)) ''FCM:''"
    unfolding r by (simp_all add: HasPrefix_def)
qed

subsection \<open>The encoded text and its parse\<close>

lemma parseLoop_seven:
  assumes "TrimSpace L0 \<noteq> []" "HasPrefix (TrimSpace L0) ''TITLE:''"
    and "TrimSpace L1 \<noteq> []" "\<not> HasPrefix (TrimSpace L1) ''TITLE:''"
      "HasPrefix (TrimSpace L1) ''FCM:''"
    and "TrimSpace Lev \<noteq> []" "\<not> HasPrefix (TrimSpace Lev) ''TITLE:''"
      "\<not> HasPrefix (TrimSpace Lev) ''FCM:''" "eventLineRegex Lev = Some m"
    and "timecodeLineRegex Ltc = Some (t1, t2, t3, t4)"
    and "TrimSpace Ln \<noteq> []" "\<not> HasPrefix (TrimSpace Ln) ''TITLE:''"
      "\<not> HasPrefix (TrimSpace Ln) ''FCM:''" "eventLineRegex Ln = None"
      "\<not> HasPrefix (TrimSpace Ln) ''M2''"
  shows "parseLoop (initState d) [L0, L1, [], Lev, Ltc, Ln, []]
           = Inr \<lparr>events = [],
                  currentEvent = Some (commentLine ((headerEvent m)\<lparr>SourceIn := t1,
                     SourceOut := t2, RecordIn := t3, RecordOut := t4\<rparr>) Ln),
                  lineNum = 7, fcm = fcmOf (TrimSpace L1)\<rparr>"
  using assms by (simp add: parseLoop.simps(2) Let_def initState_def flushed_def)

lemma rawLines_seven:
  assumes "CHR 0x0A \<notin> set L0" "CHR 0x0A \<notin> set L1" "CHR 0x0A \<notin> set Lev"
    "CHR 0x0A \<notin> set Ltc" "CHR 0x0A \<notin> set Ln"
  shows "rawLines (L0 @ NL @ L1 @ NL @ NL @ Lev @ NL @ Ltc @ NL @ Ln @ NL @ NL)
           = [L0, L1, [], Lev, Ltc, Ln, []]"
proof -
  have "splitNL (L0 @ CHR 0x0A # L1 @ CHR 0x0A # CHR 0x0A # Lev @ CHR 0x0A # Ltc @ CHR 0x0A
          # Ln @ CHR 0x0A # CHR 0x0A # []) = [L0, L1, [], Lev, Ltc, Ln, [], []]"
    using assms by (simp add: splitNL_append)
  then show ?thesis by (simp add: rawLines_def NL_def)
qed

lemma dropCR_id: "l = [] \<or> last l \<noteq> CHR 0x0D \<Longrightarrow> dropCR l = l"
  by (auto simp: dropCR_def)

lemma scanLines_seven:
  assumes nl: "CHR 0x0A \<notin> set L0" "CHR 0x0A \<notin> set L1" "CHR 0x0A \<notin> set Lev"
    "CHR 0x0A \<notin> set Ltc" "CHR 0x0A \<notin> set Ln"
    and cr: "dropCR L0 = L0" "dropCR L1 = L1" "dropCR Lev = Lev" "dropCR Ltc = Ltc"
      "dropCR Ln = Ln"
    and fit: "\<not> snd (scanLines (L0 @ NL @ L1 @ NL @ NL @ Lev @ NL @ Ltc @ NL @ Ln @ NL @ NL))"
  shows "scanLines (L0 @ NL @ L1 @ NL @ NL @ Lev @ NL @ Ltc @ NL @ Ln @ NL @ NL)
           = ([L0, L1, [], Lev, Ltc, Ln, []], False)"
proof -
  let ?out = "L0 @ NL @ L1 @ NL @ NL @ Lev @ NL @ Ltc @ NL @ Ln @ NL @ NL"
  note r = rawLines_seven[OF nl]
  have all: "list_all fitsBuffer (rawLines ?out)" using fit by (simp add: scanLines_def)
  then have tw: "takeWhile fitsBuffer (rawLines ?out) = rawLines ?out"
    by (simp add: list_all_iff)
  have dn: "dropCR [] = []" by (simp add: dropCR_def)
  show ?thesis unfolding scanLines_def tw using all unfolding r by (simp add: cr dn)
qed

lemma decode_single:
  assumes "parseEvents d text = Inr ([ev], mode)"
    and "ftc (SourceIn ev) (decRate d) = Some sIn"
    and "ftc (SourceOut ev) (decRate d) = Some sOut"
    and "ftc (RecordIn ev) (decRate d) = Some rIn"
    and "ftc (RecordOut ev) (decRate d) = Some rOut"
  shows "\<exists>pre. (\<forall>x\<in>set pre. \<exists>t. x = TransitionChild t)
         \<and> Decode ftc d [TrackType ev] text
           = Inr \<lparr>timelineName = [],
                  timelineTracks =
                    [\<lparr>trackName = TrackType ev,
                      trackKind = (if IsAudioTrack (TrackType ev) then TrackKindAudio
                                   else TrackKindVideo),
                      trackChildren =
                        pre @ [ClipChild (eventClip ftc (d\<lparr>fcmMode := mode\<rparr>) ev sIn sOut)]\<rparr>]\<rparr>"
proof -
  let ?d = "d\<lparr>fcmMode := mode\<rparr>"
  let ?k = "if IsAudioTrack (TrackType ev) then TrackKindAudio else TrackKindVideo"
  let ?tr0 = "NewTrack (TrackType ev) ?k"
  have g: "appendGap ?tr0 zeroTime rIn = ?tr0"
    by (simp add: appendGap_def IsValidTime_def zeroTime_def)
  obtain tr where tr: "appendTransition ?d ?tr0 ev = ?tr0\<lparr>trackChildren := trackChildren ?tr0 @ tr\<rparr>"
    and trs: "\<forall>c\<in>set tr. \<exists>t. c = TransitionChild t"
    using appendTransition_children[of ?d ?tr0 ev] by blast
  have dr: "decRate ?d = decRate d" by simp
  have step: "createTrackLoop ftc ?d ?tr0 zeroTime [ev]
                = Inr (AppendChild (appendTransition ?d (appendGap ?tr0 zeroTime rIn) ev)
                         (ClipChild (eventClip ftc ?d ev sIn sOut)))"
    using createTrackLoop_step[where ftc=ftc and ev=ev and d="?d" and rest="[]"
        and track="?tr0" and lro=zeroTime, OF assms(2-5)[folded dr]]
    by simp
  have ct: "createTrack ftc ?d (TrackType ev) [ev]
              = Inr \<lparr>trackName = TrackType ev, trackKind = ?k,
                     trackChildren = tr @ [ClipChild (eventClip ftc ?d ev sIn sOut)]\<rparr>"
    unfolding createTrack_def Let_def step g tr
    by (simp add: AppendChild_def NewTrack_def)
  have tm: "trackMap [ev] (TrackType ev) = Some [ev]" by (simp add: trackMap_def)
  have "Decode ftc d [TrackType ev] text
           = Inr \<lparr>timelineName = [],
                  timelineTracks =
                    [\<lparr>trackName = TrackType ev, trackKind = ?k,
                      trackChildren = tr @ [ClipChild (eventClip ftc ?d ev sIn sOut)]\<rparr>]\<rparr>"
    unfolding Decode_def assms(1) eventsToTimeline_def
    by (simp add: tm ct NewTimeline_def)
  with trs show ?thesis by blast
qed

lemma decode_single_times:
  assumes "parseEvents d text = Inr ([ev], mode)"
    and "Decode ftc d [TrackType ev] text = Inr t1"
  shows "\<exists>sIn sOut rIn rOut. ftc (SourceIn ev) (decRate d) = Some sIn
           \<and> ftc (SourceOut ev) (decRate d) = Some sOut
           \<and> ftc (RecordIn ev) (decRate d) = Some rIn
           \<and> ftc (RecordOut ev) (decRate d) = Some rOut"
proof -
  let ?d = "d\<lparr>fcmMode := mode\<rparr>"
  have tm: "trackMap [ev] (TrackType ev) = Some [ev]" by (simp add: trackMap_def)
  from assms have "\<exists>tr. createTrack ftc ?d (TrackType ev) [ev] = Inr tr"
    unfolding Decode_def eventsToTimeline_def by (simp add: tm split: sum.splits)
  then obtain tr where "createTrackLoop ftc ?d
      (NewTrack (TrackType ev) (if IsAudioTrack (TrackType ev) then TrackKindAudio else TrackKindVideo))
      zeroTime [ev] = Inr tr"
    unfolding createTrack_def Let_def by blast
  then show ?thesis by (simp split: option.splits)
qed

lemma writeTrackLoop_trans_clip:
  assumes "\<forall>x\<in>set pre. \<exists>t. x = TransitionChild t"
    and "clipEvent ttc e tt c [] n rt = Inr (ev, ro)"
  shows "writeTrackLoop ttc bufferWrite e tt (pre @ [ClipChild c]) n rt w
           = (w @ eventText ev, n + 1, None)"
  using assms
proof (induction pre)
  case Nil
  then show ?case by (simp add: writeEvent_buffer skipTransition_def)
next
  case (Cons x pre)
  then obtain t where "x = TransitionChild t" by auto
  with Cons show ?case by simp
qed

lemma clipEvent_eventClip:
  "\<exists>reel0. clipEvent ttc e tt (eventClip ftc d ev sIn sOut) [] n rt
     = Inr (zeroEvent\<lparr>EventNumber := n,
              ReelName := SanitizeReelName reel0 (reelNameLen e),
              TrackType := tt, EditType := EditTypeCut,
              SourceIn := formatTimecode ttc e sIn,
              SourceOut := formatTimecode ttc e (Add sIn (DurationFromStartEndTime sIn sOut)),
              RecordIn := formatTimecode ttc e rt,
              RecordOut := formatTimecode ttc e (Add rt (DurationFromStartEndTime sIn sOut)),
              ClipName := eventClipName ev, TransitionDuration := 0\<rparr>,
            Add rt (DurationFromStartEndTime sIn sOut))"
proof -
  let ?m = "eventMediaRef ev (NewTimeRange sIn (DurationFromStartEndTime sIn sOut))"
  let ?r = "if refName ?m = [] then (case ?m of ExternalReference _ url _ \<Rightarrow> url | _ \<Rightarrow> [])
            else refName ?m"
  show ?thesis
    by (intro exI[of _ "?r"])
       (simp add: clipEvent_def eventClip_def NewClip_def clipDuration_def Let_def)
qed

lemma eventText_cut:
  assumes "ReelName ev = reel" "TrackType ev = tt" "EditType ev = EditTypeCut"
    "EventNumber ev = 1" "ClipName ev = name" "name \<noteq> []"
    "SourceIn ev = t1" "SourceOut ev = t2" "RecordIn ev = t3" "RecordOut ev = t4"
  shows "eventText ev
           = (''001  '' @ reel @ replicate (8 - length (runes reel)) CHR '' '' @ '' '' @ tt @ ''    C '')
             @ NL @ (''     '' @ t1 @ '' '' @ t2 @ '' '' @ t3 @ '' '' @ t4) @ NL
             @ (''* FROM CLIP NAME: '' @ name) @ NL @ NL"
proof -
  have f: "fmt03d 1 = ''001''" by code_simp
  have p: "replicate (2 - length (runes ''C'')) CHR '' '' = '' ''" by code_simp
  have el: "eventLine ev
      = ''001  '' @ reel @ replicate (8 - length (runes reel)) CHR '' '' @ '' '' @ tt @ ''    C ''"
    using assms(1-4) by (simp add: eventLine_def Let_def f p EditTypeCut_def EditTypeDissolve_def padRight_def)
  have tl: "timecodeLine ev = ''     '' @ t1 @ '' '' @ t2 @ '' '' @ t3 @ '' '' @ t4"
    using assms(7-10) by (simp add: timecodeLine_def)
  show ?thesis
    unfolding eventText_def writeEvent_def el tl
    using assms(5,6) by (simp add: bufferWrite_def)
qed

lemma Encode_single:
  assumes "\<forall>x\<in>set pre. \<exists>t. x = TransitionChild t"
    and "kind = TrackKindVideo \<or> kind = TrackKindAudio"
    and "clipEvent ttc e (if kind = TrackKindVideo then ''V'' else ''A1'') c [] 1
           (NewRationalTime 0 (encRate e)) = Inr (ev, ro)"
  shows "Encode ttc bufferWrite e
           (Some \<lparr>timelineName = [],
                  timelineTracks = [\<lparr>trackName = k, trackKind = kind,
                                     trackChildren = pre @ [ClipChild c]\<rparr>]\<rparr>) []
           = (''TITLE: Timeline'' @ NL @ ''FCM: NON-DROP FRAME'' @ NL @ NL @ eventText ev, None)"
proof -
  have ne: "TrackKindVideo \<noteq> TrackKindAudio" by (simp add: TrackKindVideo_def TrackKindAudio_def)
  show ?thesis
  proof (cases "kind = TrackKindVideo")
    case True
    with assms(3) have ce: "clipEvent ttc e ''V'' c [] 1 (NewRationalTime 0 (encRate e)) = Inr (ev, ro)"
      by simp
    show ?thesis
      unfolding Encode_def
      by (simp add: writeHeader_buffer VideoTracks_def AudioTracks_def True ne Let_def
          writeTrackEvents_def TrackTypeVideo_def writeTrackLoop_trans_clip[OF assms(1) ce])
  next
    case False
    with assms(2) have k: "kind = TrackKindAudio" by simp
    from False assms(3) have ce: "clipEvent ttc e ''A1'' c [] 1 (NewRationalTime 0 (encRate e)) = Inr (ev, ro)"
      by simp
    show ?thesis
      unfolding Encode_def
      by (simp add: writeHeader_buffer VideoTracks_def AudioTracks_def k ne[symmetric] Let_def
          writeTrackEvents_def TrackTypeAudio1_def writeTrackLoop_trans_clip[OF assms(1) ce])
  qed
qed

lemma duration_again:
  "DurationFromStartEndTime sIn (Add sIn (DurationFromStartEndTime sIn sOut))
     = DurationFromStartEndTime sIn sOut"
  by (simp add: DurationFromStartEndTime_def Add_def valueRescaledTo_def)

lemma tc_noNL: "isTimecodeText t \<Longrightarrow> CHR 0x0A \<notin> set t"
proof
  assume a: "isTimecodeText t" and b: "CHR 0x0A \<in> set t"
  from isTimecodeText_chars[OF a b] show False by (simp add: isDigit_def)
qed

lemma tc_last: "isTimecodeText t \<Longrightarrow> last t \<noteq> CHR 0x0D"
proof
  assume a: "isTimecodeText t" and b: "last t = CHR 0x0D"
  from isTimecodeText_hd(3)[OF a] b show False by (simp add: isDigit_def)
qed

lemma clipsOf_single:
  assumes "\<forall>x\<in>set pre. \<exists>t. x = TransitionChild t"
  shows "clipsOf \<lparr>timelineName = n,
                  timelineTracks = [\<lparr>trackName = k, trackKind = kd,
                                     trackChildren = pre @ [ClipChild c]\<rparr>]\<rparr> = [c]"
proof -
  have "concat (map (\<lambda>c. case c of ClipChild cl \<Rightarrow> [cl] | _ \<Rightarrow> []) pre) = []"
    using assms by (induction pre) auto
  then show ?thesis by (simp add: clipsOf_def)
qed

lemma eventClip_fields:
  "clipName (eventClip ftc d ev a b) = eventClipName ev"
  "clipDuration (eventClip ftc d ev a b) = Inr (DurationFromStartEndTime a b)"
  by (simp_all add: eventClip_def NewClip_def clipDuration_def Let_def)

lemma eventClipName_plain:
  "ClipName x = n \<Longrightarrow> n \<noteq> [] \<Longrightarrow> \<not> FreezeFrame x \<Longrightarrow> eventClipName x = n"
  by (simp add: eventClipName_def)

text \<open>
  Claim C1, as amended. Take a text from which \<^verbatim>\<open>parseEvents\<close> reads exactly one event and
  which \<^verbatim>\<open>Decode\<close> turns into a timeline, and encode that timeline into a buffer. Assume
  that the decoded clip name is not empty, has no white space at either end and holds no
  line feed; that the scanner reads the encoded text to its end (no line reaches the
  buffer limit); that the library's timecode conversions invert each other on the source
  start and on the source start plus the duration; and that the four timecodes the
  encoder formats are well-formed timecodes which the library converts back. Then
  \<^verbatim>\<open>Encode\<close> returns no error, the encoded text again holds exactly one event and \<^verbatim>\<open>Decode\<close>
  turns it into a timeline; both timelines have one track, of the same kind, and one clip,
  with the same clip name and the same duration (the source duration of the event). The
  record duration plays no part.
\<close>

theorem round_trip_single_clip:
  assumes parse1: "parseEvents d edl = Inr ([ev], mode)"
    and dec1: "Decode ftc d [TrackType ev] edl = Inr tf"
    and enc: "Encode ttc bufferWrite e (Some tf) [] = (out, r)"
    and fit: "\<not> snd (scanLines out)"
    and nm: "eventClipName ev \<noteq> []" "TrimSpace (eventClipName ev) = eventClipName ev"
      "CHR 0x0A \<notin> set (eventClipName ev)"
    and sIn: "ftc (SourceIn ev) (decRate d) = Some sIn"
    and sOut: "ftc (SourceOut ev) (decRate d) = Some sOut"
    and lib: "\<forall>x\<in>{sIn, Add sIn (DurationFromStartEndTime sIn sOut)}.
                ftc (formatTimecode ttc e x) (decRate d) = Some x"
    and rec: "\<forall>x\<in>{NewRationalTime 0 (encRate e),
                   Add (NewRationalTime 0 (encRate e)) (DurationFromStartEndTime sIn sOut)}.
                ftc (formatTimecode ttc e x) (decRate d) \<noteq> None"
    and wf: "\<forall>x\<in>{sIn, Add sIn (DurationFromStartEndTime sIn sOut),
                  NewRationalTime 0 (encRate e),
                  Add (NewRationalTime 0 (encRate e)) (DurationFromStartEndTime sIn sOut)}.
                isTimecodeText (formatTimecode ttc e x)"
  shows "r = None
     \<and> (\<exists>ev2 mode2 t2.
           parseEvents d out = Inr ([ev2], mode2)
         \<and> Decode ftc d [TrackType ev2] out = Inr t2
         \<and> length (timelineTracks tf) = 1
         \<and> map trackKind (timelineTracks t2) = map trackKind (timelineTracks tf)
         \<and> length (clipsOf tf) = 1
         \<and> map clipName (clipsOf t2) = map clipName (clipsOf tf)
         \<and> map clipDuration (clipsOf t2) = map clipDuration (clipsOf tf)
         \<and> map clipDuration (clipsOf tf) = [Inr (DurationFromStartEndTime sIn sOut)])"
proof -
  let ?dur = "DurationFromStartEndTime sIn sOut"
  let ?rt0 = "NewRationalTime 0 (encRate e)"
  let ?name = "eventClipName ev"
  let ?kind = "if IsAudioTrack (TrackType ev) then TrackKindAudio else TrackKindVideo"
  let ?tt = "if ?kind = TrackKindVideo then ''V'' else ''A1''"
  let ?c1 = "eventClip ftc (d\<lparr>fcmMode := mode\<rparr>) ev sIn sOut"
  let ?s1 = "formatTimecode ttc e sIn"
  let ?s2 = "formatTimecode ttc e (Add sIn ?dur)"
  let ?s3 = "formatTimecode ttc e ?rt0"
  let ?s4 = "formatTimecode ttc e (Add ?rt0 ?dur)"
  have ne: "TrackKindVideo \<noteq> TrackKindAudio" by (simp add: TrackKindVideo_def TrackKindAudio_def)
  have kind: "?kind = TrackKindVideo \<or> ?kind = TrackKindAudio" by simp
  have tt: "?tt = ''V'' \<or> ?tt = ''A1''" by simp
  from decode_single_times[OF parse1 dec1] sIn sOut obtain rIn rOut
    where rIn: "ftc (RecordIn ev) (decRate d) = Some rIn"
      and rOut: "ftc (RecordOut ev) (decRate d) = Some rOut" by auto
  from decode_single[where ftc=ftc, OF parse1 sIn sOut rIn rOut] dec1 obtain pre
    where pre: "\<forall>x\<in>set pre. \<exists>t. x = TransitionChild t"
      and tf: "tf = \<lparr>timelineName = [],
                     timelineTracks = [\<lparr>trackName = TrackType ev, trackKind = ?kind,
                                        trackChildren = pre @ [ClipChild ?c1]\<rparr>]\<rparr>"
    by auto
  obtain reel0 where ce: "clipEvent ttc e ?tt ?c1 [] 1 ?rt0
     = Inr (zeroEvent\<lparr>EventNumber := 1,
              ReelName := SanitizeReelName reel0 (reelNameLen e),
              TrackType := ?tt, EditType := EditTypeCut,
              SourceIn := ?s1, SourceOut := ?s2, RecordIn := ?s3, RecordOut := ?s4,
              ClipName := ?name, TransitionDuration := 0\<rparr>, Add ?rt0 ?dur)"
    using clipEvent_eventClip[of ttc e ?tt ftc "d\<lparr>fcmMode := mode\<rparr>" ev sIn sOut 1 ?rt0]
    by blast
  let ?reel = "SanitizeReelName reel0 (reelNameLen e)"
  let ?evE = "zeroEvent\<lparr>EventNumber := 1, ReelName := ?reel,
              TrackType := ?tt, EditType := EditTypeCut,
              SourceIn := ?s1, SourceOut := ?s2, RecordIn := ?s3, RecordOut := ?s4,
              ClipName := ?name, TransitionDuration := 0\<rparr>"
  let ?L0 = "''TITLE: Timeline''"
  let ?L1 = "''FCM: NON-DROP FRAME''"
  let ?Lev = "''001  '' @ ?reel @ replicate (8 - length (runes ?reel)) CHR '' '' @ '' '' @ ?tt
                @ ''    C ''"
  let ?Ltc = "''     '' @ ?s1 @ '' '' @ ?s2 @ '' '' @ ?s3 @ '' '' @ ?s4"
  let ?Ln = "''* FROM CLIP NAME: '' @ ?name"
  let ?out = "?L0 @ NL @ ?L1 @ NL @ NL @ ?Lev @ NL @ ?Ltc @ NL @ ?Ln @ NL @ NL"
  have et: "eventText ?evE = ?Lev @ NL @ ?Ltc @ NL @ ?Ln @ NL @ NL"
    by (rule eventText_cut) (simp_all add: nm(1))
  have "Encode ttc bufferWrite e (Some tf) [] = (?L0 @ NL @ ?L1 @ NL @ NL @ eventText ?evE, None)"
    unfolding tf by (rule Encode_single[OF pre kind ce])
  with enc have r: "r = None" and out0: "out = ?L0 @ NL @ ?L1 @ NL @ NL @ eventText ?evE"
    by simp_all
  have out: "out = ?out" unfolding out0 et by (simp only: append_assoc)
  have w1: "isTimecodeText ?s1" and w2: "isTimecodeText ?s2" and w3: "isTimecodeText ?s3"
    and w4: "isTimecodeText ?s4" using wf by simp_all
  have reel_ne: "?reel \<noteq> []" by (rule SanitizeReelName_chars(1))
  have reel_ch: "\<forall>c\<in>set ?reel. \<not> isSpaceRe c"
    using SanitizeReelName_chars(2)[of reel0 "reelNameLen e"] reelChars_not_space by blast
  have reel_nl: "CHR 0x0A \<notin> set ?reel" using reel_ch by (auto simp: isSpaceRe_def)
  have nl0: "CHR 0x0A \<notin> set ?L0" and nl1: "CHR 0x0A \<notin> set ?L1" by simp_all
  have nlev: "CHR 0x0A \<notin> set ?Lev" using reel_nl by simp
  have nltc: "CHR 0x0A \<notin> set ?Ltc"
    using tc_noNL[OF w1] tc_noNL[OF w2] tc_noNL[OF w3] tc_noNL[OF w4] by simp
  have nln: "CHR 0x0A \<notin> set ?Ln" using nm(3) by simp
  have cr0: "dropCR ?L0 = ?L0" and cr1: "dropCR ?L1 = ?L1" by (simp_all add: dropCR_def)
  have crev: "dropCR ?Lev = ?Lev" by (rule dropCR_id) simp
  have crtc: "dropCR ?Ltc = ?Ltc"
    using tc_last[OF w4] isTimecodeText_hd(1)[OF w4] by (intro dropCR_id) simp
  have crn: "dropCR ?Ln = ?Ln"
    using name_last[OF nm(1,2)] nm(1) by (intro dropCR_id) simp
  have scan: "scanLines ?out = ([?L0, ?L1, [], ?Lev, ?Ltc, ?Ln, []], False)"
    using fit unfolding out by (intro scanLines_seven nl0 nl1 nlev nltc nln cr0 cr1 crev crtc crn)
  let ?m = "(''001'', ?reel, ?tt, ''C'', [])"
  let ?ev2 = "((headerEvent ?m)\<lparr>SourceIn := ?s1, SourceOut := ?s2, RecordIn := ?s3,
                RecordOut := ?s4\<rparr>)\<lparr>ClipName := ?name\<rparr>"
  have h0: "TrimSpace ?L0 \<noteq> []" "HasPrefix (TrimSpace ?L0) ''TITLE:''"
    unfolding headerLines by (simp_all add: HasPrefix_def)
  have h1: "TrimSpace ?L1 \<noteq> []" "\<not> HasPrefix (TrimSpace ?L1) ''TITLE:''"
    "HasPrefix (TrimSpace ?L1) ''FCM:''"
    unfolding headerLines by (simp_all add: HasPrefix_def)
  have hn: "TrimSpace ?Ln \<noteq> []" "\<not> HasPrefix (TrimSpace ?Ln) ''TITLE:''"
    "\<not> HasPrefix (TrimSpace ?Ln) ''FCM:''" "\<not> HasPrefix (TrimSpace ?Ln) ''M2''"
    unfolding nameLine_trim[OF nm(1,2)] using nameLine_facts(1-3)[of ?name] by simp_all
  have pl: "parseLoop (initState d) [?L0, ?L1, [], ?Lev, ?Ltc, ?Ln, []]
           = Inr \<lparr>events = [],
                  currentEvent = Some (commentLine ((headerEvent ?m)\<lparr>SourceIn := ?s1,
                     SourceOut := ?s2, RecordIn := ?s3, RecordOut := ?s4\<rparr>) ?Ln),
                  lineNum = 7, fcm = fcmOf (TrimSpace ?L1)\<rparr>"
    by (rule parseLoop_seven[OF h0 h1 eventLine_facts
          eventLineRegex_encoded[OF reel_ne reel_ch tt]
          timecodeLineRegex_encoded[OF w1 w2 w3 w4] hn(1-3) nameLine_facts(4) hn(4)])
  have parse2: "parseEvents d out = Inr ([?ev2], fcmOf (TrimSpace ?L1))"
    unfolding out parseEvents_def scan prod.case pl sum.case if_False
      nameLine_comment[OF nm(1,2)]
    by (simp add: flushed_def)
  have f2: "TrackType ?ev2 = ?tt" "SourceIn ?ev2 = ?s1" "SourceOut ?ev2 = ?s2"
    "RecordIn ?ev2 = ?s3" "RecordOut ?ev2 = ?s4" "ClipName ?ev2 = ?name"
    "FreezeFrame ?ev2 = False"
    by (simp_all add: headerEvent_def Let_def zeroEvent_def)
  have n2: "eventClipName ?ev2 = ?name"
    by (rule eventClipName_plain) (simp_all add: headerEvent_def Let_def zeroEvent_def nm(1))
  have a1: "ftc (SourceIn ?ev2) (decRate d) = Some sIn" unfolding f2 using lib by simp
  have a2: "ftc (SourceOut ?ev2) (decRate d) = Some (Add sIn ?dur)" unfolding f2 using lib by simp
  obtain rIn2 rOut2 where a3: "ftc (RecordIn ?ev2) (decRate d) = Some rIn2"
    and a4: "ftc (RecordOut ?ev2) (decRate d) = Some rOut2"
    unfolding f2 using rec by auto
  let ?c2 = "eventClip ftc (d\<lparr>fcmMode := fcmOf (TrimSpace ?L1)\<rparr>) ?ev2 sIn (Add sIn ?dur)"
  from decode_single[where ftc=ftc, OF parse2 a1 a2 a3 a4] obtain pre2
    where pre2: "\<forall>x\<in>set pre2. \<exists>t. x = TransitionChild t"
      and dec2: "Decode ftc d [TrackType ?ev2] out
           = Inr \<lparr>timelineName = [],
                  timelineTracks =
                    [\<lparr>trackName = TrackType ?ev2,
                      trackKind = (if IsAudioTrack (TrackType ?ev2) then TrackKindAudio
                                   else TrackKindVideo),
                      trackChildren = pre2 @ [ClipChild ?c2]\<rparr>]\<rparr>"
    by blast
  let ?t2 = "\<lparr>timelineName = [],
                  timelineTracks =
                    [\<lparr>trackName = TrackType ?ev2,
                      trackKind = (if IsAudioTrack (TrackType ?ev2) then TrackKindAudio
                                   else TrackKindVideo),
                      trackChildren = pre2 @ [ClipChild ?c2]\<rparr>]\<rparr>"
  have k2: "(if IsAudioTrack (TrackType ?ev2) then TrackKindAudio else TrackKindVideo) = ?kind"
    unfolding f2
    by (simp add: IsAudioTrack_def TrackTypeAudio_def TrackTypeAudio1_def TrackTypeAudio2_def
        TrackTypeAudio3_def TrackTypeAudio4_def ne ne[symmetric])
  have c1: "clipsOf tf = [?c1]" unfolding tf by (rule clipsOf_single[OF pre])
  have c2: "clipsOf ?t2 = [?c2]" by (rule clipsOf_single[OF pre2])
  have q1: "length (timelineTracks tf) = 1" by (simp add: tf)
  have q2: "map trackKind (timelineTracks ?t2) = map trackKind (timelineTracks tf)"
    unfolding tf using k2 by simp
  have q3: "length (clipsOf tf) = 1" by (simp add: c1)
  have q4: "map clipName (clipsOf ?t2) = map clipName (clipsOf tf)"
    unfolding c1 c2 by (simp add: eventClip_fields n2)
  have q5: "map clipDuration (clipsOf ?t2) = map clipDuration (clipsOf tf)"
    unfolding c1 c2 by (simp add: eventClip_fields duration_again)
  have q6: "map clipDuration (clipsOf tf) = [Inr ?dur]"
    unfolding c1 by (simp add: eventClip_fields)
  from parse2 dec2 q1 q2 q3 q4 q5 q6
  have "\<exists>ev2 mode2 t2.
           parseEvents d out = Inr ([ev2], mode2)
         \<and> Decode ftc d [TrackType ev2] out = Inr t2
         \<and> length (timelineTracks tf) = 1
         \<and> map trackKind (timelineTracks t2) = map trackKind (timelineTracks tf)
         \<and> length (clipsOf tf) = 1
         \<and> map clipName (clipsOf t2) = map clipName (clipsOf tf)
         \<and> map clipDuration (clipsOf t2) = map clipDuration (clipsOf tf)
         \<and> map clipDuration (clipsOf tf) = [Inr ?dur]"
    by (intro exI[of _ ?ev2] exI[of _ "fcmOf (TrimSpace ?L1)"] exI[of _ ?t2] conjI)
  with r show ?thesis by (rule conjI)
qed

text \<open>
  Claim C1 as stated fails. In the text \<open>ffEDL\<close> the source and the record duration are
  both one second and seven frames; the clip name comment ends with two spaces and
  \<^verbatim>\<open>FF\<close>, and a \<^verbatim>\<open>* FREEZE FRAME\<close> line follows. The first decode cuts the three bytes of
  the suffix and names the clip \<^verbatim>\<open>FrozenClip\<close> followed by a space; the encoder writes that
  name, and the second decode trims the space: the clip names differ.
\<close>

theorem round_trip_ff_counterexample:
  "\<not> isl (Decode FromTimecodeRef NewDecoder [''V''] ffEDL)
   \<and> map clipName (clipsOf ffFirst) = [''FrozenClip '']
   \<and> Encode ToTimecodeRef bufferWrite NewEncoder (Some ffFirst) [] = (ffEncoded, None)
   \<and> \<not> isl (Decode FromTimecodeRef NewDecoder [''V''] ffEncoded)
   \<and> map clipName (clipsOf (projr (Decode FromTimecodeRef NewDecoder [''V''] ffEncoded)))
       = [''FrozenClip'']"
proof -
  have a: "\<not> isl (Decode FromTimecodeRef NewDecoder [''V''] ffEDL)" by code_simp
  have b: "map clipName (clipsOf ffFirst) = [''FrozenClip '']" by code_simp
  have c: "Encode ToTimecodeRef bufferWrite NewEncoder (Some ffFirst) [] = (ffEncoded, None)"
    by code_simp
  have d: "\<not> isl (Decode FromTimecodeRef NewDecoder [''V''] ffEncoded)" by code_simp
  have e: "map clipName (clipsOf (projr (Decode FromTimecodeRef NewDecoder [''V''] ffEncoded)))
       = [''FrozenClip'']" by code_simp
  from a b c d e show ?thesis by (intro conjI)
qed

theorem round_trip_single_clip_witness:
  "Encode ToTimecodeRef bufferWrite NewEncoder (Some singleFirst) [] = (singleEncoded, None)
   \<and> (\<exists>ev2 mode2 t2.
           parseEvents NewDecoder singleEncoded = Inr ([ev2], mode2)
         \<and> Decode FromTimecodeRef NewDecoder [TrackType ev2] singleEncoded = Inr t2
         \<and> length (timelineTracks singleFirst) = 1
         \<and> map trackKind (timelineTracks t2) = map trackKind (timelineTracks singleFirst)
         \<and> length (clipsOf singleFirst) = 1
         \<and> map clipName (clipsOf t2) = map clipName (clipsOf singleFirst)
         \<and> map clipDuration (clipsOf t2) = map clipDuration (clipsOf singleFirst)
         \<and> map clipDuration (clipsOf singleFirst)
             = [Inr (DurationFromStartEndTime (NewRationalTime 86400 24)
                       (NewRationalTime 86520 24))])"
proof -
  let ?sIn = "NewRationalTime 86400 24"
  let ?sOut = "NewRationalTime 86520 24"
  let ?dur = "DurationFromStartEndTime ?sIn ?sOut"
  let ?rt0 = "NewRationalTime 0 (encRate NewEncoder)"
  let ?fmt = "formatTimecode ToTimecodeRef NewEncoder"
  have h1: "parseEvents NewDecoder singleEDL = Inr ([singleEvent], ''NON-DROP FRAME'')"
    by code_simp
  have h2: "Decode FromTimecodeRef NewDecoder [TrackType singleEvent] singleEDL = Inr singleFirst"
    by code_simp
  have h3: "Encode ToTimecodeRef bufferWrite NewEncoder (Some singleFirst) []
              = (singleEncoded, None)" by code_simp
  have h4: "\<not> snd (scanLines singleEncoded)" by code_simp
  have h5: "eventClipName singleEvent \<noteq> []" by code_simp
  have h6: "TrimSpace (eventClipName singleEvent) = eventClipName singleEvent" by code_simp
  have h7: "CHR 0x0A \<notin> set (eventClipName singleEvent)" by code_simp
  have h8: "FromTimecodeRef (SourceIn singleEvent) (decRate NewDecoder) = Some ?sIn"
    by code_simp
  have h9: "FromTimecodeRef (SourceOut singleEvent) (decRate NewDecoder) = Some ?sOut"
    by code_simp
  have l1: "FromTimecodeRef (?fmt ?sIn) (decRate NewDecoder) = Some ?sIn" by code_simp
  have l2: "FromTimecodeRef (?fmt (Add ?sIn ?dur)) (decRate NewDecoder) = Some (Add ?sIn ?dur)"
    by code_simp
  have l3: "FromTimecodeRef (?fmt ?rt0) (decRate NewDecoder) \<noteq> None" by code_simp
  have l4: "FromTimecodeRef (?fmt (Add ?rt0 ?dur)) (decRate NewDecoder) \<noteq> None" by code_simp
  have w1: "isTimecodeText (?fmt ?sIn)" by code_simp
  have w2: "isTimecodeText (?fmt (Add ?sIn ?dur))" by code_simp
  have w3: "isTimecodeText (?fmt ?rt0)" by code_simp
  have w4: "isTimecodeText (?fmt (Add ?rt0 ?dur))" by code_simp
  have h10: "\<forall>x\<in>{?sIn, Add ?sIn ?dur}. FromTimecodeRef (?fmt x) (decRate NewDecoder) = Some x"
    using l1 l2 by blast
  have h11: "\<forall>x\<in>{?rt0, Add ?rt0 ?dur}. FromTimecodeRef (?fmt x) (decRate NewDecoder) \<noteq> None"
    using l3 l4 by blast
  have h12: "\<forall>x\<in>{?sIn, Add ?sIn ?dur, ?rt0, Add ?rt0 ?dur}. isTimecodeText (?fmt x)"
    using w1 w2 w3 w4 by blast
  note rt = round_trip_single_clip[where ftc=FromTimecodeRef and ttc=ToTimecodeRef
      and d=NewDecoder and e=NewEncoder and ev=singleEvent and edl=singleEDL
      and tf=singleFirst and out=singleEncoded and r=None,
      OF h1 h2 h3 h4 h5 h6 h7 h8 h9 h10 h11 h12]
  from h3 rt[THEN conjunct2] show ?thesis by (rule conjI)
qed

section \<open>The encoder: event numbers\<close>

lemma writeEvent_log: "writeEvent logWrite ev w = (w @ eventWrites ev, None)"
  by (simp add: writeEvent_def eventWrites_def logWrite_def)

lemma eventWrites_eq:
  "eventWrites ev
     = [eventLine ev @ NL, timecodeLine ev @ NL]
       @ (if ClipName ev \<noteq> [] then [''* FROM CLIP NAME: '' @ ClipName ev @ NL] else [])
       @ [NL]"
  by (simp add: writeEvent_def eventWrites_def logWrite_def)

lemma eventText_concat: "eventText ev = concat (eventWrites ev)"
  by (simp add: eventWrites_eq eventText_def writeEvent_def bufferWrite_def)

lemma writeHeader_log:
  "writeHeader logWrite t w =
     (w @ [''TITLE: '' @ (if timelineName t = [] then ''Timeline'' else timelineName t) @ NL,
           ''FCM: NON-DROP FRAME'' @ NL @ NL], None)"
  by (simp add: writeHeader_def logWrite_def)

lemma eventLine_starts: "\<exists>rest. eventLine ev = fmt03d (EventNumber ev) @ ''  '' @ rest"
  by (simp add: eventLine_def Let_def)

lemma eventWrites_block: "\<exists>pre. eventWrites ev = pre @ [NL] \<and> NL \<notin> set pre"
proof -
  obtain rest where r: "eventLine ev = fmt03d (EventNumber ev) @ ''  '' @ rest"
    using eventLine_starts by blast
  have a: "eventLine ev @ NL \<noteq> NL" unfolding r by (simp add: NL_def)
  have b: "timecodeLine ev @ NL \<noteq> NL" by (simp add: timecodeLine_def NL_def)
  have c: "''* FROM CLIP NAME: '' @ ClipName ev @ NL \<noteq> NL" by (simp add: NL_def)
  let ?pre = "[eventLine ev @ NL, timecodeLine ev @ NL]
       @ (if ClipName ev \<noteq> [] then [''* FROM CLIP NAME: '' @ ClipName ev @ NL] else [])"
  have "eventWrites ev = ?pre @ [NL]" by (simp add: eventWrites_eq)
  moreover have "NL \<notin> set ?pre" using a b c by auto
  ultimately show ?thesis by blast
qed

lemma split_first:
  "s \<notin> set pa \<Longrightarrow> s \<notin> set pb \<Longrightarrow> pa @ s # X = pb @ s # Y \<Longrightarrow> pa = pb \<and> X = Y"
proof (induction pa arbitrary: pb)
  case Nil
  then show ?case by (cases pb) auto
next
  case (Cons a pa)
  then show ?case by (cases pb) auto
qed

lemma blocks_unique:
  assumes "\<forall>b\<in>set xs. \<exists>pre. b = pre @ [s] \<and> s \<notin> set pre"
    and "\<forall>b\<in>set ys. \<exists>pre. b = pre @ [s] \<and> s \<notin> set pre"
    and "concat xs = concat ys"
  shows "xs = ys"
  using assms
proof (induction xs arbitrary: ys)
  case Nil
  show ?case
  proof (cases ys)
    case Nil
    then show ?thesis by simp
  next
    case (Cons b bs)
    with Nil.prems(2) obtain pre where "b = pre @ [s]" by auto
    with Nil.prems(3) Cons show ?thesis by simp
  qed
next
  case (Cons a as)
  from Cons.prems(1) obtain pa where pa: "a = pa @ [s]" "s \<notin> set pa" by auto
  show ?case
  proof (cases ys)
    case Nil
    with Cons.prems(3) pa show ?thesis by simp
  next
    case (Cons b bs)
    with Cons.prems(2) obtain pb where pb: "b = pb @ [s]" "s \<notin> set pb" by auto
    from Cons.prems(3) have "pa @ s # concat as = pb @ s # concat bs"
      by (simp add: Cons pa pb)
    from split_first[OF pa(2) pb(2) this]
    have "pa = pb \<and> concat as = concat bs" .
    then have e: "pa = pb" "concat as = concat bs" by simp_all
    from Cons.prems(1) have 1: "\<forall>b\<in>set as. \<exists>pre. b = pre @ [s] \<and> s \<notin> set pre" by simp
    from Cons.prems(2) Cons have 2: "\<forall>b\<in>set bs. \<exists>pre. b = pre @ [s] \<and> s \<notin> set pre" by simp
    from Cons.IH[OF 1 2 e(2)] e(1) pa(1) pb(1) Cons show ?thesis by simp
  qed
qed

lemma eventWrites_unique:
  assumes "concat (map eventWrites evs') = concat (map eventWrites evs)"
  shows "map eventWrites evs' = map eventWrites evs"
proof (rule blocks_unique[where s = NL])
  show "\<forall>b\<in>set (map eventWrites evs'). \<exists>pre. b = pre @ [NL] \<and> NL \<notin> set pre"
    using eventWrites_block by auto
  show "\<forall>b\<in>set (map eventWrites evs). \<exists>pre. b = pre @ [NL] \<and> NL \<notin> set pre"
    using eventWrites_block by auto
  show "concat (map eventWrites evs') = concat (map eventWrites evs)" by fact
qed

lemma writeTrackLoop_log:
  "wr = logWrite \<Longrightarrow> writeTrackLoop ttc wr e tt children n rt w = (w', n', None) \<Longrightarrow>
   \<exists>evs. w' = w @ concat (map eventWrites evs) \<and> n' = n + int (length evs)
      \<and> (\<forall>i<length evs. EventNumber (evs ! i) = n + int i)
      \<and> (\<forall>ev\<in>set evs. TrackType ev = tt)"
proof (induction ttc wr e tt children n rt w arbitrary: w' n' rule: writeTrackLoop.induct)
  case (1 ttc wr e trackType eventNumber recordTime w)
  then show ?case by (intro exI[of _ "[]"]) simp
next
  case (2 ttc wr e trackType g rest eventNumber recordTime w)
  then show ?case by (auto split: sum.splits)
next
  case (3 ttc wr e trackType clip rest eventNumber recordTime w)
  from "3.prems" obtain ev ro where
    ce: "clipEvent ttc e trackType clip rest eventNumber recordTime = Inr (ev, ro)"
    by (auto split: sum.splits)
  with "3.prems" have
    loop: "writeTrackLoop ttc wr e trackType (skipTransition rest) (eventNumber + 1) ro
             (w @ eventWrites ev) = (w', n', None)"
    by (simp add: writeEvent_log)
  have we: "writeEvent wr ev w = (w @ eventWrites ev, None)"
    using "3.prems"(1) by (simp add: writeEvent_log)
  from "3.IH"[OF ce refl we[symmetric] refl "3.prems"(1) loop]
  obtain evs where evs: "w' = (w @ eventWrites ev) @ concat (map eventWrites evs)"
      "n' = eventNumber + 1 + int (length evs)"
      "\<forall>i<length evs. EventNumber (evs ! i) = eventNumber + 1 + int i"
      "\<forall>ev\<in>set evs. TrackType ev = trackType"
    by blast
  from clipEvent_fields[OF ce] have f: "EventNumber ev = eventNumber" "TrackType ev = trackType"
    by simp_all
  show ?case
  proof (intro exI[of _ "ev # evs"] conjI)
    show "w' = w @ concat (map eventWrites (ev # evs))" using evs(1) by simp
    show "n' = eventNumber + int (length (ev # evs))" using evs(2) by simp
    show "\<forall>i<length (ev # evs). EventNumber ((ev # evs) ! i) = eventNumber + int i"
      using evs(3) f(1) by (auto simp: nth_Cons split: nat.splits)
    show "\<forall>x\<in>set (ev # evs). TrackType x = trackType" using evs(4) f(2) by simp
  qed
next
  case (4 ttc wr e trackType t rest eventNumber recordTime w)
  then show ?case by simp
next
  case (5 ttc wr e trackType x rest eventNumber recordTime w)
  then show ?case by simp
qed

lemma writeTrackLoop_concat:
  "wr = logWrite \<Longrightarrow> writeTrackLoop ttc wr e tt children n rt w = (w', n', err) \<Longrightarrow>
   writeTrackLoop ttc bufferWrite e tt children n rt (concat w) = (concat w', n', err)"
proof (induction ttc wr e tt children n rt w arbitrary: w' n' err rule: writeTrackLoop.induct)
  case (1 ttc wr e trackType eventNumber recordTime w)
  then show ?case by simp
next
  case (2 ttc wr e trackType g rest eventNumber recordTime w)
  then show ?case by (auto split: sum.splits)
next
  case (3 ttc wr e trackType clip rest eventNumber recordTime w)
  show ?case
  proof (cases "clipEvent ttc e trackType clip rest eventNumber recordTime")
    case (Inl er)
    with "3.prems" show ?thesis by simp
  next
    case (Inr p)
    obtain ev ro where p: "p = (ev, ro)" by (cases p)
    note ce = Inr[unfolded p]
    have we: "writeEvent wr ev w = (w @ eventWrites ev, None)"
      using "3.prems"(1) by (simp add: writeEvent_log)
    from "3.prems" ce have
      loop: "writeTrackLoop ttc wr e trackType (skipTransition rest) (eventNumber + 1) ro
               (w @ eventWrites ev) = (w', n', err)"
      by (simp add: writeEvent_log)
    from "3.IH"[OF ce refl we[symmetric] refl "3.prems"(1) loop]
    have "writeTrackLoop ttc bufferWrite e trackType (skipTransition rest) (eventNumber + 1) ro
            (concat w @ eventText ev) = (concat w', n', err)"
      by (simp add: eventText_concat)
    with ce show ?thesis by (simp add: writeEvent_buffer)
  qed
next
  case (4 ttc wr e trackType t rest eventNumber recordTime w)
  then show ?case by simp
next
  case (5 ttc wr e trackType x rest eventNumber recordTime w)
  then show ?case by simp
qed

lemma writeAudioTracks_log:
  "writeAudioTracks ttc logWrite e tracks i n w = (w', None) \<Longrightarrow>
   \<exists>evs. w' = w @ concat (map eventWrites evs)
      \<and> (\<forall>j<length evs. EventNumber (evs ! j) = n + int j)
      \<and> (\<forall>ev\<in>set evs. IsAudioTrack (TrackType ev))"
proof (induction tracks arbitrary: i n w)
  case Nil
  then show ?case by (intro exI[of _ "[]"]) simp
next
  case (Cons track rest)
  define tt where "tt = (if i = 0 then TrackTypeAudio1 else if i = 1 then TrackTypeAudio2
     else if i = 2 then TrackTypeAudio3 else if i = 3 then TrackTypeAudio4 else TrackTypeAudio)"
  have au: "IsAudioTrack tt" by (simp add: tt_def IsAudioTrack_def)
  from Cons.prems obtain w1 n1 where
    tr: "writeTrackEvents ttc logWrite e track tt n w = (w1, n1, None)" and
    re: "writeAudioTracks ttc logWrite e rest (i + 1) n1 w1 = (w', None)"
    by (auto simp: tt_def Let_def split: prod.splits option.splits)
  from writeTrackLoop_log[OF refl tr[unfolded writeTrackEvents_def]]
  obtain evs1 where e1: "w1 = w @ concat (map eventWrites evs1)" "n1 = n + int (length evs1)"
     "\<forall>i<length evs1. EventNumber (evs1 ! i) = n + int i" "\<forall>ev\<in>set evs1. TrackType ev = tt"
    by blast
  from Cons.IH[OF re]
  obtain evs2 where e2: "w' = w1 @ concat (map eventWrites evs2)"
     "\<forall>j<length evs2. EventNumber (evs2 ! j) = n1 + int j"
     "\<forall>ev\<in>set evs2. IsAudioTrack (TrackType ev)"
    by blast
  show ?case
  proof (intro exI[of _ "evs1 @ evs2"] conjI)
    show "w' = w @ concat (map eventWrites (evs1 @ evs2))" using e1(1) e2(1) by simp
    show "\<forall>j<length (evs1 @ evs2). EventNumber ((evs1 @ evs2) ! j) = n + int j"
      using e1(2,3) e2(2) by (auto simp: nth_append)
    show "\<forall>ev\<in>set (evs1 @ evs2). IsAudioTrack (TrackType ev)"
      using e1(4) e2(3) au by auto
  qed
qed

lemma writeAudioTracks_concat:
  "writeAudioTracks ttc logWrite e tracks i n w = (w', err) \<Longrightarrow>
   writeAudioTracks ttc bufferWrite e tracks i n (concat w) = (concat w', err)"
proof (induction tracks arbitrary: i n w)
  case Nil
  then show ?case by simp
next
  case (Cons track rest)
  define tt where "tt = (if i = 0 then TrackTypeAudio1 else if i = 1 then TrackTypeAudio2
     else if i = 2 then TrackTypeAudio3 else if i = 3 then TrackTypeAudio4 else TrackTypeAudio)"
  obtain w1 n1 err1 where tr: "writeTrackEvents ttc logWrite e track tt n w = (w1, n1, err1)"
    by (metis prod_cases3)
  from writeTrackLoop_concat[OF refl tr[unfolded writeTrackEvents_def]]
  have tb: "writeTrackEvents ttc bufferWrite e track tt n (concat w) = (concat w1, n1, err1)"
    by (simp add: writeTrackEvents_def)
  show ?case
  proof (cases err1)
    case None
    with Cons.prems tr have "writeAudioTracks ttc logWrite e rest (i + 1) n1 w1 = (w', err)"
      by (simp add: tt_def Let_def)
    from Cons.IH[OF this] tb None show ?thesis by (simp add: tt_def Let_def)
  next
    case (Some er)
    with Cons.prems tr have "w' = w1" "err = Some er" by (simp_all add: tt_def Let_def)
    with tb Some show ?thesis by (simp add: tt_def Let_def)
  qed
qed

lemma Encode_concat:
  "Encode ttc logWrite e (Some t) [] = (ws, err) \<Longrightarrow>
   Encode ttc bufferWrite e (Some t) [] = (concat ws, err)"
proof -
  assume a: "Encode ttc logWrite e (Some t) [] = (ws, err)"
  define h where "h = [''TITLE: '' @ (if timelineName t = [] then ''Timeline'' else timelineName t) @ NL,
           ''FCM: NON-DROP FRAME'' @ NL @ NL]"
  have wl: "writeHeader logWrite t [] = (h, None)" by (simp add: writeHeader_log h_def)
  have wb: "writeHeader bufferWrite t [] = (concat h, None)"
    by (simp add: writeHeader_buffer h_def)
  show ?thesis
  proof (cases "1 < length (VideoTracks t)")
    case True
    with a show ?thesis
      by (auto simp: Encode_def wl wb Let_def)
  next
    case False
    obtain w2 n2 err2 where v: "(case VideoTracks t of
        track # _ \<Rightarrow> writeTrackEvents ttc logWrite e track TrackTypeVideo 1 h
      | [] \<Rightarrow> (h, 1, None)) = (w2, n2, err2)"
      by (metis prod_cases3)
    have vb: "(case VideoTracks t of
        track # _ \<Rightarrow> writeTrackEvents ttc bufferWrite e track TrackTypeVideo 1 (concat h)
      | [] \<Rightarrow> (concat h, 1, None)) = (concat w2, n2, err2)"
    proof (cases "VideoTracks t")
      case Nil
      with v show ?thesis by auto
    next
      case (Cons track rest)
      with v have "writeTrackEvents ttc logWrite e track TrackTypeVideo 1 h = (w2, n2, err2)"
        by simp
      from writeTrackLoop_concat[OF refl this[unfolded writeTrackEvents_def]] Cons
      show ?thesis by (simp add: writeTrackEvents_def)
    qed
    show ?thesis
    proof (cases err2)
      case None
      with a v False have "writeAudioTracks ttc logWrite e (AudioTracks t) 0 n2 w2 = (ws, err)"
        by (simp add: Encode_def wl Let_def)
      from writeAudioTracks_concat[OF this] vb None False show ?thesis
        by (simp add: Encode_def wb Let_def)
    next
      case (Some er)
      with a v False have "ws = w2" "err = Some er"
        by (simp_all add: Encode_def wl Let_def)
      with vb Some False show ?thesis
        by (simp add: Encode_def wb Let_def)
    qed
  qed
qed

text \<open>
  Claim C9. Let \<^verbatim>\<open>Encode\<close> succeed on a writer that records every write (\<open>logWrite\<close>); a
  buffer then holds the concatenation of the recorded writes. After the two writes of the
  header, the writes are those of a sequence of events, event after event: for each event
  the event line, the timecode line, the clip name comment if the event has a clip name,
  and a line feed. The writes split into events in only one way. The event at position
  \<open>i\<close> (from 0) carries the number \<open>i + 1\<close>, whatever its track: the events of the video
  track come first (the first \<open>k\<close>), those of the audio tracks after them, and the count
  runs on from one track to the next. The event line begins with the number under the verb
  \<^verbatim>\<open>%03d\<close>: the decimal digits, with zeros in front up to three characters; so at least
  three characters, exactly three below 1000, and the digits in full from 1000 on.
\<close>

theorem Encode_event_numbers:
  assumes "Encode ttc logWrite e (Some t) [] = (ws, None)"
  shows "Encode ttc bufferWrite e (Some t) [] = (concat ws, None)
     \<and> (\<exists>evs k.
          ws = [''TITLE: '' @ (if timelineName t = [] then ''Timeline'' else timelineName t) @ NL,
                ''FCM: NON-DROP FRAME'' @ NL @ NL] @ concat (map eventWrites evs)
        \<and> (\<forall>evs'. ws = [''TITLE: '' @ (if timelineName t = [] then ''Timeline''
                                          else timelineName t) @ NL,
                          ''FCM: NON-DROP FRAME'' @ NL @ NL] @ concat (map eventWrites evs')
                   \<longrightarrow> map eventWrites evs' = map eventWrites evs)
        \<and> k \<le> length evs
        \<and> (\<forall>i<length evs.
              EventNumber (evs ! i) = 1 + int i
            \<and> (if i < k then TrackType (evs ! i) = TrackTypeVideo
                else IsAudioTrack (TrackType (evs ! i)))
            \<and> eventWrites (evs ! i)
                = [eventLine (evs ! i) @ NL, timecodeLine (evs ! i) @ NL]
                  @ (if ClipName (evs ! i) \<noteq> []
                     then [''* FROM CLIP NAME: '' @ ClipName (evs ! i) @ NL] else [])
                  @ [NL]
            \<and> (\<exists>rest. eventLine (evs ! i) = fmt03d (1 + int i) @ ''  '' @ rest)
            \<and> fmt03d (1 + int i)
                = replicate (3 - length (decimal (Suc i))) CHR ''0'' @ decimal (Suc i)
            \<and> 3 \<le> length (fmt03d (1 + int i))
            \<and> (if Suc i < 1000 then length (fmt03d (1 + int i)) = 3
                else fmt03d (1 + int i) = decimal (Suc i))))"
proof -
  define hdr where "hdr = [''TITLE: '' @ (if timelineName t = [] then ''Timeline''
                                          else timelineName t) @ NL,
                          ''FCM: NON-DROP FRAME'' @ NL @ NL]"
  have wh: "writeHeader logWrite t [] = (hdr, None)"
    by (simp add: writeHeader_log hdr_def)
  obtain w2 n2 err2 where v: "(case VideoTracks t of
        track # _ \<Rightarrow> writeTrackEvents ttc logWrite e track TrackTypeVideo 1 hdr
      | [] \<Rightarrow> (hdr, 1, None)) = (w2, n2, err2)"
    by (metis prod_cases3)
  from assms wh v have nv: "\<not> 1 < length (VideoTracks t)" and "err2 = None"
    and a: "writeAudioTracks ttc logWrite e (AudioTracks t) 0 n2 w2 = (ws, None)"
    by (auto simp: Encode_def Let_def split: if_splits option.splits)
  have "\<exists>evs1. w2 = hdr @ concat (map eventWrites evs1) \<and> n2 = 1 + int (length evs1)
      \<and> (\<forall>i<length evs1. EventNumber (evs1 ! i) = 1 + int i)
      \<and> (\<forall>ev\<in>set evs1. TrackType ev = TrackTypeVideo)"
  proof (cases "VideoTracks t")
    case Nil
    with v show ?thesis by (intro exI[of _ "[]"]) simp
  next
    case (Cons track rest)
    with v \<open>err2 = None\<close>
    have "writeTrackEvents ttc logWrite e track TrackTypeVideo 1 hdr = (w2, n2, None)" by simp
    from writeTrackLoop_log[OF refl this[unfolded writeTrackEvents_def]] show ?thesis .
  qed
  then obtain evs1 where e1: "w2 = hdr @ concat (map eventWrites evs1)" "n2 = 1 + int (length evs1)"
     "\<forall>i<length evs1. EventNumber (evs1 ! i) = 1 + int i"
     "\<forall>ev\<in>set evs1. TrackType ev = TrackTypeVideo"
    by blast
  from writeAudioTracks_log[OF a]
  obtain evs2 where e2: "ws = w2 @ concat (map eventWrites evs2)"
     "\<forall>j<length evs2. EventNumber (evs2 ! j) = n2 + int j"
     "\<forall>ev\<in>set evs2. IsAudioTrack (TrackType ev)"
    by blast
  have num: "\<forall>i<length (evs1 @ evs2). EventNumber ((evs1 @ evs2) ! i) = 1 + int i"
    using e1(2,3) e2(2) by (auto simp: nth_append)
  have kind: "\<forall>i<length (evs1 @ evs2).
     (if i < length evs1 then TrackType ((evs1 @ evs2) ! i) = TrackTypeVideo
      else IsAudioTrack (TrackType ((evs1 @ evs2) ! i)))"
    using e1(4) e2(3) by (auto simp: nth_append)
  have fmt: "fmt03d (1 + int i)
                   = replicate (3 - length (decimal (Suc i))) CHR ''0'' @ decimal (Suc i)
               \<and> 3 \<le> length (fmt03d (1 + int i))
               \<and> (if Suc i < 1000 then length (fmt03d (1 + int i)) = 3
                   else fmt03d (1 + int i) = decimal (Suc i))" for i
  proof -
    have n: "nat (1 + int i) = Suc i" by simp
    show ?thesis
      using fmt03d_pos[of "1 + int i"] fmt03d_width[of "1 + int i"] by (auto simp: n)
  qed
  have ws: "ws = hdr @ concat (map eventWrites (evs1 @ evs2))"
    using e1(1) e2(1) by simp
  have uniq: "map eventWrites evs' = map eventWrites (evs1 @ evs2)"
    if "ws = hdr @ concat (map eventWrites evs')" for evs'
  proof -
    from that ws have "concat (map eventWrites evs') = concat (map eventWrites (evs1 @ evs2))"
      by simp
    then show ?thesis by (rule eventWrites_unique)
  qed
  have "\<exists>evs k.
          ws = hdr @ concat (map eventWrites evs)
        \<and> (\<forall>evs'. ws = hdr @ concat (map eventWrites evs')
                   \<longrightarrow> map eventWrites evs' = map eventWrites evs)
        \<and> k \<le> length evs
        \<and> (\<forall>i<length evs.
              EventNumber (evs ! i) = 1 + int i
            \<and> (if i < k then TrackType (evs ! i) = TrackTypeVideo
                else IsAudioTrack (TrackType (evs ! i)))
            \<and> eventWrites (evs ! i)
                = [eventLine (evs ! i) @ NL, timecodeLine (evs ! i) @ NL]
                  @ (if ClipName (evs ! i) \<noteq> []
                     then [''* FROM CLIP NAME: '' @ ClipName (evs ! i) @ NL] else [])
                  @ [NL]
            \<and> (\<exists>rest. eventLine (evs ! i) = fmt03d (1 + int i) @ ''  '' @ rest)
            \<and> fmt03d (1 + int i)
                = replicate (3 - length (decimal (Suc i))) CHR ''0'' @ decimal (Suc i)
            \<and> 3 \<le> length (fmt03d (1 + int i))
            \<and> (if Suc i < 1000 then length (fmt03d (1 + int i)) = 3
                else fmt03d (1 + int i) = decimal (Suc i)))"
  proof (intro exI[of _ "evs1 @ evs2"] exI[of _ "length evs1"] conjI allI impI)
    show "ws = hdr @ concat (map eventWrites (evs1 @ evs2))" by (rule ws)
    show "length evs1 \<le> length (evs1 @ evs2)" by simp
  next
    fix evs' assume "ws = hdr @ concat (map eventWrites evs')"
    then show "map eventWrites evs' = map eventWrites (evs1 @ evs2)" by (rule uniq)
  next
    fix i assume i: "i < length (evs1 @ evs2)"
    show "EventNumber ((evs1 @ evs2) ! i) = 1 + int i" using num i by blast
    show "if i < length evs1 then TrackType ((evs1 @ evs2) ! i) = TrackTypeVideo
          else IsAudioTrack (TrackType ((evs1 @ evs2) ! i))" using kind i by blast
    show "eventWrites ((evs1 @ evs2) ! i)
                = [eventLine ((evs1 @ evs2) ! i) @ NL, timecodeLine ((evs1 @ evs2) ! i) @ NL]
                  @ (if ClipName ((evs1 @ evs2) ! i) \<noteq> []
                     then [''* FROM CLIP NAME: '' @ ClipName ((evs1 @ evs2) ! i) @ NL] else [])
                  @ [NL]" by (rule eventWrites_eq)
    show "\<exists>rest. eventLine ((evs1 @ evs2) ! i) = fmt03d (1 + int i) @ ''  '' @ rest"
      using eventLine_starts[of "(evs1 @ evs2) ! i"] num i by simp
    show "fmt03d (1 + int i)
                   = replicate (3 - length (decimal (Suc i))) CHR ''0'' @ decimal (Suc i)"
      using fmt by blast
    show "3 \<le> length (fmt03d (1 + int i))" using fmt by blast
    show "if Suc i < 1000 then length (fmt03d (1 + int i)) = 3
                   else fmt03d (1 + int i) = decimal (Suc i)" using fmt by blast
  qed
  then have ex: "\<exists>evs k.
          ws = [''TITLE: '' @ (if timelineName t = [] then ''Timeline'' else timelineName t) @ NL,
                ''FCM: NON-DROP FRAME'' @ NL @ NL] @ concat (map eventWrites evs)
        \<and> (\<forall>evs'. ws = [''TITLE: '' @ (if timelineName t = [] then ''Timeline''
                                          else timelineName t) @ NL,
                          ''FCM: NON-DROP FRAME'' @ NL @ NL] @ concat (map eventWrites evs')
                   \<longrightarrow> map eventWrites evs' = map eventWrites evs)
        \<and> k \<le> length evs
        \<and> (\<forall>i<length evs.
              EventNumber (evs ! i) = 1 + int i
            \<and> (if i < k then TrackType (evs ! i) = TrackTypeVideo
                else IsAudioTrack (TrackType (evs ! i)))
            \<and> eventWrites (evs ! i)
                = [eventLine (evs ! i) @ NL, timecodeLine (evs ! i) @ NL]
                  @ (if ClipName (evs ! i) \<noteq> []
                     then [''* FROM CLIP NAME: '' @ ClipName (evs ! i) @ NL] else [])
                  @ [NL]
            \<and> (\<exists>rest. eventLine (evs ! i) = fmt03d (1 + int i) @ ''  '' @ rest)
            \<and> fmt03d (1 + int i)
                = replicate (3 - length (decimal (Suc i))) CHR ''0'' @ decimal (Suc i)
            \<and> 3 \<le> length (fmt03d (1 + int i))
            \<and> (if Suc i < 1000 then length (fmt03d (1 + int i)) = 3
                else fmt03d (1 + int i) = decimal (Suc i)))"
    unfolding hdr_def .
  from Encode_concat[OF assms] ex show ?thesis by (rule conjI)
qed

theorem Encode_event_numbers_witness:
  "Encode ToTimecodeRef logWrite NewEncoder (Some demoTimeline) [] = (demoWrites, None)
   \<and> Encode ToTimecodeRef bufferWrite NewEncoder (Some demoTimeline) [] = (concat demoWrites, None)
     \<and> (\<exists>evs k.
          demoWrites = [''TITLE: '' @ (if timelineName demoTimeline = [] then ''Timeline'' else timelineName demoTimeline) @ NL,
                ''FCM: NON-DROP FRAME'' @ NL @ NL] @ concat (map eventWrites evs)
        \<and> (\<forall>evs'. demoWrites = [''TITLE: '' @ (if timelineName demoTimeline = [] then ''Timeline''
                                          else timelineName demoTimeline) @ NL,
                          ''FCM: NON-DROP FRAME'' @ NL @ NL] @ concat (map eventWrites evs')
                   \<longrightarrow> map eventWrites evs' = map eventWrites evs)
        \<and> k \<le> length evs
        \<and> (\<forall>i<length evs.
              EventNumber (evs ! i) = 1 + int i
            \<and> (if i < k then TrackType (evs ! i) = TrackTypeVideo
                else IsAudioTrack (TrackType (evs ! i)))
            \<and> eventWrites (evs ! i)
                = [eventLine (evs ! i) @ NL, timecodeLine (evs ! i) @ NL]
                  @ (if ClipName (evs ! i) \<noteq> []
                     then [''* FROM CLIP NAME: '' @ ClipName (evs ! i) @ NL] else [])
                  @ [NL]
            \<and> (\<exists>rest. eventLine (evs ! i) = fmt03d (1 + int i) @ ''  '' @ rest)
            \<and> fmt03d (1 + int i)
                = replicate (3 - length (decimal (Suc i))) CHR ''0'' @ decimal (Suc i)
            \<and> 3 \<le> length (fmt03d (1 + int i))
            \<and> (if Suc i < 1000 then length (fmt03d (1 + int i)) = 3
                else fmt03d (1 + int i) = decimal (Suc i))))"
proof -
  have h: "Encode ToTimecodeRef logWrite NewEncoder (Some demoTimeline) [] = (demoWrites, None)"
    by code_simp
  from h Encode_event_numbers[OF h] show ?thesis by (rule conjI)
qed

end
